(* ===== verification/Sentinel_Prelude.thy ===== *)
theory Sentinel_Prelude
  imports Main "HOL-Library.AList" "HOL-Library.Sublist"
begin

text \<open>
  Vocabulary shared by every component: Python strings and the string methods the code calls,
  JSON-like values (what \<open>dict[str, Any]\<close> holds), Python dictionaries as association lists in
  insertion order, the exceptions the code raises, and computations that thread a state and may
  raise (a state is returned even when an exception is, because the effects that happened before
  the exception stay).

  A Python \<open>str\<close> is a \<^typ>\<open>string\<close>, so its code points are below 256.
\<close>

named_theorems exn_simps \<open>equations of the exception monad and of the exception data\<close>
named_theorems pystr_simps \<open>equations of the string operations\<close>

section \<open>Strings\<close>

definition starts_with :: "string \<Rightarrow> string \<Rightarrow> bool" where
  "starts_with s p = prefix p s"

text \<open>\<open>sub in s\<close>.\<close>

fun str_contains :: "string \<Rightarrow> string \<Rightarrow> bool" where
  "str_contains sub [] = (sub = [])"
| "str_contains sub (c # cs) = (prefix sub (c # cs) \<or> str_contains sub cs)"

definition char_lower :: "char \<Rightarrow> char" where
  "char_lower c =
     (let n = of_char c :: nat in
      if (65 \<le> n \<and> n \<le> 90) \<or> (192 \<le> n \<and> n \<le> 222 \<and> n \<noteq> 215) then char_of (n + 32) else c)"

text \<open>Exact on ASCII (in Python three of the code points from 128 to 255 leave that range).\<close>

definition char_upper :: "char \<Rightarrow> char" where
  "char_upper c =
     (let n = of_char c :: nat in if 97 \<le> n \<and> n \<le> 122 then char_of (n - 32) else c)"

definition str_lower :: "string \<Rightarrow> string" where
  "str_lower s = map char_lower s"

definition str_upper :: "string \<Rightarrow> string" where
  "str_upper s = map char_upper s"

text \<open>\<open>s.strip()\<close>.\<close>

definition is_space :: "char \<Rightarrow> bool" where
  "is_space c =
     (let n = of_char c :: nat in
      (9 \<le> n \<and> n \<le> 13) \<or> (28 \<le> n \<and> n \<le> 32) \<or> n = 133 \<or> n = 160)"

definition str_strip :: "string \<Rightarrow> string" where
  "str_strip s = rev (dropWhile is_space (rev (dropWhile is_space s)))"

text \<open>\<open>s.split(sep, 1)\<close> for a one-character separator: the parts, one or two of them.\<close>

fun split_once :: "char \<Rightarrow> string \<Rightarrow> string list" where
  "split_once c [] = [[]]"
| "split_once c (x # xs) =
     (if x = c then [[], xs]
      else (case split_once c xs of [] \<Rightarrow> [[x]] | p # ps \<Rightarrow> (x # p) # ps))"

text \<open>\<open>s.replace(old, new)\<close> for a non-empty \<open>old\<close>: left to right, without overlaps.\<close>

function str_replace :: "string \<Rightarrow> string \<Rightarrow> string \<Rightarrow> string" where
  "str_replace old new s =
     (if old = [] then s
      else case s of
        [] \<Rightarrow> []
      | c # cs \<Rightarrow>
          (if prefix old s then new @ str_replace old new (drop (length old) s)
           else c # str_replace old new cs))"
  by pat_completeness auto
termination
  by (relation "measure (\<lambda>(old, new, s). length s)") (auto split: if_splits)

declare str_replace.simps [simp del]

text \<open>\<open>str(n)\<close> for integers.\<close>

fun nat_digits :: "nat \<Rightarrow> string" where
  "nat_digits n =
     (if n < 10 then [char_of (48 + n)] else nat_digits (n div 10) @ [char_of (48 + n mod 10)])"

declare nat_digits.simps [simp del]

definition str_int :: "int \<Rightarrow> string" where
  "str_int i = (if i < 0 then CHR ''-'' # nat_digits (nat (- i)) else nat_digits (nat i))"

text \<open>\<open>sep.join(parts)\<close>.\<close>

fun str_join :: "string \<Rightarrow> string list \<Rightarrow> string" where
  "str_join sep [] = []"
| "str_join sep [x] = x"
| "str_join sep (x # y # ys) = x @ sep @ str_join sep (y # ys)"

text \<open>The dash U+2014 of the error messages does not fit a \<^typ>\<open>char\<close>: its UTF-8 bytes.\<close>

definition em_dash :: string where
  "em_dash = [CHR 0xE2, CHR 0x80, CHR 0x94]"

section \<open>JSON-like values and dictionaries\<close>

text \<open>
  The values of \<open>dict[str, Any]\<close> fields. A dictionary is an association list in insertion
  order; \<open>AList.update\<close> overwrites in place and appends a new key, as Python's \<open>d[k] = v\<close> does.
\<close>

datatype json =
    JNull
  | JBool bool
  | JInt int
  | JStr string
  | JList "json list"
  | JObj "(string \<times> json) list"

type_synonym pydict = "(string \<times> json) list"

definition dict_get :: "('k \<times> 'v) list \<Rightarrow> 'k \<Rightarrow> 'v option" where
  "dict_get d k = map_of d k"

definition dict_set :: "('k \<times> 'v) list \<Rightarrow> 'k \<Rightarrow> 'v \<Rightarrow> ('k \<times> 'v) list" where
  "dict_set d k v = AList.update k v d"

lemma dict_get_set [simp]:
  "dict_get (dict_set d k v) k' = (if k' = k then Some v else dict_get d k')"
  by (simp add: dict_get_def dict_set_def update_conv')

text \<open>Python's truth value of a value.\<close>

fun truthy :: "json \<Rightarrow> bool" where
  "truthy JNull = False"
| "truthy (JBool b) = b"
| "truthy (JInt n) = (n \<noteq> 0)"
| "truthy (JStr s) = (s \<noteq> [])"
| "truthy (JList xs) = (xs \<noteq> [])"
| "truthy (JObj d) = (d \<noteq> [])"

text \<open>Python's \<open>repr\<close>: a string prefers single quotes.\<close>

definition hex_digit :: "nat \<Rightarrow> char" where
  "hex_digit n = (if n < 10 then char_of (48 + n) else char_of (87 + n))"

definition hex2 :: "nat \<Rightarrow> string" where
  "hex2 n = [hex_digit (n div 16 mod 16), hex_digit (n mod 16)]"

definition repr_char :: "char \<Rightarrow> char \<Rightarrow> string" where
  "repr_char q c =
     (let n = of_char c :: nat in
      if c = q \<or> c = CHR 0x5C then [CHR 0x5C, c]
      else if n = 9 then [CHR 0x5C, CHR ''t'']
      else if n = 10 then [CHR 0x5C, CHR ''n'']
      else if n = 13 then [CHR 0x5C, CHR ''r'']
      else if n < 32 \<or> (127 \<le> n \<and> n \<le> 160) \<or> n = 173 then [CHR 0x5C, CHR ''x''] @ hex2 n
      else [c])"

definition repr_str :: "string \<Rightarrow> string" where
  "repr_str s =
     (let q = (if CHR 0x27 \<in> set s \<and> CHR 0x22 \<notin> set s then CHR 0x22 else CHR 0x27)
      in [q] @ concat (map (repr_char q) s) @ [q])"

fun py_repr :: "json \<Rightarrow> string" where
  "py_repr JNull = ''None''"
| "py_repr (JBool b) = (if b then ''True'' else ''False'')"
| "py_repr (JInt n) = str_int n"
| "py_repr (JStr s) = repr_str s"
| "py_repr (JList xs) = ''['' @ str_join '', '' (map py_repr xs) @ '']''"
| "py_repr (JObj d) =
     ''{'' @ str_join '', '' (map (\<lambda>kv. repr_str (fst kv) @ '': '' @ py_repr (snd kv)) d) @ ''}''"

text \<open>Python's \<open>str\<close>, as an f-string applies it: a string is itself.\<close>

definition py_str :: "json \<Rightarrow> string" where
  "py_str v = (case v of JStr s \<Rightarrow> s | _ \<Rightarrow> py_repr v)"

section \<open>Exceptions\<close>

text \<open>
  The exceptions of the program with their constructor arguments, the built-in ones it raises, and
  \<open>OtherError\<close> (class name, message) for those of the packages it calls.
\<close>

datatype exn =
    PolicyDenialError string string string        \<comment> \<open>action, reason, policy\_ref\<close>
  | ApprovalRequiredError string string string    \<comment> \<open>action, resource\_arn, request\_id\<close>
  | ToolNotAvailableError string
  | ApprovalNotFoundError string
  | ApprovalAlreadyResolvedError string
  | SelfApprovalError string
  | TokenAcquisitionError string
  | HTTPException int string                      \<comment> \<open>status\_code, detail\<close>
  | ValueError string
  | RuntimeError string
  | KeyError string
  | TypeError string
  | AttributeError string
  | ZeroDivisionError string
  | ValidationError string
  | OtherError string string

text \<open>\<open>type(exc).__name__\<close>.\<close>

fun exn_name :: "exn \<Rightarrow> string" where
  "exn_name (PolicyDenialError _ _ _) = ''PolicyDenialError''"
| "exn_name (ApprovalRequiredError _ _ _) = ''ApprovalRequiredError''"
| "exn_name (ToolNotAvailableError _) = ''ToolNotAvailableError''"
| "exn_name (ApprovalNotFoundError _) = ''ApprovalNotFoundError''"
| "exn_name (ApprovalAlreadyResolvedError _) = ''ApprovalAlreadyResolvedError''"
| "exn_name (SelfApprovalError _) = ''SelfApprovalError''"
| "exn_name (TokenAcquisitionError _) = ''TokenAcquisitionError''"
| "exn_name (HTTPException _ _) = ''HTTPException''"
| "exn_name (ValueError _) = ''ValueError''"
| "exn_name (RuntimeError _) = ''RuntimeError''"
| "exn_name (KeyError _) = ''KeyError''"
| "exn_name (TypeError _) = ''TypeError''"
| "exn_name (AttributeError _) = ''AttributeError''"
| "exn_name (ZeroDivisionError _) = ''ZeroDivisionError''"
| "exn_name (ValidationError _) = ''ValidationError''"
| "exn_name (OtherError n _) = n"

text \<open>\<open>str(exc)\<close>.\<close>

fun exn_str :: "exn \<Rightarrow> string" where
  "exn_str (PolicyDenialError action reason policy_ref) =
     ''DENY ['' @ policy_ref @ ''] '' @ em_dash @ '' '' @ action @ '': '' @ reason"
| "exn_str (ApprovalRequiredError action resource_arn request_id) =
     ''REQUIRE_APPROVAL '' @ em_dash @ '' '' @ action @ '' on '' @ resource_arn @
     '' (request_id='' @ request_id @ '')''"
| "exn_str (ToolNotAvailableError m) = m"
| "exn_str (ApprovalNotFoundError m) = m"
| "exn_str (ApprovalAlreadyResolvedError m) = m"
| "exn_str (SelfApprovalError m) = m"
| "exn_str (TokenAcquisitionError m) = m"
| "exn_str (HTTPException status detail) = str_int status @ '': '' @ detail"
| "exn_str (ValueError m) = m"
| "exn_str (RuntimeError m) = m"
| "exn_str (KeyError k) = repr_str k"
| "exn_str (TypeError m) = m"
| "exn_str (AttributeError m) = m"
| "exn_str (ZeroDivisionError m) = m"
| "exn_str (ValidationError m) = m"
| "exn_str (OtherError _ m) = m"

section \<open>Computations that thread a state and may raise\<close>

type_synonym ('s, 'a) comp = "'s \<Rightarrow> (exn + 'a) \<times> 's"

definition ret :: "'a \<Rightarrow> ('s, 'a) comp" where
  "ret x = (\<lambda>s. (Inr x, s))"

definition throw :: "exn \<Rightarrow> ('s, 'a) comp" where
  "throw e = (\<lambda>s. (Inl e, s))"

definition seq :: "('s, 'a) comp \<Rightarrow> ('a \<Rightarrow> ('s, 'b) comp) \<Rightarrow> ('s, 'b) comp" where
  "seq m f = (\<lambda>s. case m s of (Inl e, s') \<Rightarrow> (Inl e, s') | (Inr x, s') \<Rightarrow> f x s')"

text \<open>\<open>try: m  except Exception as exc: h(exc)\<close>.\<close>

definition try_except :: "('s, 'a) comp \<Rightarrow> (exn \<Rightarrow> ('s, 'a) comp) \<Rightarrow> ('s, 'a) comp" where
  "try_except m h = (\<lambda>s. case m s of (Inl e, s') \<Rightarrow> h e s' | (Inr x, s') \<Rightarrow> (Inr x, s'))"

lemma ret_apply [simp, exn_simps]: "ret x s = (Inr x, s)"
  by (simp add: ret_def)

lemma throw_apply [simp, exn_simps]: "throw e s = (Inl e, s)"
  by (simp add: throw_def)

lemma seq_ret [simp, exn_simps]: "seq (ret x) f = f x"
  by (simp add: seq_def ret_def)

lemma seq_throw [simp, exn_simps]: "seq (throw e) f = throw e"
  by (simp add: seq_def throw_def)

lemma seq_Inl [exn_simps]: "m s = (Inl e, s') \<Longrightarrow> seq m f s = (Inl e, s')"
  by (simp add: seq_def)

lemma seq_Inr [exn_simps]: "m s = (Inr x, s') \<Longrightarrow> seq m f s = f x s'"
  by (simp add: seq_def)

lemma seq_assoc: "seq (seq m f) g = seq m (\<lambda>x. seq (f x) g)"
  by (rule ext) (simp add: seq_def split: prod.splits sum.splits)

lemma try_except_Inl [exn_simps]: "m s = (Inl e, s') \<Longrightarrow> try_except m h s = h e s'"
  by (simp add: try_except_def)

lemma try_except_Inr [exn_simps]: "m s = (Inr x, s') \<Longrightarrow> try_except m h s = (Inr x, s')"
  by (simp add: try_except_def)

lemma seq_returns:
  assumes "seq m f s = (Inr y, s'')"
  obtains x s' where "m s = (Inr x, s')" and "f x s' = (Inr y, s'')"
  using assms by (auto simp: seq_def split: prod.splits sum.splits)

lemma seq_cases:
  assumes "seq m f s = (r, s'')"
  obtains (raises) e where "m s = (Inl e, s'')" and "r = Inl e"
  | (runs) x s' where "m s = (Inr x, s')" and "f x s' = (r, s'')"
  using assms by (auto simp: seq_def split: prod.splits sum.splits)

text \<open>From the evaluated components of a run to the run.\<close>

lemma run_is: "fst p = r \<Longrightarrow> \<exists>s. p = (r, s)"
  by (cases p) simp

lemma run_is2: "fst p = r \<Longrightarrow> snd (snd p) = c \<Longrightarrow> \<exists>s. p = (r, (s, c))"
  by (cases p) auto

lemma run_parts: "fst p = r \<Longrightarrow> p = (r, (fst (snd p), snd (snd p)))"
  by (cases p) simp

text \<open>What returned, and what was raised.\<close>

fun returned :: "(exn + 'a) \<times> 's \<Rightarrow> 'a option" where
  "returned (Inr x, _) = Some x"
| "returned (Inl _, _) = None"

fun raised :: "(exn + 'a) \<times> 's \<Rightarrow> exn option" where
  "raised (Inl e, _) = Some e"
| "raised (Inr _, _) = None"

section \<open>Facts on strings\<close>

lemma starts_with_append [simp, pystr_simps]: "starts_with (p @ s) p"
  by (simp add: starts_with_def)

lemma str_contains_iff: "str_contains sub s \<longleftrightarrow> sublist sub s"
proof (induction s)
  case Nil
  then show ?case by (simp add: sublist_def)
next
  case (Cons c cs)
  then show ?case by (simp add: sublist_Cons_right)
qed

lemma str_contains_append: "str_contains sub (xs @ sub @ ys)"
  by (simp add: str_contains_iff sublist_def) blast

lemma length_str_lower [simp, pystr_simps]: "length (str_lower s) = length s"
  by (simp add: str_lower_def)

lemma split_once_none: "c \<notin> set s \<Longrightarrow> split_once c s = [s]"
  by (induction s) auto

lemma split_once_some: "c \<notin> set a \<Longrightarrow> split_once c (a @ c # b) = [a, b]"
  by (induction a) auto

lemma split_once_length: "length (split_once c s) = (if c \<in> set s then 2 else 1)"
proof (cases "c \<in> set s")
  case True
  then obtain a b where "s = a @ c # b" and "c \<notin> set a"
    by (meson split_list_first)
  then show ?thesis by (simp add: split_once_some)
next
  case False
  then show ?thesis by (simp add: split_once_none)
qed

lemma nat_digits_nonempty [simp]: "nat_digits n \<noteq> []"
  by (subst nat_digits.simps) simp

text \<open>Reading decimal digits back.\<close>

definition digit_val :: "char \<Rightarrow> nat" where
  "digit_val c = of_char c - 48"

definition parse_nat :: "string \<Rightarrow> nat" where
  "parse_nat s = foldl (\<lambda>n c. 10 * n + digit_val c) 0 s"

definition parse_int :: "string \<Rightarrow> int" where
  "parse_int s = (case s of [] \<Rightarrow> 0 | c # cs \<Rightarrow>
     if c = CHR ''-'' then - int (parse_nat cs) else int (parse_nat s))"

lemma of_char_digit [simp]: "n < 10 \<Longrightarrow> of_char (char_of (48 + n :: nat) :: char) = (48 + n :: nat)"
  by (simp add: of_char_of)

lemma digit_val_digit [simp]: "n < 10 \<Longrightarrow> digit_val (char_of (48 + n)) = n"
  unfolding digit_val_def by (subst of_char_digit) simp_all

lemma parse_nat_digits [simp]: "parse_nat (nat_digits n) = n"
proof (induction n rule: nat_digits.induct)
  case (1 n)
  show ?case
  proof (cases "n < 10")
    case True
    then show ?thesis by (subst nat_digits.simps) (simp add: parse_nat_def)
  next
    case False
    with 1 have ih: "parse_nat (nat_digits (n div 10)) = n div 10" by simp
    have "parse_nat (nat_digits n) = 10 * parse_nat (nat_digits (n div 10)) + n mod 10"
      using False by (subst nat_digits.simps) (simp add: parse_nat_def)
    with ih show ?thesis by simp
  qed
qed

lemma nat_digits_inject [simp]: "nat_digits m = nat_digits n \<longleftrightarrow> m = n"
  by (metis parse_nat_digits)

lemma nat_digits_chars: "c \<in> set (nat_digits n) \<Longrightarrow> 48 \<le> (of_char c :: nat) \<and> (of_char c :: nat) \<le> 57"
proof (induction n rule: nat_digits.induct)
  case (1 n)
  show ?case
  proof (cases "n < 10")
    case True
    with "1.prems" show ?thesis by (subst (asm) nat_digits.simps) auto
  next
    case False
    have "of_char (char_of (48 + n mod 10 :: nat) :: char) = (48 + n mod 10 :: nat)"
      by (rule of_char_digit) simp
    moreover have "c \<in> set (nat_digits (n div 10)) \<or> c = char_of (48 + n mod 10)"
      using "1.prems" False by (subst (asm) nat_digits.simps) auto
    ultimately show ?thesis using "1.IH" [OF False] by auto
  qed
qed

lemma nat_digits_no_minus: "CHR ''-'' \<notin> set (nat_digits n)"
  using nat_digits_chars [of "CHR ''-''" n] by auto

lemma parse_int_str_int [simp]: "parse_int (str_int i) = i"
proof (cases "i < 0")
  case True
  then show ?thesis by (simp add: str_int_def parse_int_def)
next
  case False
  obtain c cs where d: "nat_digits (nat i) = c # cs"
    by (cases "nat_digits (nat i)") simp_all
  with nat_digits_no_minus [of "nat i"] have "c \<noteq> CHR ''-''" by auto
  with False d show ?thesis
    using parse_nat_digits [of "nat i"] by (simp add: str_int_def parse_int_def)
qed

lemma str_int_inject [simp]: "str_int i = str_int j \<longleftrightarrow> i = j"
  by (metis parse_int_str_int)

end
