(* ===== verification/Redis_Client.thy ===== *)
theory Redis_Client
  imports Sentinel_Prelude
begin

text \<open>
  Redis is a service the code calls, so it is a parameter: \<open>'r redis\<close> is the client object (one
  field per command the code uses, each a step of a server state \<open>'r\<close> that may fail with a
  message), and \<open>redis_service\<close> is what the code relies on, namely the documented effect of each
  command on the keys of the server. \<open>view\<close> reads a server state as a map from keys to a value
  and a remaining time to live, and \<open>elapse d\<close> is the server \<open>d\<close> seconds later. A command that
  fails leaves the keys as they were or has had its effect (a reply can be lost); a read never
  changes them. Nothing is said about when a command fails: \<open>redis_reliable\<close>, a hypothesis of its
  own, is the case in which none does.
\<close>

section \<open>The client object\<close>

type_synonym ('r, 'a) rcall = "'r \<Rightarrow> (string + 'a) \<times> 'r"

record 'r redis =
  r_ping :: "('r, unit) rcall"
  r_get :: "string \<Rightarrow> ('r, string option) rcall"
  r_set :: "string \<Rightarrow> string \<Rightarrow> ('r, unit) rcall"
  r_setex :: "string \<Rightarrow> int \<Rightarrow> string \<Rightarrow> ('r, unit) rcall"
  r_delete :: "string \<Rightarrow> ('r, int) rcall"
  r_sadd :: "string \<Rightarrow> string \<Rightarrow> ('r, int) rcall"
  r_srem :: "string \<Rightarrow> string \<Rightarrow> ('r, int) rcall"
  r_sismember :: "string \<Rightarrow> string \<Rightarrow> ('r, bool) rcall"
  r_smembers :: "string \<Rightarrow> ('r, string list) rcall"
  r_scard :: "string \<Rightarrow> ('r, int) rcall"
  r_incr :: "string \<Rightarrow> ('r, int) rcall"
  r_expire :: "string \<Rightarrow> int \<Rightarrow> ('r, unit) rcall"

text \<open>A call as Python sees it: a failure is an exception of the redis package.\<close>

definition redis_call :: "('r, 'a) rcall \<Rightarrow> ('r, 'a) comp" where
  "redis_call m = (\<lambda>s. case m s of
       (Inl msg, s') \<Rightarrow> (Inl (OtherError ''RedisError'' msg), s')
     | (Inr x, s') \<Rightarrow> (Inr x, s'))"

lemma redis_call_Inr [simp, exn_simps]:
  "redis_call m s = (Inr x, s') \<longleftrightarrow> m s = (Inr x, s')"
  by (auto simp: redis_call_def split: prod.splits sum.splits)

lemma redis_call_Inl [simp, exn_simps]:
  "redis_call m s = (Inl e, s') \<longleftrightarrow> (\<exists>msg. e = OtherError ''RedisError'' msg \<and> m s = (Inl msg, s'))"
  by (auto simp: redis_call_def split: prod.splits sum.splits)

section \<open>The keys of a server\<close>

datatype rvalue = RStr string | RSet "string set"

type_synonym rview = "string \<Rightarrow> (rvalue \<times> int option) option"

definition str_at :: "rview \<Rightarrow> string \<Rightarrow> string option" where
  "str_at V k = (case V k of Some (RStr v, _) \<Rightarrow> Some v | _ \<Rightarrow> None)"

definition set_at :: "rview \<Rightarrow> string \<Rightarrow> string set" where
  "set_at V k = (case V k of Some (RSet S, _) \<Rightarrow> S | _ \<Rightarrow> {})"

definition ttl_at :: "rview \<Rightarrow> string \<Rightarrow> int option" where
  "ttl_at V k = (case V k of Some (_, t) \<Rightarrow> t | None \<Rightarrow> None)"

definition no_str :: "rview \<Rightarrow> string \<Rightarrow> bool" where
  "no_str V k \<longleftrightarrow> str_at V k = None"

definition no_set :: "rview \<Rightarrow> string \<Rightarrow> bool" where
  "no_set V k \<longleftrightarrow> set_at V k = {}"

definition put_str :: "string \<Rightarrow> string \<Rightarrow> int option \<Rightarrow> rview \<Rightarrow> rview" where
  "put_str k v t V = V(k \<mapsto> (RStr v, t))"

definition put_set :: "string \<Rightarrow> string set \<Rightarrow> rview \<Rightarrow> rview" where
  "put_set k S V = (if S = {} then V(k := None) else V(k \<mapsto> (RSet S, ttl_at V k)))"

definition put_ttl :: "string \<Rightarrow> int \<Rightarrow> rview \<Rightarrow> rview" where
  "put_ttl k t V = (case V k of None \<Rightarrow> V | Some (v, _) \<Rightarrow> V(k \<mapsto> (v, Some t)))"

definition drop_key :: "string \<Rightarrow> rview \<Rightarrow> rview" where
  "drop_key k V = V(k := None)"

text \<open>The number a counter key stands for: 0 when the key is absent.\<close>

definition num_at :: "rview \<Rightarrow> string \<Rightarrow> int \<Rightarrow> bool" where
  "num_at V k i \<longleftrightarrow> (V k = None \<and> i = 0) \<or> (\<exists>t. V k = Some (RStr (str_int i), t))"

definition age :: "int \<Rightarrow> rview \<Rightarrow> rview" where
  "age d V = (\<lambda>k. case V k of
       Some (v, Some t) \<Rightarrow> if d < t then Some (v, Some (t - d)) else None
     | x \<Rightarrow> x)"

named_theorems view_simps \<open>what a key holds after an update\<close>

lemma str_at_put_str [simp, view_simps]:
  "str_at (put_str k v t V) k' = (if k' = k then Some v else str_at V k')"
  by (simp add: str_at_def put_str_def)

lemma set_at_put_set [simp, view_simps]:
  "set_at (put_set k S V) k' = (if k' = k then S else set_at V k')"
  by (simp add: set_at_def put_set_def)

lemma str_at_put_set [simp, view_simps]:
  "str_at (put_set k S V) k' = (if k' = k then None else str_at V k')"
  by (simp add: str_at_def put_set_def)

lemma set_at_put_str [simp, view_simps]:
  "set_at (put_str k v t V) k' = (if k' = k then {} else set_at V k')"
  by (simp add: set_at_def put_str_def)

lemma ttl_at_put_str [simp, view_simps]:
  "ttl_at (put_str k v t V) k' = (if k' = k then t else ttl_at V k')"
  by (simp add: ttl_at_def put_str_def)

lemma ttl_at_put_set_other [simp, view_simps]:
  "k' \<noteq> k \<Longrightarrow> ttl_at (put_set k S V) k' = ttl_at V k'"
  by (simp add: ttl_at_def put_set_def)

lemma at_drop_key [simp, view_simps]:
  "str_at (drop_key k V) k' = (if k' = k then None else str_at V k')"
  "set_at (drop_key k V) k' = (if k' = k then {} else set_at V k')"
  by (simp_all add: str_at_def set_at_def drop_key_def)

lemma set_at_put_ttl [simp, view_simps]: "set_at (put_ttl k t V) k' = set_at V k'"
  by (auto simp: set_at_def put_ttl_def split: option.splits)

lemma str_at_put_ttl [simp, view_simps]: "str_at (put_ttl k t V) k' = str_at V k'"
  by (auto simp: str_at_def put_ttl_def split: option.splits)

lemma num_at_put_ttl [simp, view_simps]: "num_at (put_ttl k t V) k' i \<longleftrightarrow> num_at V k' i"
  by (auto simp: num_at_def put_ttl_def split: option.splits)

lemma num_at_put_str [simp, view_simps]:
  "num_at (put_str k v t V) k' i \<longleftrightarrow> (if k' = k then v = str_int i else num_at V k' i)"
  by (auto simp: num_at_def put_str_def)

lemma num_at_unique: "num_at V k i \<Longrightarrow> num_at V k j \<Longrightarrow> i = j"
  by (auto simp: num_at_def)

lemma age_key:
  "ttl_at V k = Some t \<Longrightarrow> d < t \<Longrightarrow> str_at (age d V) k = str_at V k"
  "ttl_at V k = Some t \<Longrightarrow> t \<le> d \<Longrightarrow> str_at (age d V) k = None"
  "ttl_at V k = None \<Longrightarrow> str_at (age d V) k = str_at V k"
  "ttl_at V k = None \<Longrightarrow> set_at (age d V) k = set_at V k"
  by (auto simp: ttl_at_def str_at_def set_at_def age_def split: option.splits)

section \<open>What the code relies on\<close>

locale redis_service =
  fixes R :: "'r redis" and view :: "'r \<Rightarrow> rview" and elapse :: "int \<Rightarrow> 'r \<Rightarrow> 'r"
  assumes view_elapse: "0 \<le> d \<Longrightarrow> view (elapse d s) = age d (view s)"
    and view_ping: "r_ping R s = (x0, s') \<Longrightarrow> view s' = view s"
    and view_get: "r_get R k s = (x1, s') \<Longrightarrow> view s' = view s"
    and view_sismember: "r_sismember R k m s = (x2, s') \<Longrightarrow> view s' = view s"
    and view_smembers: "r_smembers R k s = (x3, s') \<Longrightarrow> view s' = view s"
    and view_scard: "r_scard R k s = (x4, s') \<Longrightarrow> view s' = view s"
    and get_val: "r_get R k s = (Inr v, s') \<Longrightarrow> v = str_at (view s) k"
    and sismember_val: "r_sismember R k m s = (Inr b, s') \<Longrightarrow> b \<longleftrightarrow> m \<in> set_at (view s) k"
    and smembers_val: "r_smembers R k s = (Inr ms, s') \<Longrightarrow> distinct ms \<and> set ms = set_at (view s) k"
    and scard_val: "r_scard R k s = (Inr n, s') \<Longrightarrow> n = int (card (set_at (view s) k))"
    and set_ok: "r_set R k w s = (Inr u1, s') \<Longrightarrow> view s' = put_str k w None (view s)"
    and set_fail: "r_set R k w s = (Inl e1, s') \<Longrightarrow>
          view s' = view s \<or> view s' = put_str k w None (view s)"
    and setex_ok: "r_setex R k t w s = (Inr u2, s') \<Longrightarrow> view s' = put_str k w (Some t) (view s)"
    and setex_fail: "r_setex R k t w s = (Inl e2, s') \<Longrightarrow>
          view s' = view s \<or> view s' = put_str k w (Some t) (view s)"
    and delete_ok: "r_delete R k s = (Inr n1, s') \<Longrightarrow> view s' = drop_key k (view s)"
    and delete_fail: "r_delete R k s = (Inl e3, s') \<Longrightarrow>
          view s' = view s \<or> view s' = drop_key k (view s)"
    and sadd_ok: "r_sadd R k m s = (Inr n2, s') \<Longrightarrow>
          view s' = put_set k (insert m (set_at (view s) k)) (view s)
          \<and> n2 = (if m \<in> set_at (view s) k then 0 else 1)"
    and sadd_fail: "r_sadd R k m s = (Inl e4, s') \<Longrightarrow>
          view s' = view s \<or> view s' = put_set k (insert m (set_at (view s) k)) (view s)"
    and srem_ok: "r_srem R k m s = (Inr n3, s') \<Longrightarrow>
          view s' = put_set k (set_at (view s) k - {m}) (view s)
          \<and> n3 = (if m \<in> set_at (view s) k then 1 else 0)"
    and srem_fail: "r_srem R k m s = (Inl e5, s') \<Longrightarrow>
          view s' = view s \<or> view s' = put_set k (set_at (view s) k - {m}) (view s)"
    and incr_ok: "r_incr R k s = (Inr n4, s') \<Longrightarrow>
          num_at (view s) k (n4 - 1) \<and> view s' = put_str k (str_int n4) (ttl_at (view s) k) (view s)"
    and incr_fail: "r_incr R k s = (Inl e6, s') \<Longrightarrow> view s' = view s \<or>
          (\<exists>i. num_at (view s) k i
             \<and> view s' = put_str k (str_int (i + 1)) (ttl_at (view s) k) (view s))"
    and expire_ok: "r_expire R k t s = (Inr u3, s') \<Longrightarrow> view s' = put_ttl k t (view s)"
    and expire_fail: "r_expire R k t s = (Inl e7, s') \<Longrightarrow>
          view s' = view s \<or> view s' = put_ttl k t (view s)"
begin

lemmas views = view_ping view_get view_sismember view_smembers view_scard

end

text \<open>No command fails: reads find a key of the right kind or none, writes go through.\<close>

definition redis_reliable :: "'r redis \<Rightarrow> ('r \<Rightarrow> rview) \<Rightarrow> bool" where
  "redis_reliable R view \<longleftrightarrow>
     (\<forall>s. isl (fst (r_ping R s)) = False)
   \<and> (\<forall>s k. no_set (view s) k \<longrightarrow> isl (fst (r_get R k s)) = False)
   \<and> (\<forall>s k w. isl (fst (r_set R k w s)) = False)
   \<and> (\<forall>s k t w. 0 < t \<longrightarrow> isl (fst (r_setex R k t w s)) = False)
   \<and> (\<forall>s k. isl (fst (r_delete R k s)) = False)
   \<and> (\<forall>s k m. no_str (view s) k \<longrightarrow> isl (fst (r_sadd R k m s)) = False)
   \<and> (\<forall>s k m. no_str (view s) k \<longrightarrow> isl (fst (r_srem R k m s)) = False)
   \<and> (\<forall>s k m. no_str (view s) k \<longrightarrow> isl (fst (r_sismember R k m s)) = False)
   \<and> (\<forall>s k. no_str (view s) k \<longrightarrow> isl (fst (r_smembers R k s)) = False)
   \<and> (\<forall>s k. no_str (view s) k \<longrightarrow> isl (fst (r_scard R k s)) = False)
   \<and> (\<forall>s k i. num_at (view s) k i \<longrightarrow> isl (fst (r_incr R k s)) = False)
   \<and> (\<forall>s k t. isl (fst (r_expire R k t s)) = False)"

lemma not_isl_fst: "isl (fst p) = False \<longleftrightarrow> (\<exists>x s'. p = (Inr x, s'))"
  by (cases p; cases "fst p") auto

lemma reliable_calls:
  assumes "redis_reliable R view"
  shows "\<exists>s'. r_ping R s = (Inr (), s')"
    and "no_set (view s) k \<Longrightarrow> \<exists>v s'. r_get R k s = (Inr v, s')"
    and "\<exists>s'. r_set R k w s = (Inr (), s')"
    and "0 < t \<Longrightarrow> \<exists>s'. r_setex R k t w s = (Inr (), s')"
    and "\<exists>n s'. r_delete R k s = (Inr n, s')"
    and "no_str (view s) k \<Longrightarrow> \<exists>n s'. r_sadd R k m s = (Inr n, s')"
    and "no_str (view s) k \<Longrightarrow> \<exists>n s'. r_srem R k m s = (Inr n, s')"
    and "no_str (view s) k \<Longrightarrow> \<exists>b s'. r_sismember R k m s = (Inr b, s')"
    and "no_str (view s) k \<Longrightarrow> \<exists>ms s'. r_smembers R k s = (Inr ms, s')"
    and "no_str (view s) k \<Longrightarrow> \<exists>n s'. r_scard R k s = (Inr n, s')"
    and "num_at (view s) k i \<Longrightarrow> \<exists>n s'. r_incr R k s = (Inr n, s')"
    and "\<exists>s'. r_expire R k t s = (Inr (), s')"
  using assms unfolding redis_reliable_def not_isl_fst by (simp_all, blast?)

section \<open>A server in memory\<close>

text \<open>
  A small server that meets the contract. The code does not contain it: it shows that the
  hypotheses can hold, and the witnesses run on it.
\<close>

datatype mval = MStr string | MSet "string list"

type_synonym mem = "string \<Rightarrow> (mval \<times> int option) option"

definition mem_view :: "mem \<Rightarrow> rview" where
  "mem_view M = (\<lambda>k. case M k of
       Some (MStr v, t) \<Rightarrow> Some (RStr v, t)
     | Some (MSet xs, t) \<Rightarrow> (if xs = [] then None else Some (RSet (set xs), t))
     | None \<Rightarrow> None)"

definition mem_ttl :: "mem \<Rightarrow> string \<Rightarrow> int option" where
  "mem_ttl M k = (case M k of Some (MSet [], _) \<Rightarrow> None | Some (_, t) \<Rightarrow> t | None \<Rightarrow> None)"

definition mem_members :: "mem \<Rightarrow> string \<Rightarrow> (string + string list)" where
  "mem_members M k = (case M k of
       None \<Rightarrow> Inr []
     | Some (MSet xs, _) \<Rightarrow> Inr (remdups xs)
     | Some (MStr _, _) \<Rightarrow> Inl ''WRONGTYPE'')"

definition mem_elapse :: "int \<Rightarrow> mem \<Rightarrow> mem" where
  "mem_elapse d M = (\<lambda>k. case M k of
       Some (v, Some t) \<Rightarrow> if d < t then Some (v, Some (t - d)) else None
     | x \<Rightarrow> x)"

definition mem_redis :: "mem redis" where
  "mem_redis = \<lparr>
     r_ping = (\<lambda>M. (Inr (), M)),
     r_get = (\<lambda>k M. (case M k of
         None \<Rightarrow> Inr None
       | Some (MStr v, _) \<Rightarrow> Inr (Some v)
       | Some (MSet xs, _) \<Rightarrow> if xs = [] then Inr None else Inl ''WRONGTYPE'', M)),
     r_set = (\<lambda>k v M. (Inr (), M(k \<mapsto> (MStr v, None)))),
     r_setex = (\<lambda>k t v M. if 0 < t then (Inr (), M(k \<mapsto> (MStr v, Some t)))
                           else (Inl ''invalid expire time'', M)),
     r_delete = (\<lambda>k M. (Inr (if M k = None then 0 else 1), M(k := None))),
     r_sadd = (\<lambda>k m M. case mem_members M k of
         Inl e \<Rightarrow> (Inl e, M)
       | Inr xs \<Rightarrow> (Inr (if m \<in> set xs then 0 else 1), M(k \<mapsto> (MSet (m # xs), mem_ttl M k)))),
     r_srem = (\<lambda>k m M. case mem_members M k of
         Inl e \<Rightarrow> (Inl e, M)
       | Inr xs \<Rightarrow> (Inr (if m \<in> set xs then 1 else 0),
                   M(k \<mapsto> (MSet (filter (\<lambda>x. x \<noteq> m) xs), mem_ttl M k)))),
     r_sismember = (\<lambda>k m M. (case mem_members M k of Inl e \<Rightarrow> Inl e | Inr xs \<Rightarrow> Inr (m \<in> set xs), M)),
     r_smembers = (\<lambda>k M. (mem_members M k, M)),
     r_scard = (\<lambda>k M. (case mem_members M k of Inl e \<Rightarrow> Inl e | Inr xs \<Rightarrow> Inr (int (length xs)), M)),
     r_incr = (\<lambda>k M. case M k of
         None \<Rightarrow> (Inr 1, M(k \<mapsto> (MStr (str_int 1), None)))
       | Some (MStr v, t) \<Rightarrow>
           (if str_int (parse_int v) = v
            then (Inr (parse_int v + 1), M(k \<mapsto> (MStr (str_int (parse_int v + 1)), t)))
            else (Inl ''value is not an integer'', M))
       | Some (MSet xs, t) \<Rightarrow>
           (if xs = [] then (Inr 1, M(k \<mapsto> (MStr (str_int 1), None))) else (Inl ''WRONGTYPE'', M))),
     r_expire = (\<lambda>k t M. (Inr (), case M k of None \<Rightarrow> M | Some (v, _) \<Rightarrow> M(k \<mapsto> (v, Some t)))) \<rparr>"

lemmas mem_simps = mem_redis_def mem_members_def mem_ttl_def mem_view_def mem_elapse_def

lemma mem_members_Inr:
  "mem_members M k = Inr xs \<Longrightarrow> distinct xs \<and> set xs = set_at (mem_view M) k \<and> (M k = None \<or> (\<exists>ys t. M k = Some (MSet ys, t)))"
  by (auto simp: mem_members_def set_at_def mem_view_def split: option.splits mval.splits)

lemma set_at_mem: "set_at (mem_view M) k = (case M k of Some (MSet xs, _) \<Rightarrow> set xs | _ \<Rightarrow> {})"
  by (auto simp: set_at_def mem_view_def split: option.splits mval.splits prod.splits)

lemma str_at_mem: "str_at (mem_view M) k = (case M k of Some (MStr v, _) \<Rightarrow> Some v | _ \<Rightarrow> None)"
  by (auto simp: str_at_def mem_view_def split: option.splits mval.splits prod.splits)

lemma ttl_at_mem: "ttl_at (mem_view M) k = mem_ttl M k"
  by (auto simp: ttl_at_def mem_view_def mem_ttl_def split: option.splits mval.splits prod.splits list.splits)

lemmas mem_at = set_at_mem str_at_mem ttl_at_mem

lemma mem_view_str [simp]: "mem_view (M(k \<mapsto> (MStr v, t))) = put_str k v t (mem_view M)"
  by (rule ext) (simp add: mem_view_def put_str_def)

lemma mem_view_drop [simp]: "mem_view (M(k := None)) = drop_key k (mem_view M)"
  by (rule ext) (simp add: mem_view_def drop_key_def)

lemma mem_view_set [simp]:
  "mem_view (M(k \<mapsto> (MSet xs, mem_ttl M k))) = put_set k (set xs) (mem_view M)"
  by (rule ext) (simp add: mem_view_def put_set_def ttl_at_mem [unfolded mem_view_def])

lemma mem_view_ttl:
  "mem_view (case M k of None \<Rightarrow> M | Some (v, _) \<Rightarrow> M(k \<mapsto> (v, Some t))) = put_ttl k t (mem_view M)"
  by (rule ext) (auto simp: mem_view_def put_ttl_def split: option.splits mval.splits)

lemma num_at_mem: "num_at (mem_view M) k i \<longleftrightarrow>
    (case M k of None \<Rightarrow> i = 0 | Some (MStr v, _) \<Rightarrow> v = str_int i | Some (MSet xs, _) \<Rightarrow> xs = [] \<and> i = 0)"
  by (auto simp: num_at_def mem_view_def split: option.splits mval.splits if_splits)

lemma mem_members_at:
  "mem_members M k = Inr xs \<Longrightarrow> set xs = set_at (mem_view M) k \<and> distinct xs"
  by (auto simp: mem_members_def set_at_mem split: option.splits mval.splits)

lemma mem_members_set: "mem_members M k = Inr xs \<Longrightarrow> set_at (mem_view M) k = set xs"
  using mem_members_at by simp

lemma mem_members_length: "mem_members M k = Inr xs \<Longrightarrow> length xs = card (set_at (mem_view M) k)"
  by (metis distinct_card mem_members_at)

lemma set_without: "{x \<in> A. x \<noteq> m} = A - {m}"
  by auto

lemma mem_ttl_str: "M k = Some (MStr v, t) \<Longrightarrow> mem_ttl M k = t"
  by (simp add: mem_ttl_def)

lemma mem_ttl_none: "M k = None \<or> M k = Some (MSet [], t) \<Longrightarrow> mem_ttl M k = None"
  by (auto simp: mem_ttl_def)

lemmas mem_splits = option.splits mval.splits prod.splits if_splits sum.splits

interpretation mem: redis_service mem_redis mem_view mem_elapse
proof (unfold_locales, goal_cases)
  case (1 d s) show ?case
    by (rule ext) (auto simp: mem_view_def mem_elapse_def age_def split: mem_splits)
next
  case (10 k s n s') then show ?case
    by (auto simp: mem_redis_def mem_members_length split: mem_splits)
next
  case (17 k m s n s') then show ?case
    by (cases "mem_members s k") (auto simp: mem_redis_def mem_members_set split: if_splits)
next
  case (19 k m s n s') then show ?case
    by (cases "mem_members s k")
      (auto simp: mem_redis_def mem_members_set set_without split: if_splits)
next
  case (21 k s n s') then show ?case
    by (auto simp: mem_redis_def num_at_mem ttl_at_mem mem_ttl_str mem_ttl_none split: mem_splits)
next
  case (23 k t s u s') then show ?case
    by (auto simp: mem_redis_def mem_view_ttl)
next
  case (7 k s v s') then show ?case
    by (auto simp: mem_redis_def str_at_mem split: mem_splits)
next
  case (8 k m s b s') then show ?case
    by (auto simp: mem_redis_def mem_members_at split: mem_splits)
next
  case (9 k s ms s') then show ?case
    by (auto simp: mem_redis_def dest: mem_members_at)
next
  case (13 k t w s u s') then show ?case
    by (auto simp: mem_redis_def split: if_splits)
qed (simp_all add: mem_redis_def split: mem_splits)

lemma mem_reliable: "redis_reliable mem_redis mem_view"
  unfolding redis_reliable_def no_set_def no_str_def
  by (intro conjI allI impI; simp add: mem_redis_def mem_at mem_members_def num_at_mem split: mem_splits)

end
