(* ===== verification/Py_Datetime.thy ===== *)
theory Py_Datetime
  imports Sentinel_Prelude
begin

text \<open>
  Python's aware UTC \<open>datetime\<close> as the code uses it: an instant is the number of microseconds
  since 1970-01-01T00:00:00 (an \<^typ>\<open>int\<close>), so \<open>timedelta\<close> arithmetic is integer arithmetic,
  and \<open>hour\<close> and \<open>isoformat\<close> read the proleptic Gregorian calendar off it. \<open>isoformat_inject\<close>
  is what the audit hash needs: two instants of the years 1 to 9999 print alike only if they
  are equal.
\<close>

type_synonym instant = int

definition us_per_second :: int where "us_per_second = 1000000"
definition us_per_hour :: int where "us_per_hour = 3600000000"
definition us_per_day :: int where "us_per_day = 86400000000"

lemmas us_defs = us_per_second_def us_per_hour_def us_per_day_def

definition day_of :: "instant \<Rightarrow> int" where "day_of t = t div us_per_day"
definition dt_hour :: "instant \<Rightarrow> int" where "dt_hour t = t mod us_per_day div us_per_hour"
definition dt_minute :: "instant \<Rightarrow> int" where "dt_minute t = t mod us_per_hour div 60000000"
definition dt_second :: "instant \<Rightarrow> int" where "dt_second t = t mod 60000000 div us_per_second"
definition dt_micro :: "instant \<Rightarrow> int" where "dt_micro t = t mod us_per_second"

text \<open>
  The calendar counts years from March and days from 0000-03-01, 719468 days before the epoch:
  400-year eras, centuries, four-year cycles, years.
\<close>

definition year_split :: "int \<Rightarrow> int \<times> int \<times> int" where
  \<comment> \<open>days since 0000-03-01 to: era, year of the era, day of the year\<close>
  "year_split n =
     (let era = n div 146097; doe = n mod 146097;
          c = min 3 (doe div 36524); r = doe - 36524 * c;
          q = r div 1461; s = r mod 1461;
          a = min 3 (s div 365)
      in (era, 100 * c + 4 * q + a, s - 365 * a))"

definition civil_of_days :: "int \<Rightarrow> int \<times> int \<times> int" where
  "civil_of_days z =
     (let (era, yoe, doy) = year_split (z + 719468);
          mp = (5 * doy + 2) div 153;
          d = doy - (153 * mp + 2) div 5 + 1;
          m = (if mp < 10 then mp + 3 else mp - 9)
      in (400 * era + yoe + (if m \<le> 2 then 1 else 0), m, d))"

definition days_of_civil :: "int \<times> int \<times> int \<Rightarrow> int" where
  "days_of_civil = (\<lambda>(y, m, d).
     let y' = (if m \<le> 2 then y - 1 else y); era = y' div 400; yoe = y' mod 400;
         mp = (if m \<le> 2 then m + 9 else m - 3);
         doy = (153 * mp + 2) div 5 + d - 1
     in era * 146097 + (yoe * 365 + yoe div 4 - yoe div 100 + doy) - 719468)"

definition dt_date :: "instant \<Rightarrow> int \<times> int \<times> int" where
  "dt_date t = civil_of_days (day_of t)"

definition dt_year :: "instant \<Rightarrow> int" where "dt_year t = fst (dt_date t)"

text \<open>Python's \<open>datetime\<close> range.\<close>

definition valid_instant :: "instant \<Rightarrow> bool" where
  "valid_instant t \<longleftrightarrow> 1 \<le> dt_year t \<and> dt_year t \<le> 9999"

section \<open>Printing\<close>

definition dig :: "int \<Rightarrow> char" where
  "dig n = char_of (48 + nat (n mod 10))"

definition pad2 :: "int \<Rightarrow> string" where
  "pad2 n = [dig (n div 10), dig n]"

definition pad4 :: "int \<Rightarrow> string" where
  "pad4 n = pad2 (n div 100) @ pad2 n"

definition pad6 :: "int \<Rightarrow> string" where
  "pad6 n = pad2 (n div 10000) @ pad4 n"

definition iso_date :: "int \<times> int \<times> int \<Rightarrow> string" where
  "iso_date = (\<lambda>(y, m, d). pad4 y @ ''-'' @ pad2 m @ ''-'' @ pad2 d)"

definition isoformat :: "instant \<Rightarrow> string" where
  "isoformat t =
     iso_date (dt_date t) @ ''T'' @ pad2 (dt_hour t) @ '':'' @ pad2 (dt_minute t) @ '':'' @
     pad2 (dt_second t) @ (if dt_micro t = 0 then '''' else ''.'' @ pad6 (dt_micro t)) @ ''+00:00''"

section \<open>The calendar is a bijection\<close>

lemma year_split_bounds:
  assumes "year_split n = (era, yoe, doy)"
  shows "0 \<le> yoe" "yoe \<le> 399" "0 \<le> doy" "doy \<le> 365"
    and "n = era * 146097 + (yoe * 365 + yoe div 4 - yoe div 100 + doy)"
proof -
  define doe where "doe = n mod 146097"
  define c where "c = min 3 (doe div 36524)"
  define r where "r = doe - 36524 * c"
  define q where "q = r div 1461"
  define s where "s = r mod 1461"
  define a where "a = min 3 (s div 365)"
  have "(era, yoe, doy) = (n div 146097, 100 * c + 4 * q + a, s - 365 * a)"
    unfolding assms [symmetric] year_split_def Let_def a_def s_def q_def r_def c_def doe_def
    by (rule refl)
  then have parts: "era = n div 146097" "yoe = 100 * c + 4 * q + a" "doy = s - 365 * a"
    by (simp_all only: prod.inject)
  have doe: "0 \<le> doe" "doe \<le> 146096" by (simp_all add: doe_def)
  have c: "0 \<le> c" "c \<le> 3" using doe by (simp_all add: c_def)
  have r: "0 \<le> r" "r \<le> 36524"
    using doe by (simp_all add: r_def c_def min_def; linarith)+
  have q: "0 \<le> q" "q \<le> 24" using r by (simp_all add: q_def)
  have s: "0 \<le> s" "s \<le> 1460" by (simp_all add: s_def)
  have qs: "r = 1461 * q + s" by (simp add: q_def s_def)
  have a: "0 \<le> a" "a \<le> 3" using s by (simp_all add: a_def)
  have doy: "0 \<le> doy" "doy \<le> 365"
    using s by (simp_all add: parts a_def min_def; linarith)+
  show "0 \<le> yoe" "yoe \<le> 399" using c q a by (simp_all add: parts)
  show "0 \<le> doy" "doy \<le> 365" by (rule doy)+
  have y4: "yoe div 4 = 25 * c + q" using c q a by (simp add: parts)
  have y100: "yoe div 100 = c" using c q a by (simp add: parts)
  have "n = era * 146097 + doe" by (simp add: parts doe_def)
  also have "doe = 36524 * c + 1461 * q + 365 * a + doy" using qs by (simp add: r_def parts)
  also have "\<dots> = yoe * 365 + yoe div 4 - yoe div 100 + doy"
    unfolding y4 y100 by (simp add: parts)
  finally show "n = era * 146097 + (yoe * 365 + yoe div 4 - yoe div 100 + doy)" .
qed

lemma month_bounds:
  fixes doy :: int
  assumes "0 \<le> doy" "doy \<le> 365" and mp_def: "mp = (5 * doy + 2) div 153"
  shows "0 \<le> mp" "mp \<le> 11" "1 \<le> doy - (153 * mp + 2) div 5 + 1" "doy - (153 * mp + 2) div 5 + 1 \<le> 31"
  using assms by (simp_all add: mp_def; linarith)+

lemma civil_bounds:
  assumes "civil_of_days z = (y, m, d)"
  shows "1 \<le> m" "m \<le> 12" "1 \<le> d" "d \<le> 31"
proof -
  obtain era yoe doy where sp: "year_split (z + 719468) = (era, yoe, doy)"
    by (metis prod_cases3)
  note b = year_split_bounds(3,4) [OF sp]
  define mp where "mp = (5 * doy + 2) div 153"
  note mb = month_bounds [OF b mp_def]
  have "m = (if mp < 10 then mp + 3 else mp - 9)" "d = doy - (153 * mp + 2) div 5 + 1"
    using assms unfolding civil_of_days_def sp Let_def prod.case mp_def [symmetric]
    by (simp_all only: prod.inject)
  then show "1 \<le> m" "m \<le> 12" "1 \<le> d" "d \<le> 31" using mb by (simp_all split: if_splits)
qed

lemma days_of_civil_of_days [simp]: "days_of_civil (civil_of_days z) = z"
proof -
  obtain era yoe doy where sp: "year_split (z + 719468) = (era, yoe, doy)"
    by (metis prod_cases3)
  note b = year_split_bounds [OF sp]
  define mp where "mp = (5 * doy + 2) div 153"
  define m where "m = (if mp < 10 then mp + 3 else mp - 9)"
  have mp: "0 \<le> mp" "mp \<le> 11" using month_bounds [OF b(3,4) refl] by (simp_all add: mp_def)
  have months: "(if m \<le> 2 then m + 9 else m - 3) = mp" using mp by (auto simp: m_def)
  have civil: "civil_of_days z =
      (400 * era + yoe + (if m \<le> 2 then 1 else 0), m, doy - (153 * mp + 2) div 5 + 1)"
    by (simp add: civil_of_days_def sp mp_def m_def Let_def)
  have year: "(if m \<le> 2 then 400 * era + yoe + (if m \<le> 2 then 1 else 0) - 1
      else 400 * era + yoe + (if m \<le> 2 then 1 else 0)) = 400 * era + yoe" by simp
  have y: "(400 * era + yoe) div 400 = era" "(400 * era + yoe) mod 400 = yoe"
    using b(1,2) by simp_all
  have "days_of_civil (civil_of_days z) =
      era * 146097 + (yoe * 365 + yoe div 4 - yoe div 100 + doy) - 719468"
    unfolding civil days_of_civil_def prod.case Let_def months year y by simp
  with b(5) show ?thesis by simp
qed

lemma civil_of_days_inject: "civil_of_days z = civil_of_days z' \<Longrightarrow> z = z'"
  by (metis days_of_civil_of_days)

section \<open>Printing is injective\<close>

lemma mod_split: "0 < (c::int) \<Longrightarrow> a mod (b * c) = b * (a div b mod c) + a mod b"
  by (simp add: zmod_zmult2_eq)

lemma dig_inject: "dig a = dig b \<Longrightarrow> a mod 10 = b mod 10"
proof -
  assume "dig a = dig b"
  moreover have "(of_char (dig x) :: nat) = 48 + nat (x mod 10)" for x :: int
    unfolding dig_def by (rule of_char_digit) simp
  ultimately have "nat (a mod 10) = nat (b mod 10)" by (metis add_left_cancel)
  then show ?thesis by simp
qed

lemma length_pads [simp]: "length (pad2 n) = 2" "length (pad4 n) = 4" "length (pad6 n) = 6"
  by (simp_all add: pad2_def pad4_def pad6_def)

lemma pad2_inject: "pad2 a = pad2 b \<Longrightarrow> a mod 100 = b mod 100"
proof -
  assume "pad2 a = pad2 b"
  then have "a div 10 mod 10 = b div 10 mod 10" and "a mod 10 = b mod 10"
    by (auto simp: pad2_def dest: dig_inject)
  moreover have "x mod 100 = 10 * (x div 10 mod 10) + x mod 10" for x :: int
    by (rule mod_split [of 10 x 10, simplified])
  ultimately show ?thesis by (simp only:)
qed

lemma pad4_inject: "pad4 a = pad4 b \<Longrightarrow> a mod 10000 = b mod 10000"
proof -
  assume "pad4 a = pad4 b"
  then have "a div 100 mod 100 = b div 100 mod 100" and "a mod 100 = b mod 100"
    by (auto simp: pad4_def dest: pad2_inject)
  moreover have "x mod 10000 = 100 * (x div 100 mod 100) + x mod 100" for x :: int
    by (rule mod_split [of 100 x 100, simplified])
  ultimately show ?thesis by (simp only:)
qed

lemma pad6_inject: "pad6 a = pad6 b \<Longrightarrow> a mod 1000000 = b mod 1000000"
proof -
  assume "pad6 a = pad6 b"
  then have "a div 10000 mod 100 = b div 10000 mod 100" and "a mod 10000 = b mod 10000"
    by (auto simp: pad6_def dest: pad2_inject pad4_inject)
  moreover have "x mod 1000000 = 10000 * (x div 10000 mod 100) + x mod 10000" for x :: int
    by (rule mod_split [of 100 x 10000, simplified])
  ultimately show ?thesis by (simp only:)
qed

lemma iso_date_inject:
  assumes "iso_date (y, m, d) = iso_date (y', m', d')"
    and "0 \<le> y" "y \<le> 9999" "0 \<le> y'" "y' \<le> 9999"
    and "1 \<le> m" "m \<le> 12" "1 \<le> m'" "m' \<le> 12" "1 \<le> d" "d \<le> 31" "1 \<le> d'" "d' \<le> 31"
  shows "(y, m, d) = (y', m', d')"
proof -
  from assms(1) have "pad4 y = pad4 y'" "pad2 m = pad2 m'" "pad2 d = pad2 d'"
    by (auto simp: iso_date_def)
  then have "y mod 10000 = y' mod 10000" "m mod 100 = m' mod 100" "d mod 100 = d' mod 100"
    by (auto dest: pad2_inject pad4_inject)
  with assms(2-) show ?thesis by simp
qed

lemma length_iso_date [simp]: "length (iso_date x) = 10"
  by (cases x) (simp add: iso_date_def)

lemma instant_fields:
  "t = us_per_day * day_of t + (us_per_hour * dt_hour t + (60000000 * dt_minute t
       + (us_per_second * dt_second t + dt_micro t)))"
proof -
  have "t mod us_per_day = us_per_hour * dt_hour t + t mod us_per_hour"
    by (simp add: dt_hour_def us_defs mod_split [of 24 t 3600000000, simplified])
  moreover have "t mod us_per_hour = 60000000 * dt_minute t + t mod 60000000"
    by (simp add: dt_minute_def us_defs mod_split [of 60 t 60000000, simplified])
  moreover have "t mod 60000000 = us_per_second * dt_second t + dt_micro t"
    by (simp add: dt_second_def dt_micro_def us_defs mod_split [of 60 t 1000000, simplified])
  moreover have "t = us_per_day * day_of t + t mod us_per_day"
    by (simp add: day_of_def)
  ultimately show ?thesis by simp
qed

lemma div_range:
  fixes x :: int
  assumes "0 < c" "0 \<le> x" "x < k * c"
  shows "0 \<le> x div c" "x div c < k"
proof -
  show "0 \<le> x div c" using assms by (simp add: pos_imp_zdiv_nonneg_iff)
  have "c * (x div c) = x - x mod c" by (simp add: minus_mod_eq_mult_div)
  moreover have "0 \<le> x mod c" using assms(1) by simp
  ultimately have "c * (x div c) \<le> x" by simp
  then have "c * (x div c) < c * k" using assms(3) by (metis le_less_trans mult.commute)
  with assms(1) show "x div c < k" by simp
qed

lemma mod_range: "0 < (b::int) \<Longrightarrow> 0 \<le> a mod b" "0 < (b::int) \<Longrightarrow> a mod b < b"
  by simp_all

lemma instant_ranges:
  "0 \<le> dt_hour t" "dt_hour t \<le> 23" "0 \<le> dt_minute t" "dt_minute t \<le> 59"
  "0 \<le> dt_second t" "dt_second t \<le> 59" "0 \<le> dt_micro t" "dt_micro t \<le> 999999"
proof -
  have "0 \<le> dt_hour t \<and> dt_hour t < 24"
    using div_range [of "us_per_hour" "t mod us_per_day" "24"] by (simp add: dt_hour_def us_defs)
  then show "0 \<le> dt_hour t" "dt_hour t \<le> 23" by simp_all
  have "0 \<le> dt_minute t \<and> dt_minute t < 60"
    using div_range [of "60000000" "t mod us_per_hour" "60"] by (simp add: dt_minute_def us_defs)
  then show "0 \<le> dt_minute t" "dt_minute t \<le> 59" by simp_all
  have "0 \<le> dt_second t \<and> dt_second t < 60"
    using div_range [of "us_per_second" "t mod 60000000" "60"] by (simp add: dt_second_def us_defs)
  then show "0 \<le> dt_second t" "dt_second t \<le> 59" by simp_all
  have "0 \<le> dt_micro t \<and> dt_micro t < 1000000" by (simp add: dt_micro_def us_defs)
  then show "0 \<le> dt_micro t" "dt_micro t \<le> 999999" by simp_all
qed

lemma iso_fraction_inject:
  assumes "(if a = 0 then '''' else ''.'' @ pad6 a) @ ''+00:00'' =
           (if b = 0 then '''' else ''.'' @ pad6 b) @ ''+00:00''"
    and "0 \<le> a" "a \<le> 999999" "0 \<le> b" "b \<le> 999999"
  shows "a = b"
  using assms by (auto split: if_splits dest: pad6_inject)

lemma isoformat_inject:
  assumes eq: "isoformat t = isoformat t'" and "valid_instant t" "valid_instant t'"
  shows "t = t'"
proof -
  obtain y m d y' m' d' where d: "dt_date t = (y, m, d)" "dt_date t' = (y', m', d')"
    by (cases "dt_date t"; cases "dt_date t'") auto
  from eq have parts: "iso_date (dt_date t) = iso_date (dt_date t')"
    "pad2 (dt_hour t) = pad2 (dt_hour t')" "pad2 (dt_minute t) = pad2 (dt_minute t')"
    "pad2 (dt_second t) = pad2 (dt_second t')"
    "(if dt_micro t = 0 then '''' else ''.'' @ pad6 (dt_micro t)) @ ''+00:00'' =
     (if dt_micro t' = 0 then '''' else ''.'' @ pad6 (dt_micro t')) @ ''+00:00''"
    unfolding isoformat_def by (simp_all only: append_eq_append_conv length_iso_date length_pads
        append.append_Cons append.append_Nil list.inject simp_thms)
  have years: "1 \<le> y" "y \<le> 9999" "1 \<le> y'" "y' \<le> 9999"
    using assms(2,3) d by (simp_all add: valid_instant_def dt_year_def)
  have md: "1 \<le> m" "m \<le> 12" "1 \<le> d" "d \<le> 31" "1 \<le> m'" "m' \<le> 12" "1 \<le> d'" "d' \<le> 31"
    using civil_bounds d by (auto simp: dt_date_def)
  have "(y, m, d) = (y', m', d')"
    using parts(1) years md by (intro iso_date_inject) (simp_all add: d)
  then have day: "day_of t = day_of t'"
    using d by (metis civil_of_days_inject dt_date_def)
  have "dt_hour t mod 100 = dt_hour t' mod 100" "dt_minute t mod 100 = dt_minute t' mod 100"
    "dt_second t mod 100 = dt_second t' mod 100"
    using parts by (auto dest: pad2_inject)
  then have hms: "dt_hour t = dt_hour t'" "dt_minute t = dt_minute t'" "dt_second t = dt_second t'"
    using instant_ranges [of t] instant_ranges [of t'] by simp_all
  have "dt_micro t = dt_micro t'"
    by (rule iso_fraction_inject [OF parts(5)]) (rule instant_ranges)+
  with day hms show ?thesis
    using instant_fields [of t] instant_fields [of t'] by simp
qed

end
