(* ===== verification/Cedar_Evaluator.thy ===== *)
theory Cedar_Evaluator
  imports Sentinel_Prelude
begin

text \<open>
  \<open>pep/cedar_evaluator.py\<close>: the resource-level layer. The \<open>cedar\<close> binary, whether it is
  installed, and which policy files exist are parameters: \<open>cli\<close> maps the policy file, the entities
  and the request the evaluator writes to the outcome of the subprocess. The evaluator's own part
  is modelled: which actions it governs, the file it picks, the JSON it builds, and how it turns
  the outcome into a decision.
\<close>

record cedar_principal =
  cp_agent_id :: string
  cp_agent_type :: string
  cp_scopes :: json

record cedar_resource =
  cr_resource_type :: string
  cr_resource_id :: string
  cr_attributes :: "(string \<times> string) list"

record cedar_request =
  cq_principal :: cedar_principal
  cq_action :: string
  cq_resource :: cedar_resource
  cq_context :: pydict

record cedar_decision =
  cd_permitted :: bool
  cd_reason :: string

record cedar_evaluator =
  ce_policy_dir :: string
  ce_cedar_available :: bool

text \<open>What running the subprocess gives: its standard output, a timeout, or another exception.\<close>

datatype cli_outcome = CliOutput string | CliTimeout | CliError string

type_synonym cedar_cli = "string \<Rightarrow> json list \<Rightarrow> json \<Rightarrow> cli_outcome"

definition S3_ACTIONS :: "string list" where
  "S3_ACTIONS =
     [''s3:GetObject'', ''s3:PutObject'', ''s3:ListBuckets'', ''s3:DeleteObject'', ''s3:DeleteBucket'']"

definition IAM_ACTIONS :: "string list" where
  "IAM_ACTIONS =
     [''iam:CreateRole'', ''iam:ListRoles'', ''iam:AttachRolePolicy'',
      ''iam:CreateUser'', ''iam:DeleteRole'', ''iam:DeleteUser'']"

definition cedar_init :: "string option \<Rightarrow> string \<Rightarrow> (string \<Rightarrow> string option) \<Rightarrow> cedar_evaluator" where
  \<comment> \<open>\<open>policy_dir\<close>, the module's default directory, and \<open>shutil.which\<close>\<close>
  "cedar_init policy_dir default_dir which =
     \<lparr>ce_policy_dir = (case policy_dir of Some d \<Rightarrow> d | None \<Rightarrow> default_dir),
      ce_cedar_available = (which ''cedar'' \<noteq> None)\<rparr>"

definition select_policy_file :: "cedar_evaluator \<Rightarrow> (string \<Rightarrow> bool) \<Rightarrow> string \<Rightarrow> string option" where
  "select_policy_file ce exists action =
     (let pick = (\<lambda>name. let p = ce_policy_dir ce @ ''/'' @ name in if exists p then Some p else None)
      in if action \<in> set S3_ACTIONS then pick ''s3_resource_policy.cedar''
         else if action \<in> set IAM_ACTIONS then pick ''iam_resource_policy.cedar''
         else None)"

definition build_entities :: "cedar_request \<Rightarrow> json list" where
  "build_entities q =
     [JObj [(''uid'', JObj [(''type'', JStr ''NHI::Agent''), (''id'', JStr (cp_agent_id (cq_principal q)))]),
            (''attrs'', JObj [(''agent_type'', JStr (cp_agent_type (cq_principal q))),
                              (''scopes'', cp_scopes (cq_principal q))]),
            (''parents'', JList [])],
      JObj [(''uid'', JObj [(''type'',
                JStr (str_replace ''NHI::'' ''NHI::'' (cr_resource_type (cq_resource q)))),
                             (''id'', JStr (cr_resource_id (cq_resource q)))]),
            (''attrs'', JObj (map (\<lambda>(k, v). (k, JStr v)) (cr_attributes (cq_resource q)))),
            (''parents'', JList [])]]"

definition run_cedar :: "cedar_cli \<Rightarrow> string \<Rightarrow> json list \<Rightarrow> json \<Rightarrow> cedar_decision" where
  "run_cedar cli policy_file entities creq =
     (case cli policy_file entities creq of
        CliOutput out \<Rightarrow>
          (let output = str_lower (str_strip out); permitted = str_contains ''allow'' output
           in \<lparr>cd_permitted = permitted,
               cd_reason = (if permitted then ''cedar-allow'' else ''cedar-deny'')\<rparr>)
      | CliTimeout \<Rightarrow> \<lparr>cd_permitted = False, cd_reason = ''cedar-timeout''\<rparr>
      | CliError msg \<Rightarrow> \<lparr>cd_permitted = False, cd_reason = ''cedar-error: '' @ msg\<rparr>)"

definition cedar_request_json :: "cedar_request \<Rightarrow> json" where
  "cedar_request_json q =
     JObj [(''principal'', JStr (''NHI::Agent::'' @ [CHR 0x22] @ cp_agent_id (cq_principal q) @ [CHR 0x22])),
           (''action'', JStr (''NHI::Action::'' @ [CHR 0x22] @ cq_action q @ [CHR 0x22])),
           (''resource'', JStr (cr_resource_type (cq_resource q) @ ''::'' @ [CHR 0x22] @
                                 cr_resource_id (cq_resource q) @ [CHR 0x22])),
           (''context'', JObj (cq_context q))]"

definition cedar_evaluate ::
  "cedar_evaluator \<Rightarrow> (string \<Rightarrow> bool) \<Rightarrow> cedar_cli \<Rightarrow> cedar_request \<Rightarrow> cedar_decision" where
  "cedar_evaluate ce exists cli q =
     (if \<not> ce_cedar_available ce
      then \<lparr>cd_permitted = True, cd_reason = ''cedar-cli-not-installed''\<rparr>
      else if cq_action q \<notin> set S3_ACTIONS \<union> set IAM_ACTIONS
      then \<lparr>cd_permitted = True, cd_reason = ''action-not-cedar-governed''\<rparr>
      else case select_policy_file ce exists (cq_action q) of
             None \<Rightarrow> \<lparr>cd_permitted = True, cd_reason = ''no-cedar-policy-for-action''\<rparr>
           | Some policy_file \<Rightarrow>
               run_cedar cli policy_file (build_entities q) (cedar_request_json q))"

section \<open>When Cedar decides, and what it decides\<close>

definition cedar_governs :: "cedar_evaluator \<Rightarrow> (string \<Rightarrow> bool) \<Rightarrow> string \<Rightarrow> bool" where
  "cedar_governs ce exists action \<longleftrightarrow>
     ce_cedar_available ce \<and> select_policy_file ce exists action \<noteq> None"

lemma select_policy_file_actions:
  "select_policy_file ce exists action = Some p \<Longrightarrow> action \<in> set S3_ACTIONS \<union> set IAM_ACTIONS"
  by (auto simp: select_policy_file_def Let_def split: if_splits)

lemma cedar_evaluate_ungoverned:
  "\<not> cedar_governs ce exists (cq_action q) \<Longrightarrow> cd_permitted (cedar_evaluate ce exists cli q)"
  by (auto simp: cedar_governs_def cedar_evaluate_def)

lemma cedar_evaluate_governed:
  assumes "cedar_governs ce exists (cq_action q)"
  shows "\<exists>p. select_policy_file ce exists (cq_action q) = Some p \<and>
    cedar_evaluate ce exists cli q = run_cedar cli p (build_entities q) (cedar_request_json q)"
  using assms
  by (auto simp: cedar_governs_def cedar_evaluate_def dest: select_policy_file_actions)

lemma run_cedar_permits:
  "cd_permitted (run_cedar cli p es r) \<longleftrightarrow>
     (\<exists>out. cli p es r = CliOutput out \<and> str_contains ''allow'' (str_lower (str_strip out)))"
  by (auto simp: run_cedar_def Let_def split: cli_outcome.splits)

lemma cedar_evaluate_permitted:
  assumes "cd_permitted (cedar_evaluate ce exists cli q)" and "cedar_governs ce exists (cq_action q)"
  shows "\<exists>p out. select_policy_file ce exists (cq_action q) = Some p
    \<and> cli p (build_entities q) (cedar_request_json q) = CliOutput out
    \<and> str_contains ''allow'' (str_lower (str_strip out))"
proof -
  obtain p where p: "select_policy_file ce exists (cq_action q) = Some p"
    "cedar_evaluate ce exists cli q = run_cedar cli p (build_entities q) (cedar_request_json q)"
    using cedar_evaluate_governed [OF assms(2)] by blast
  with assms(1) show ?thesis using run_cedar_permits by metis
qed

end
