(* ===== verification/Interfaces.thy ===== *)
theory Interfaces
  imports Sentinel_Prelude
begin

text \<open>
  The contracts between the components, as locales: the operations a client calls are the
  \<open>fixes\<close>, the laws the provider promises the \<open>assumes\<close>, and what a client may conclude is
  proved once here. Each is interpreted, in the theory of the provider, on the definitions that
  model the code.
\<close>

section \<open>Writing and reading a model\<close>

text \<open>
  pydantic's \<open>model_dump_json\<close> and \<open>model_validate_json\<close>, and \<open>json.dumps\<close> with the reader: what
  the first writes the second reads back.
\<close>

locale codec =
  fixes dump :: "'m \<Rightarrow> string" and parse :: "string \<Rightarrow> 'm option"
  assumes parse_dump: "parse (dump m) = Some m"
    and parse_nil: "parse [] = None"
begin

lemma dump_inject: "dump m = dump n \<longleftrightarrow> m = n"
  by (metis parse_dump option.inject)

lemma dump_nonempty: "dump m \<noteq> []"
  using parse_dump [of m] parse_nil by auto

lemma dump_image: "parse t = None \<Longrightarrow> t \<notin> range dump"
  using parse_dump by auto

end

section \<open>A gate in front of a tool\<close>

text \<open>
  Provider: the PEP's \<open>enforce\<close>. Client: \<open>execute_tool\<close> and the agents. The gate returns only in
  states where the action is allowed; the tool works on a part of the world the gate cannot touch.
\<close>

locale policy_gate =
  fixes gate :: "('w, unit) comp" and allowed :: "'w \<Rightarrow> bool"
  assumes gate_sound: "gate w = (Inr (), w') \<Longrightarrow> allowed w'"
begin

definition guard :: "('c, 'a) comp \<Rightarrow> ('w \<times> 'c, 'a) comp" where
  "guard tool = (\<lambda>(w, c). case gate w of
       (Inl e, w') \<Rightarrow> (Inl e, (w', c))
     | (Inr _, w') \<Rightarrow> (case tool c of (r, c') \<Rightarrow> (r, (w', c'))))"

lemma guard_blocked:
  "gate w = (Inl e, w') \<Longrightarrow> guard tool (w, c) = (Inl e, (w', c))"
  by (simp add: guard_def)

lemma guard_passed:
  "gate w = (Inr (), w') \<Longrightarrow> guard tool (w, c) = (fst (tool c), (w', snd (tool c)))"
  by (simp add: guard_def split: prod.splits)

lemma guard_cases:
  assumes "guard tool (w, c) = (r, (w', c'))"
  obtains (blocked) e where "gate w = (Inl e, w')" "r = Inl e" "c' = c"
  | (passed) "gate w = (Inr (), w')" "allowed w'" "tool c = (r, c')"
  using assms gate_sound by (auto simp: guard_def split: prod.splits sum.splits)

lemma effect_implies_allowed:
  assumes "guard tool (w, c) = (r, (w', c'))" and "c' \<noteq> c \<or> (\<exists>x. r = Inr x)"
  shows "allowed w'"
  using assms(1) by (rule guard_cases) (use assms(2) in auto)

end

section \<open>A log of records chained by their hashes\<close>

text \<open>
  Provider: \<open>audit/schema.py\<close>. Clients: the audit producer and the verification endpoint. The
  digest of a record is the hash \<open>H\<close> of its canonical text, and the text determines the record's
  protected content and its link to the record before it. Nothing is assumed of \<open>H\<close>: where two
  chains that both verify differ in protected content, two different texts with the same hash are
  in the chains.
\<close>

locale hash_chain =
  fixes digest :: "'e \<Rightarrow> string" and canon :: "'e \<Rightarrow> string" and H :: "string \<Rightarrow> string"
    and link :: "'e \<Rightarrow> string" and stored :: "'e \<Rightarrow> string" and content :: "'e \<Rightarrow> 'c"
  assumes digest_canon: "digest e = H (canon e)"
    and canon_inject: "canon e = canon f \<Longrightarrow> content e = content f \<and> link e = link f"
begin

definition chained :: "'e list \<Rightarrow> bool" where
  "chained es \<longleftrightarrow> (\<forall>e\<in>set es. stored e = digest e) \<and>
     (\<forall>i. Suc i < length es \<longrightarrow> link (es ! Suc i) = stored (es ! i))"

definition collide :: "'e list \<Rightarrow> 'e list \<Rightarrow> bool" where
  "collide es fs \<longleftrightarrow> (\<exists>e\<in>set es. \<exists>f\<in>set fs. canon e \<noteq> canon f \<and> H (canon e) = H (canon f))"

lemma chained_Nil [simp]: "chained []"
  by (simp add: chained_def)

lemma chained_snoc:
  "chained (es @ [e]) \<longleftrightarrow> chained es \<and> stored e = digest e \<and> (es \<noteq> [] \<longrightarrow> link e = stored (last es))"
proof -
  have "(\<forall>i. Suc i < length (es @ [e]) \<longrightarrow> link ((es @ [e]) ! Suc i) = stored ((es @ [e]) ! i)) \<longleftrightarrow>
      (\<forall>i. Suc i < length es \<longrightarrow> link (es ! Suc i) = stored (es ! i)) \<and>
      (es \<noteq> [] \<longrightarrow> link e = stored (last es))"
    (is "?l \<longleftrightarrow> ?a \<and> ?b")
  proof
    assume l: ?l
    have ?a using l by (auto simp: nth_append split: if_splits dest!: spec)
    moreover have ?b
    proof
      assume "es \<noteq> []"
      then show "link e = stored (last es)"
        using l [rule_format, of "length es - 1"] by (simp add: nth_append last_conv_nth)
    qed
    ultimately show "?a \<and> ?b" by blast
  next
    assume ab: "?a \<and> ?b"
    show ?l
    proof (intro allI impI)
      fix i assume i: "Suc i < length (es @ [e])"
      show "link ((es @ [e]) ! Suc i) = stored ((es @ [e]) ! i)"
      proof (cases "Suc i < length es")
        case True
        with ab show ?thesis by (simp add: nth_append)
      next
        case False
        with i have len: "Suc i = length es" by simp
        then have "es \<noteq> []" by auto
        moreover have "es ! i = last es"
          using len last_conv_nth [OF \<open>es \<noteq> []\<close>] by (metis diff_Suc_1)
        ultimately show ?thesis using ab len by (simp add: nth_append)
      qed
    qed
  qed
  then show ?thesis by (auto simp: chained_def)
qed

lemma same_head_same_content:
  assumes "chained es" and "chained fs" and "length es \<le> length fs"
    and "es \<noteq> []" and "stored (last es) = stored (last fs)" and "\<not> collide es fs"
  shows "map content es = map content (drop (length fs - length es) fs)"
  using assms
proof (induction es arbitrary: fs rule: rev_induct)
  case Nil
  then show ?case by simp
next
  case (snoc e es)
  obtain fs' f where fs: "fs = fs' @ [f]" using snoc.prems(3) by (cases fs rule: rev_cases) auto
  have e: "chained es" "stored e = digest e" "es \<noteq> [] \<longrightarrow> link e = stored (last es)"
    and f: "chained fs'" "stored f = digest f" "fs' \<noteq> [] \<longrightarrow> link f = stored (last fs')"
    using snoc.prems(1,2) by (auto simp: fs chained_snoc)
  have "H (canon e) = H (canon f)" using snoc.prems(5) e(2) f(2) by (simp add: fs digest_canon)
  then have "canon e = canon f" using snoc.prems(6) by (auto simp: collide_def fs)
  then have ef: "content e = content f" "link e = link f" using canon_inject by blast+
  show ?case
  proof (cases "es = []")
    case True
    with ef show ?thesis by (simp add: fs)
  next
    case False
    with snoc.prems(3) have "fs' \<noteq> []" and len: "length es \<le> length fs'" by (auto simp: fs)
    with False e(3) f(3) ef(2) have "stored (last es) = stored (last fs')" by simp
    moreover have "\<not> collide es fs'" using snoc.prems(6) by (auto simp: collide_def fs)
    ultimately have "map content es = map content (drop (length fs' - length es) fs')"
      using snoc.IH [of fs'] e(1) f(1) len False by blast
    with ef(1) len show ?thesis by (simp add: fs)
  qed
qed

end

section \<open>A topic of a message broker\<close>

text \<open>
  Provider: Kafka. Client: the audit producer. A send that is acknowledged appended the message to
  the topic; one that failed may have appended it all the same.
\<close>

locale topic =
  fixes send :: "string \<Rightarrow> 'k \<Rightarrow> (string + unit) \<times> 'k" and log :: "'k \<Rightarrow> string list"
  assumes send_ok: "send m k = (Inr (), k') \<Longrightarrow> log k' = log k @ [m]"
    and send_fail: "send m k = (Inl e, k') \<Longrightarrow> log k' = log k \<or> log k' = log k @ [m]"
begin

lemma send_cases:
  assumes "send m k = (x, k')"
  obtains (sent) "x = Inr ()" "log k' = log k @ [m]"
  | (lost) e where "x = Inl e" "log k' = log k"
  | (unconfirmed) e where "x = Inl e" "log k' = log k @ [m]"
  using assms send_ok send_fail by (cases x) fastforce+

lemma send_keeps: "send m k = (x, k') \<Longrightarrow> prefix (log k) (log k')"
  by (erule send_cases) simp_all

end

section \<open>A table with a primary key\<close>

text \<open>
  Provider: PostgreSQL's \<open>INSERT ... ON CONFLICT (key) DO NOTHING\<close>. Client: the audit consumer. A
  row whose key is already there is dropped; a failed insert may have been done.
\<close>

locale keyed_table =
  fixes insert_row :: "'row \<Rightarrow> 'd \<Rightarrow> (string + unit) \<times> 'd" and rows :: "'d \<Rightarrow> 'row list"
    and key :: "'row \<Rightarrow> string"
  assumes insert_ok: "insert_row r d = (Inr (), d') \<Longrightarrow>
      rows d' = (if key r \<in> key ` set (rows d) then rows d else rows d @ [r])"
    and insert_fail: "insert_row r d = (Inl e, d') \<Longrightarrow>
      rows d' = rows d \<or> rows d' = (if key r \<in> key ` set (rows d) then rows d else rows d @ [r])"
begin

lemma insert_any:
  "insert_row r d = (x, d') \<Longrightarrow>
     rows d' = rows d \<or> rows d' = (if key r \<in> key ` set (rows d) then rows d else rows d @ [r])"
proof (cases x)
  case (Inl e)
  then show "insert_row r d = (x, d') \<Longrightarrow> ?thesis" using insert_fail by blast
next
  case (Inr u)
  then show "insert_row r d = (x, d') \<Longrightarrow> ?thesis" using insert_ok [of r d d'] by simp
qed

lemma insert_keeps: "insert_row r d = (x, d') \<Longrightarrow> prefix (rows d) (rows d')"
  by (drule insert_any) (auto split: if_splits)

lemma insert_distinct:
  "insert_row r d = (x, d') \<Longrightarrow> distinct (map key (rows d)) \<Longrightarrow> distinct (map key (rows d'))"
  by (drule insert_any) (auto split: if_splits)

lemma insert_known:
  "insert_row r d = (x, d') \<Longrightarrow> key r \<in> key ` set (rows d) \<Longrightarrow> rows d' = rows d"
  by (drule insert_any) auto

end

section \<open>A registry of suspended identities\<close>

text \<open>
  Provider: the identity API. Clients: the anomaly service, which suspends, and the PEP, which asks.
  Both operations may fail with or without having had their effect on the set.
\<close>

locale suspension_registry =
  fixes suspend :: "string \<Rightarrow> 's \<Rightarrow> bool \<times> 's" and unsuspend :: "string \<Rightarrow> 's \<Rightarrow> bool \<times> 's"
    and suspended :: "'s \<Rightarrow> string set"
  assumes suspend_done: "suspend a s = (True, s') \<Longrightarrow> suspended s' = insert a (suspended s)"
    and suspend_failed: "suspend a s = (False, s') \<Longrightarrow>
      suspended s' = suspended s \<or> suspended s' = insert a (suspended s)"
    and unsuspend_done: "unsuspend a s = (True, s') \<Longrightarrow> suspended s' = suspended s - {a}"
    and unsuspend_failed: "unsuspend a s = (False, s') \<Longrightarrow>
      suspended s' = suspended s \<or> suspended s' = suspended s - {a}"
begin

lemma suspend_any:
  "suspend a s = (b, s') \<Longrightarrow> suspended s' = suspended s \<or> suspended s' = insert a (suspended s)"
  using suspend_done [of a s s'] suspend_failed [of a s s'] by (cases b) simp_all

lemma unsuspend_any:
  "unsuspend a s = (b, s') \<Longrightarrow> suspended s' = suspended s \<or> suspended s' = suspended s - {a}"
  using unsuspend_done [of a s s'] unsuspend_failed [of a s s'] by (cases b) simp_all

lemma suspend_keeps: "suspend a s = (b, s') \<Longrightarrow> suspended s \<subseteq> suspended s'"
  by (drule suspend_any) blast

lemma suspend_others: "suspend a s = (b, s') \<Longrightarrow> c \<noteq> a \<Longrightarrow> c \<in> suspended s' \<longleftrightarrow> c \<in> suspended s"
  by (drule suspend_any) blast

lemma unsuspend_others: "unsuspend a s = (b, s') \<Longrightarrow> c \<noteq> a \<Longrightarrow> c \<in> suspended s' \<longleftrightarrow> c \<in> suspended s"
  by (drule unsuspend_any) blast

lemma suspend_unsuspend:
  "suspend a s = (True, s1) \<Longrightarrow> unsuspend a s1 = (True, s2) \<Longrightarrow> suspended s2 = suspended s - {a}"
  using suspend_done unsuspend_done by blast

text \<open>A suspended identity stays suspended while only suspensions happen.\<close>

inductive suspensions :: "'s \<Rightarrow> 's \<Rightarrow> bool" where
  none: "suspensions s s"
| one: "suspensions s s1 \<Longrightarrow> suspend a s1 = (b, s2) \<Longrightarrow> suspensions s s2"

lemma suspensions_keep: "suspensions s s' \<Longrightarrow> suspended s \<subseteq> suspended s'"
  by (induction rule: suspensions.induct) (use suspend_keeps in blast)+

end

end
