(* ===== verification/Pep.thy ===== *)
theory Pep
  imports Redis_Client Py_Datetime Cedar_Evaluator Interfaces
begin

text \<open>
  \<open>pep/models.py\<close>, \<open>pep/exceptions.py\<close> and \<open>pep/client.py\<close>: the Policy Enforcement Point.
  \<open>enforce\<close> is the code's method: IP binding, suspension, rate counter, OPA, then Cedar or the
  approval queue. The collaborators (Redis, the OPA server, the Cedar binary, pydantic's reading of
  a scalar field, the clock, \<open>uuid4\<close>, the environment) are the fields of \<open>'r pep\<close>; what a call
  can change is the \<open>'r pep_world\<close>: whether the object holds a Redis client, the Redis server, and
  the request, whose \<open>context\<close> the rate counter writes into in place.
\<close>

section \<open>Data (models.py)\<close>

datatype decision = ALLOW | DENY | REQUIRE_APPROVAL

record action_request =
  agent_id :: string
  agent_type :: string
  token_claims :: pydict
  action :: string
  resource_arn :: string
  task_id :: string
  environment :: string
  source_ip :: string
  resource_tags :: "(string \<times> string) list"
  req_context :: pydict

record condition_result =
  cn_name :: string
  cn_result :: bool
  cn_detail :: "string option"

record policy_decision =
  pd_effect :: decision
  pd_reason :: string
  pd_policy_ref :: string
  pd_policy_version :: string
  pd_evaluated_at :: string
  pd_conditions :: "condition_result list"

text \<open>What posting the request to OPA and \<open>raise_for_status\<close> give; the body may not be JSON.\<close>

datatype opa_reply = OpaRequestError string | OpaStatusError int | OpaBody "json option"

record 'r pep =
  pp_redis :: "'r redis"
  pp_opa :: "action_request \<Rightarrow> opa_reply"
  pp_cedar :: cedar_evaluator
  pp_exists :: "string \<Rightarrow> bool"
  pp_cli :: cedar_cli
  pp_as_str :: "json \<Rightarrow> string option"     \<comment> \<open>pydantic's reading of a \<open>str\<close> field\<close>
  pp_as_bool :: "json \<Rightarrow> bool option"      \<comment> \<open>and of a \<open>bool\<close> field\<close>
  pp_now_bucket :: instant                  \<comment> \<open>the three readings of the clock\<close>
  pp_now_decision :: instant
  pp_now_queue :: instant
  pp_uuid :: string
  pp_ttl :: int                             \<comment> \<open>\<open>APPROVAL_TTL_SECONDS\<close>, 14400 by default\<close>

record 'r pep_world =
  pw_connected :: bool
  pw_server :: 'r
  pw_request :: action_request

definition with_request :: "(action_request \<Rightarrow> ('r pep_world, 'a) comp) \<Rightarrow> ('r pep_world, 'a) comp" where
  "with_request f = (\<lambda>w. f (pw_request w) w)"

definition on_server :: "('r, 'a) rcall \<Rightarrow> ('r pep_world, 'a) comp" where
  "on_server m = (\<lambda>w. case redis_call m (pw_server w) of (x, s) \<Rightarrow> (x, w\<lparr>pw_server := s\<rparr>))"

section \<open>Reading the decision (PolicyDecision.model\_validate)\<close>

definition parse_effect :: "json \<Rightarrow> decision option" where
  "parse_effect v =
     (if v = JStr ''ALLOW'' then Some ALLOW
      else if v = JStr ''DENY'' then Some DENY
      else if v = JStr ''REQUIRE_APPROVAL'' then Some REQUIRE_APPROVAL
      else None)"

definition validate_condition :: "'r pep \<Rightarrow> json \<Rightarrow> condition_result option" where
  "validate_condition P v = (case v of
       JObj d \<Rightarrow>
         (case (Option.bind (dict_get d ''name'') (pp_as_str P),
                Option.bind (dict_get d ''result'') (pp_as_bool P),
                (case dict_get d ''detail'' of
                   None \<Rightarrow> Some None
                 | Some JNull \<Rightarrow> Some None
                 | Some x \<Rightarrow> map_option Some (pp_as_str P x))) of
            (Some n, Some r, Some dt) \<Rightarrow> Some \<lparr>cn_name = n, cn_result = r, cn_detail = dt\<rparr>
          | _ \<Rightarrow> None)
     | _ \<Rightarrow> None)"

definition validate_conditions :: "'r pep \<Rightarrow> json option \<Rightarrow> condition_result list option" where
  "validate_conditions P v = (case v of
       None \<Rightarrow> Some []
     | Some (JList xs) \<Rightarrow> those (map (validate_condition P) xs)
     | Some _ \<Rightarrow> None)"

definition validate_decision :: "'r pep \<Rightarrow> json \<Rightarrow> policy_decision option" where
  "validate_decision P v = (case v of
       JObj d \<Rightarrow>
         (case (Option.bind (dict_get d ''effect'') parse_effect,
                Option.bind (dict_get d ''reason'') (pp_as_str P),
                Option.bind (dict_get d ''policy_ref'') (pp_as_str P),
                Option.bind (dict_get d ''policy_version'') (pp_as_str P),
                Option.bind (dict_get d ''evaluated_at'') (pp_as_str P),
                validate_conditions P (dict_get d ''conditions_evaluated'')) of
            (Some e, Some r, Some pr, Some pv, Some ea, Some cs) \<Rightarrow>
              Some \<lparr>pd_effect = e, pd_reason = r, pd_policy_ref = pr, pd_policy_version = pv,
                    pd_evaluated_at = ea, pd_conditions = cs\<rparr>
          | _ \<Rightarrow> None)
     | _ \<Rightarrow> None)"

section \<open>Layer 0: IP binding\<close>

text \<open>Python's \<open>d.get(k)\<close> with \<open>None\<close> as \<^const>\<open>JNull\<close>.\<close>

definition get_or_none :: "pydict \<Rightarrow> string \<Rightarrow> json" where
  "get_or_none d k = (case dict_get d k of Some v \<Rightarrow> v | None \<Rightarrow> JNull)"

fun type_name :: "json \<Rightarrow> string" where
  "type_name JNull = ''NoneType''"
| "type_name (JBool _) = ''bool''"
| "type_name (JInt _) = ''int''"
| "type_name (JStr _) = ''str''"
| "type_name (JList _) = ''list''"
| "type_name (JObj _) = ''dict''"

definition nested_ip :: "action_request \<Rightarrow> exn + json" where
  "nested_ip q =
     (let v = get_or_none (token_claims q) ''agent_context'' in
      if \<not> truthy v then Inr JNull
      else case v of
             JObj d \<Rightarrow> Inr (get_or_none d ''source_ip'')
           | _ \<Rightarrow> Inl (AttributeError (repr_str (type_name v) @ '' object has no attribute '' @ repr_str ''get'')))"

definition token_ip :: "action_request \<Rightarrow> exn + json" where
  "token_ip q =
     (let v = get_or_none (token_claims q) ''source_ip''
      in if truthy v then Inr v else nested_ip q)"

definition check_ip_binding :: "('r pep_world, unit) comp" where
  "check_ip_binding = with_request (\<lambda>q.
     case token_ip q of
       Inl e \<Rightarrow> throw e
     | Inr ip \<Rightarrow>
         (if truthy ip \<and> ip \<noteq> JStr (source_ip q)
          then throw (PolicyDenialError (action q)
                 (''Token IP binding violation: token bound to '' @ py_str ip @
                  '', request from '' @ source_ip q)
                 ''pep.ip_binding'')
          else ret ()))"

section \<open>Layer 0b: suspension, layer 0c: rate counter\<close>

definition get_redis :: "'r pep \<Rightarrow> ('r pep_world, bool) comp" where
  "get_redis P = (\<lambda>w.
     if pw_connected w then (Inr True, w)
     else case redis_call (r_ping (pp_redis P)) (pw_server w) of
            (Inr _, s) \<Rightarrow> (Inr True, w\<lparr>pw_connected := True, pw_server := s\<rparr>)
          | (Inl _, s) \<Rightarrow> (Inr False, w\<lparr>pw_connected := False, pw_server := s\<rparr>))"

definition SUSPENDED_KEY :: string where
  "SUSPENDED_KEY = ''identities:suspended''"

definition check_suspension :: "'r pep \<Rightarrow> ('r pep_world, unit) comp" where
  "check_suspension P = with_request (\<lambda>q. seq (get_redis P) (\<lambda>r.
     if \<not> r then ret ()
     else try_except
            (seq (on_server (r_sismember (pp_redis P) SUSPENDED_KEY (agent_id q))) (\<lambda>suspended.
               if suspended
               then throw (PolicyDenialError (action q)
                      (''Identity '' @ agent_id q @ '' is suspended'') ''pep.identity_suspended'')
               else ret ()))
            (\<lambda>e. case e of PolicyDenialError _ _ _ \<Rightarrow> throw e | _ \<Rightarrow> ret ())))"

definition minute_bucket :: "instant \<Rightarrow> int" where
  "minute_bucket t = t div (60 * us_per_second)"

definition rate_key :: "string \<Rightarrow> instant \<Rightarrow> string" where
  "rate_key agent now = ''rate:'' @ agent @ '':'' @ str_int (minute_bucket now)"

definition set_context :: "string \<Rightarrow> json \<Rightarrow> ('r pep_world, unit) comp" where
  "set_context k v = (\<lambda>w. (Inr (),
     w\<lparr>pw_request := (pw_request w)\<lparr>req_context := dict_set (req_context (pw_request w)) k v\<rparr>\<rparr>))"

definition inject_rate_limit_count :: "'r pep \<Rightarrow> ('r pep_world, unit) comp" where
  "inject_rate_limit_count P = with_request (\<lambda>q. seq (get_redis P) (\<lambda>r.
     if \<not> r then ret ()
     else let key = rate_key (agent_id q) (pp_now_bucket P) in
          try_except
            (seq (on_server (r_incr (pp_redis P) key)) (\<lambda>count.
             seq (if count = 1 then on_server (r_expire (pp_redis P) key 120) else ret ()) (\<lambda>_.
             set_context ''current_action_count_per_minute'' (JInt count))))
            (\<lambda>_. ret ())))"

section \<open>Layer 1: OPA\<close>

text \<open>\<open>resp.json()["result"]\<close>.\<close>

definition result_of_body :: "json option \<Rightarrow> exn + json" where
  "result_of_body body = (case body of
       None \<Rightarrow> Inl (OtherError ''JSONDecodeError'' ''Expecting value'')
     | Some (JObj d) \<Rightarrow> (case dict_get d ''result'' of
           Some v \<Rightarrow> Inr v
         | None \<Rightarrow> Inl (KeyError ''result''))
     | Some (JList _) \<Rightarrow> Inl (TypeError ''list indices must be integers or slices, not str'')
     | Some (JStr _) \<Rightarrow> Inl (TypeError (''string indices must be integers, not '' @ repr_str ''str''))
     | Some v \<Rightarrow> Inl (TypeError (repr_str (type_name v) @ '' object is not subscriptable'')))"

definition fail_closed_decision :: "'r pep \<Rightarrow> string \<Rightarrow> policy_decision" where
  "fail_closed_decision P reason =
     \<lparr>pd_effect = DENY, pd_reason = reason, pd_policy_ref = ''pep.fail_closed'',
      pd_policy_version = ''n/a'', pd_evaluated_at = isoformat (pp_now_decision P),
      pd_conditions = []\<rparr>"

definition evaluate :: "'r pep \<Rightarrow> action_request \<Rightarrow> exn + policy_decision" where
  "evaluate P q = (case pp_opa P q of
       OpaRequestError _ \<Rightarrow>
         Inr (fail_closed_decision P (''Policy engine unreachable '' @ em_dash @ '' fail-closed default''))
     | OpaStatusError status \<Rightarrow>
         Inr (fail_closed_decision P (''Policy engine returned HTTP '' @ str_int status))
     | OpaBody body \<Rightarrow> (case result_of_body body of
           Inl e \<Rightarrow> Inl e
         | Inr v \<Rightarrow> (case validate_decision P v of
               None \<Rightarrow> Inl (ValidationError ''PolicyDecision'')
             | Some d \<Rightarrow> Inr d)))"

section \<open>Layer 2: Cedar\<close>

definition infer_cedar_resource_type :: "string \<Rightarrow> string option" where
  "infer_cedar_resource_type a =
     (if starts_with a ''s3:'' then Some ''NHI::S3Bucket''
      else if starts_with a ''iam:'' then Some ''NHI::IAMRole''
      else None)"

definition cedar_request_of :: "action_request \<Rightarrow> string \<Rightarrow> cedar_request" where
  "cedar_request_of q resource_type =
     \<lparr>cq_principal = \<lparr>cp_agent_id = agent_id q, cp_agent_type = agent_type q,
        cp_scopes = (case dict_get (token_claims q) ''scopes'' of Some v \<Rightarrow> v | None \<Rightarrow> JList [])\<rparr>,
      cq_action = action q,
      cq_resource = \<lparr>cr_resource_type = resource_type, cr_resource_id = resource_arn q,
        cr_attributes = resource_tags q\<rparr>,
      cq_context = req_context q\<rparr>"

definition evaluate_cedar :: "'r pep \<Rightarrow> action_request \<Rightarrow> cedar_decision" where
  "evaluate_cedar P q = (case infer_cedar_resource_type (action q) of
       None \<Rightarrow> \<lparr>cd_permitted = True, cd_reason = ''not-cedar-governed''\<rparr>
     | Some rt \<Rightarrow> cedar_evaluate (pp_cedar P) (pp_exists P) (pp_cli P) (cedar_request_of q rt))"

section \<open>The approval entry\<close>

definition approval_data :: "'r pep \<Rightarrow> action_request \<Rightarrow> policy_decision \<Rightarrow> json" where
  "approval_data P q d = JObj
     [(''request_id'', JStr (pp_uuid P)), (''agent_id'', JStr (agent_id q)),
      (''action'', JStr (action q)), (''resource_arn'', JStr (resource_arn q)),
      (''task_id'', JStr (task_id q)), (''policy_ref'', JStr (pd_policy_ref d)),
      (''status'', JStr ''PENDING''), (''requested_at'', JStr (isoformat (pp_now_queue P)))]"

text \<open>
  \<open>_queue_approval\<close> opens a client of its own at \<open>REDIS_URL\<close>; the model takes it to be a client of the same server as
  \<open>pp_redis\<close>, which holds unless another client was injected into the PEP.
\<close>

definition queue_approval :: "'r pep \<Rightarrow> action_request \<Rightarrow> policy_decision \<Rightarrow> ('r pep_world, string) comp" where
  "queue_approval P q d =
     seq (on_server (r_setex (pp_redis P) (''approval:'' @ pp_uuid P) (pp_ttl P)
            (py_str (approval_data P q d))))
       (\<lambda>_. ret (pp_uuid P))"

section \<open>enforce and execute\_tool\<close>

definition act_on_decision :: "'r pep \<Rightarrow> action_request \<Rightarrow> policy_decision \<Rightarrow> ('r pep_world, unit) comp" where
  "act_on_decision P q d = (case pd_effect d of
       ALLOW \<Rightarrow>
         (let cedar = evaluate_cedar P q in
          if \<not> cd_permitted cedar
          then throw (PolicyDenialError (action q)
                 (''Cedar resource policy denied: '' @ cd_reason cedar) ''nhi.cedar.resource_policy'')
          else ret ())
     | REQUIRE_APPROVAL \<Rightarrow>
         seq (queue_approval P q d) (\<lambda>request_id.
           throw (ApprovalRequiredError (action q) (resource_arn q) request_id))
     | DENY \<Rightarrow> throw (PolicyDenialError (action q) (pd_reason d) (pd_policy_ref d)))"

definition enforce :: "'r pep \<Rightarrow> ('r pep_world, unit) comp" where
  "enforce P =
     seq check_ip_binding (\<lambda>_.
     seq (check_suspension P) (\<lambda>_.
     seq (inject_rate_limit_count P) (\<lambda>_.
     with_request (\<lambda>q. case evaluate P q of
         Inl e \<Rightarrow> throw e
       | Inr d \<Rightarrow> act_on_decision P q d))))"

text \<open>\<open>tool_fn\<close> is any computation on the rest of the world (the cloud).\<close>

definition execute_tool :: "'r pep \<Rightarrow> ('c, 'a) comp \<Rightarrow> ('r pep_world \<times> 'c, 'a) comp" where
  "execute_tool P tool_fn = (\<lambda>(w, c). case enforce P w of
       (Inl e, w') \<Rightarrow> (Inl e, (w', c))
     | (Inr _, w') \<Rightarrow> (case tool_fn c of (r, c') \<Rightarrow> (r, (w', c'))))"

section \<open>What each layer does\<close>

named_theorems pep_simps \<open>unfolding the layers of enforce\<close>

lemma with_request_apply [simp, pep_simps]: "with_request f w = f (pw_request w) w"
  by (simp add: with_request_def)

lemma on_server_apply [pep_simps]:
  "on_server m w = (case redis_call m (pw_server w) of (x, s) \<Rightarrow> (x, w\<lparr>pw_server := s\<rparr>))"
  by (simp add: on_server_def)

lemma on_server_request [simp]:
  "on_server m w = (x, w') \<Longrightarrow> pw_request w' = pw_request w"
  by (auto simp: on_server_def split: prod.splits)

definition ip_bound :: "action_request \<Rightarrow> bool" where
  "ip_bound q = (case token_ip q of Inl _ \<Rightarrow> False | Inr ip \<Rightarrow> truthy ip \<longrightarrow> ip = JStr (source_ip q))"

lemma check_ip_binding_world [simp]: "snd (check_ip_binding w) = w"
  by (simp add: check_ip_binding_def split: sum.splits)

lemma check_ip_binding_returns:
  "check_ip_binding w = (Inr (), w') \<longleftrightarrow> w' = w \<and> ip_bound (pw_request w)"
  by (auto simp: check_ip_binding_def ip_bound_def split: sum.splits)

lemma ip_bound_context [simp]: "ip_bound (q\<lparr>req_context := c\<rparr>) = ip_bound q"
  by (simp add: ip_bound_def token_ip_def nested_ip_def Let_def split: json.splits)

lemma get_redis_returns: "\<exists>b w'. get_redis P w = (Inr b, w') \<and> pw_request w' = pw_request w"
  by (auto simp: get_redis_def split: prod.splits sum.splits)

lemma get_redis_request [simp]: "get_redis P w = (x, w') \<Longrightarrow> pw_request w' = pw_request w"
  using get_redis_returns [of P w] by auto

lemma check_suspension_request [simp]:
  assumes "check_suspension P w = (x, w')" shows "pw_request w' = pw_request w"
  using assms
  by (auto simp: check_suspension_def seq_def try_except_def
      split: prod.splits sum.splits if_splits exn.splits dest!: get_redis_request on_server_request)

lemma inject_returns:
  assumes "inject_rate_limit_count P w = (x, w')"
  shows "x = Inr ()" and "\<exists>c. pw_request w' = (pw_request w)\<lparr>req_context := c\<rparr>"
proof -
  note unf = inject_rate_limit_count_def seq_def try_except_def set_context_def Let_def
  obtain b w1 where r: "get_redis P w = (Inr b, w1)" "pw_request w1 = pw_request w"
    using get_redis_returns [of P w] by blast
  show "x = Inr ()"
    using assms r by (auto simp: unf split: prod.splits sum.splits if_splits)
  show "\<exists>c. pw_request w' = (pw_request w)\<lparr>req_context := c\<rparr>"
    using assms r
    by (auto simp: unf split: prod.splits sum.splits if_splits dest!: on_server_request
        intro: exI [of _ "req_context (pw_request w)"])
qed

lemma act_on_decision_returns:
  "act_on_decision P q d w = (Inr (), w') \<longleftrightarrow>
     pd_effect d = ALLOW \<and> cd_permitted (evaluate_cedar P q) \<and> w' = w"
  by (auto simp: act_on_decision_def Let_def seq_def split: decision.splits prod.splits sum.splits)

section \<open>enforce is sound\<close>

definition opa_allows :: "'r pep \<Rightarrow> action_request \<Rightarrow> bool" where
  "opa_allows P q \<longleftrightarrow> (\<exists>b d. pp_opa P q = OpaBody (Some (JObj b))
     \<and> dict_get b ''result'' = Some (JObj d) \<and> dict_get d ''effect'' = Some (JStr ''ALLOW''))"

definition pep_allows :: "'r pep \<Rightarrow> 'r pep_world \<Rightarrow> bool" where
  "pep_allows P w \<longleftrightarrow> ip_bound (pw_request w) \<and> opa_allows P (pw_request w)
     \<and> cd_permitted (evaluate_cedar P (pw_request w))"

lemma parse_effect_Some:
  "parse_effect v = Some e \<longleftrightarrow>
     v = JStr (case e of ALLOW \<Rightarrow> ''ALLOW'' | DENY \<Rightarrow> ''DENY'' | REQUIRE_APPROVAL \<Rightarrow> ''REQUIRE_APPROVAL'')"
  by (auto simp: parse_effect_def split: decision.splits)

lemma validate_decision_effect:
  assumes "validate_decision P v = Some d"
  shows "\<exists>m x. v = JObj m \<and> dict_get m ''effect'' = Some x \<and> parse_effect x = Some (pd_effect d)"
  using assms
  by (auto simp: validate_decision_def Option.bind_eq_Some_conv split: json.splits option.splits)

lemma evaluate_allow:
  assumes "evaluate P q = Inr d" and "pd_effect d = ALLOW"
  shows "opa_allows P q"
proof -
  have fc: "pd_effect (fail_closed_decision P r) \<noteq> ALLOW" for r
    by (simp add: fail_closed_decision_def)
  obtain body v where "pp_opa P q = OpaBody body" "result_of_body body = Inr v"
    "validate_decision P v = Some d"
    using assms fc by (auto simp: evaluate_def split: opa_reply.splits sum.splits option.splits)
  moreover from this(2) obtain b where "body = Some (JObj b)" "dict_get b ''result'' = Some v"
    by (auto simp: result_of_body_def split: option.splits json.splits)
  ultimately show ?thesis
    using validate_decision_effect assms(2) by (fastforce simp: opa_allows_def parse_effect_Some)
qed

lemma enforce_cases:
  assumes "enforce P w = (r, w')"
  obtains (ip) e where "check_ip_binding w = (Inl e, w)" "r = Inl e" "w' = w"
  | (suspended) e where "ip_bound (pw_request w)" "check_suspension P w = (Inl e, w')" "r = Inl e"
  | (decided) w1 w2 where "ip_bound (pw_request w)" "check_suspension P w = (Inr (), w1)"
      "inject_rate_limit_count P w1 = (Inr (), w2)"
      "(case evaluate P (pw_request w2) of
          Inl e \<Rightarrow> throw e
        | Inr d \<Rightarrow> act_on_decision P (pw_request w2) d) w2 = (r, w')"
proof -
  obtain x0 where ip: "check_ip_binding w = (x0, w)"
    by (metis check_ip_binding_world prod.collapse)
  obtain x1 w1 where susp: "check_suspension P w = (x1, w1)" by fastforce
  obtain w2 where inj: "inject_rate_limit_count P w1 = (Inr (), w2)"
    using inject_returns(1) by (metis surj_pair)
  show thesis
  proof (cases x0)
    case (Inl e)
    with ip assms have "r = Inl e" "w' = w" by (simp_all add: enforce_def seq_def)
    with ip Inl show thesis by (auto intro: that(1))
  next
    case (Inr u)
    with ip have b: "ip_bound (pw_request w)" by (simp add: check_ip_binding_returns)
    show thesis
    proof (cases x1)
      case (Inl e)
      with ip Inr susp assms have "r = Inl e" "w' = w1" by (simp_all add: enforce_def seq_def)
      with b susp Inl show thesis by (auto intro: that(2))
    next
      case 2: (Inr u')
      with ip Inr susp inj assms
      have "(case evaluate P (pw_request w2) of Inl e \<Rightarrow> throw e
               | Inr d \<Rightarrow> act_on_decision P (pw_request w2) d) w2 = (r, w')"
        by (simp add: enforce_def seq_def)
      with b susp inj 2 show thesis by (auto intro: that(3))
    qed
  qed
qed

lemma enforce_sound:
  assumes "enforce P w = (Inr (), w')" shows "pep_allows P w'"
  using assms
proof (cases rule: enforce_cases)
  case (decided w1 w2)
  then obtain d where d: "evaluate P (pw_request w2) = Inr d"
    and act: "act_on_decision P (pw_request w2) d w2 = (Inr (), w')"
    by (auto split: sum.splits)
  obtain c where "pw_request w2 = (pw_request w1)\<lparr>req_context := c\<rparr>"
    using inject_returns(2) [OF decided(3)] by blast
  with decided(1,2) have "ip_bound (pw_request w2)" by simp
  with act d show ?thesis
    by (auto simp: pep_allows_def act_on_decision_returns evaluate_allow)
qed simp_all

interpretation pep: policy_gate "enforce P" "pep_allows P" for P
  by unfold_locales (rule enforce_sound)

lemma execute_tool_guard: "execute_tool P tool = pep.guard P tool"
  by (rule ext) (simp add: execute_tool_def pep.guard_def split_beta)

section \<open>The Redis layers on a server that answers\<close>

lemma set_at_no_str: "m \<in> set_at V k \<Longrightarrow> no_str V k"
  by (auto simp: set_at_def no_str_def str_at_def split: option.splits rvalue.splits)

lemma get_redis_reliable:
  assumes "redis_service (pp_redis P) view el" and "redis_reliable (pp_redis P) view"
  obtains w' where "get_redis P w = (Inr True, w')"
    "view (pw_server w') = view (pw_server w)" "pw_request w' = pw_request w"
proof (cases "pw_connected w")
  case True
  then have "get_redis P w = (Inr True, w)" by (simp add: get_redis_def)
  then show thesis using that by blast
next
  case False
  obtain s where p: "r_ping (pp_redis P) (pw_server w) = (Inr (), s)"
    using reliable_calls(1) [OF assms(2)] by blast
  with False have "get_redis P w = (Inr True, w\<lparr>pw_connected := True, pw_server := s\<rparr>)"
    by (simp add: get_redis_def redis_call_def)
  moreover have "view s = view (pw_server w)"
    by (rule redis_service.view_ping [OF assms(1) p])
  ultimately show thesis using that by simp
qed

lemma check_suspension_reliable:
  assumes svc: "redis_service (pp_redis P) view el" and rel: "redis_reliable (pp_redis P) view"
    and key: "no_str (view (pw_server w)) SUSPENDED_KEY"
  obtains w' where "check_suspension P w =
      (if agent_id (pw_request w) \<in> set_at (view (pw_server w)) SUSPENDED_KEY
       then Inl (PolicyDenialError (action (pw_request w))
              (''Identity '' @ agent_id (pw_request w) @ '' is suspended'') ''pep.identity_suspended'')
       else Inr (), w')"
    "view (pw_server w') = view (pw_server w)" "pw_request w' = pw_request w"
proof -
  obtain w1 where g: "get_redis P w = (Inr True, w1)" and v1: "view (pw_server w1) = view (pw_server w)"
    and q1: "pw_request w1 = pw_request w"
    using get_redis_reliable [OF svc rel] by blast
  obtain b s where m: "r_sismember (pp_redis P) SUSPENDED_KEY (agent_id (pw_request w)) (pw_server w1)
      = (Inr b, s)"
    using reliable_calls(8) [OF rel] key v1 by metis
  have b: "b \<longleftrightarrow> agent_id (pw_request w) \<in> set_at (view (pw_server w)) SUSPENDED_KEY"
    using redis_service.sismember_val [OF svc m] v1 by simp
  have "view s = view (pw_server w)" using redis_service.view_sismember [OF svc m] v1 by simp
  moreover have "check_suspension P w =
      (if b then Inl (PolicyDenialError (action (pw_request w))
              (''Identity '' @ agent_id (pw_request w) @ '' is suspended'') ''pep.identity_suspended'')
       else Inr (), w1\<lparr>pw_server := s\<rparr>)"
    using g m q1 by (simp add: check_suspension_def seq_def try_except_def on_server_def redis_call_def)
  ultimately show thesis using that b q1 by simp
qed

lemma inject_reliable:
  assumes svc: "redis_service (pp_redis P) view el" and rel: "redis_reliable (pp_redis P) view"
    and num: "num_at (view (pw_server w)) (rate_key (agent_id (pw_request w)) (pp_now_bucket P)) i"
  obtains w' where "inject_rate_limit_count P w = (Inr (), w')"
    "pw_request w' = (pw_request w)\<lparr>req_context :=
        dict_set (req_context (pw_request w)) ''current_action_count_per_minute'' (JInt (i + 1))\<rparr>"
    "let key = rate_key (agent_id (pw_request w)) (pp_now_bucket P);
         V = view (pw_server w)
     in view (pw_server w') =
          (if i = 0 then put_ttl key 120 (put_str key (str_int 1) (ttl_at V key) V)
           else put_str key (str_int (i + 1)) (ttl_at V key) V)"
proof -
  define key where "key = rate_key (agent_id (pw_request w)) (pp_now_bucket P)"
  obtain w1 where g: "get_redis P w = (Inr True, w1)" and v1: "view (pw_server w1) = view (pw_server w)"
    and q1: "pw_request w1 = pw_request w"
    using get_redis_reliable [OF svc rel] by blast
  have num1: "num_at (view (pw_server w1)) key i" using num v1 by (simp add: key_def)
  obtain n s where inc: "r_incr (pp_redis P) key (pw_server w1) = (Inr n, s)"
    using reliable_calls(11) [OF rel num1] by blast
  note law = redis_service.incr_ok [OF svc inc]
  have n: "n = i + 1" using law num1 num_at_unique by fastforce
  have vs: "view s = put_str key (str_int n) (ttl_at (view (pw_server w)) key) (view (pw_server w))"
    using law v1 by simp
  obtain s2 where ex: "r_expire (pp_redis P) key 120 s = (Inr (), s2)"
    using reliable_calls(12) [OF rel] by blast
  have vs2: "view s2 = put_ttl key 120 (view s)" by (rule redis_service.expire_ok [OF svc ex])
  define w' where "w' = w1\<lparr>pw_server := (if n = 1 then s2 else s),
     pw_request := (pw_request w)\<lparr>req_context :=
        dict_set (req_context (pw_request w)) ''current_action_count_per_minute'' (JInt n)\<rparr>\<rparr>"
  have "inject_rate_limit_count P w = (Inr (), w')"
    using g inc ex q1 unfolding inject_rate_limit_count_def key_def [symmetric] w'_def
    by (simp add: seq_def try_except_def on_server_def redis_call_def set_context_def key_def Let_def)
  then show thesis using that n vs vs2 by (simp add: w'_def key_def Let_def)
qed

end
