(* ===== verification/Py_Json.thy ===== *)
theory Py_Json
  imports Interfaces
begin

text \<open>
  \<open>json.dumps\<close> of the standard library on the values of \<^typ>\<open>json\<close> (\<open>ensure_ascii\<close>, no indent, the
  separators as an argument, members in the order given: for \<open>sort_keys\<close> the caller sorts), and a
  reader of JSON text. The reader takes back everything that \<open>dumps\<close> writes, so \<open>dumps\<close> is
  injective: two different payloads never have the same canonical text. The reader recurses on
  fuel; the length of the text is always enough.
\<close>

section \<open>Writing\<close>

definition hex4 :: "nat \<Rightarrow> string" where
  "hex4 n = hex2 (n div 256) @ hex2 (n mod 256)"

definition dump_char :: "char \<Rightarrow> string" where
  "dump_char c =
     (let n = of_char c :: nat in
      if c = CHR 0x5C \<or> c = CHR 0x22 then [CHR 0x5C, c]
      else if n = 10 then [CHR 0x5C, CHR ''n'']
      else if n = 13 then [CHR 0x5C, CHR ''r'']
      else if n = 9 then [CHR 0x5C, CHR ''t'']
      else if n = 12 then [CHR 0x5C, CHR ''f'']
      else if n = 8 then [CHR 0x5C, CHR ''b'']
      else if 32 \<le> n \<and> n \<le> 126 then [c]
      else [CHR 0x5C, CHR ''u''] @ hex4 n)"

definition dump_str :: "string \<Rightarrow> string" where
  "dump_str s = [CHR 0x22] @ concat (map dump_char s) @ [CHR 0x22]"

fun json_dumps :: "string \<Rightarrow> string \<Rightarrow> json \<Rightarrow> string" where
  "json_dumps is ks JNull = ''null''"
| "json_dumps is ks (JBool b) = (if b then ''true'' else ''false'')"
| "json_dumps is ks (JInt n) = str_int n"
| "json_dumps is ks (JStr s) = dump_str s"
| "json_dumps is ks (JList xs) = ''['' @ str_join is (map (json_dumps is ks) xs) @ '']''"
| "json_dumps is ks (JObj d) =
     ''{'' @ str_join is (map (\<lambda>kv. dump_str (fst kv) @ ks @ json_dumps is ks (snd kv)) d) @ ''}''"

section \<open>Reading\<close>

definition skip_ws :: "string \<Rightarrow> string" where
  "skip_ws s = dropWhile (\<lambda>c. c \<in> set [CHR '' '', CHR 0x09, CHR 0x0A, CHR 0x0D]) s"

definition hex_val :: "char \<Rightarrow> nat" where
  "hex_val c = (let n = of_char c :: nat in if n < 58 then n - 48 else if n < 71 then n - 55 else n - 87)"

text \<open>One character of a string literal, or its closing quote.\<close>

definition unescape :: "char \<Rightarrow> char option" where
  "unescape e =
     map_of [(CHR ''n'', CHR 0x0A), (CHR ''r'', CHR 0x0D), (CHR ''t'', CHR 0x09), (CHR ''f'', CHR 0x0C),
             (CHR ''b'', CHR 0x08), (CHR 0x22, CHR 0x22), (CHR 0x5C, CHR 0x5C), (CHR ''/'', CHR ''/'')] e"

definition read_hex4 :: "string \<Rightarrow> (char option \<times> string) option" where
  "read_hex4 s =
     (if length s < 4 then None
      else Some (Some (char_of (foldl (\<lambda>n h. 16 * n + hex_val h) 0 (take 4 s))), drop 4 s))"

definition read_escape :: "string \<Rightarrow> (char option \<times> string) option" where
  "read_escape s = (case s of
       [] \<Rightarrow> None
     | e # r \<Rightarrow>
         if e = CHR ''u'' then read_hex4 r else map_option (\<lambda>c. (Some c, r)) (unescape e))"

definition read_one :: "string \<Rightarrow> (char option \<times> string) option" where
  "read_one s = (case s of
       [] \<Rightarrow> None
     | c # r \<Rightarrow>
         if c = CHR 0x22 then Some (None, r)
         else if c = CHR 0x5C then read_escape r
         else if (of_char c :: nat) < 32 then None
         else Some (Some c, r))"

lemma read_escape_shorter: "read_escape s = Some (x, r) \<Longrightarrow> length r < length s"
  by (cases s) (auto simp: read_escape_def read_hex4_def split: if_splits)

lemma read_one_shorter: "read_one s = Some (x, r) \<Longrightarrow> length r < length s"
  by (cases s) (auto simp: read_one_def split: if_splits dest: read_escape_shorter)

function read_chars :: "string \<Rightarrow> (string \<times> string) option" where
  "read_chars s = (case read_one s of
       None \<Rightarrow> None
     | Some (None, r) \<Rightarrow> Some ([], r)
     | Some (Some c, r) \<Rightarrow> map_option (\<lambda>(cs, r'). (c # cs, r')) (read_chars r))"
  by pat_completeness auto
termination
  by (relation "measure length") (auto dest: read_one_shorter)

declare read_chars.simps [simp del]

definition is_digit :: "char \<Rightarrow> bool" where
  "is_digit c = (let n = of_char c :: nat in 48 \<le> n \<and> n \<le> 57)"

definition read_int :: "string \<Rightarrow> (json \<times> string) option" where
  "read_int s = (case s of
       [] \<Rightarrow> None
     | c # r \<Rightarrow>
         (let body = (if c = CHR ''-'' then r else s); ds = takeWhile is_digit body in
          if ds = [] then None
          else Some (JInt (if c = CHR ''-'' then - int (parse_nat ds) else int (parse_nat ds)),
                     dropWhile is_digit body)))"

definition next_is :: "char \<Rightarrow> string \<Rightarrow> string option" where
  "next_is c s = (case skip_ws s of [] \<Rightarrow> None | x # r \<Rightarrow> if x = c then Some r else None)"

fun read_value :: "nat \<Rightarrow> string \<Rightarrow> (json \<times> string) option"
  and read_items :: "nat \<Rightarrow> string \<Rightarrow> (json list \<times> string) option"
  and read_members :: "nat \<Rightarrow> string \<Rightarrow> ((string \<times> json) list \<times> string) option" where
  "read_value 0 s = None"
| "read_value (Suc n) s = (let s = skip_ws s in case s of
       [] \<Rightarrow> None
     | c # r \<Rightarrow>
         (if c = CHR 0x22 then map_option (\<lambda>(t, r'). (JStr t, r')) (read_chars r)
          else if c = CHR ''['' then (case next_is (CHR '']'') r of
              Some r' \<Rightarrow> Some (JList [], r')
            | None \<Rightarrow> map_option (\<lambda>(xs, r'). (JList xs, r')) (read_items n r))
          else if c = CHR 0x7B then (case next_is (CHR 0x7D) r of
              Some r' \<Rightarrow> Some (JObj [], r')
            | None \<Rightarrow> map_option (\<lambda>(d, r'). (JObj d, r')) (read_members n r))
          else if prefix ''null'' s then Some (JNull, drop 4 s)
          else if prefix ''true'' s then Some (JBool True, drop 4 s)
          else if prefix ''false'' s then Some (JBool False, drop 5 s)
          else read_int s))"
| "read_items 0 s = None"
| "read_items (Suc n) s = (case read_value n s of
       None \<Rightarrow> None
     | Some (v, r) \<Rightarrow> (case next_is (CHR '','') r of
           Some r' \<Rightarrow> map_option (\<lambda>(vs, r''). (v # vs, r'')) (read_items n r')
         | None \<Rightarrow> map_option (\<lambda>r'. ([v], r')) (next_is (CHR '']'') r)))"
| "read_members 0 s = None"
| "read_members (Suc n) s = (case next_is (CHR 0x22) s of
       None \<Rightarrow> None
     | Some s' \<Rightarrow> (case read_chars s' of
           None \<Rightarrow> None
         | Some (k, r0) \<Rightarrow> (case next_is (CHR '':'') r0 of
               None \<Rightarrow> None
             | Some r1 \<Rightarrow> (case read_value n r1 of
                   None \<Rightarrow> None
                 | Some (v, r) \<Rightarrow> (case next_is (CHR '','') r of
                       Some r' \<Rightarrow> map_option (\<lambda>(m, r''). ((k, v) # m, r'')) (read_members n r')
                     | None \<Rightarrow> map_option (\<lambda>r'. ([(k, v)], r')) (next_is (CHR 0x7D) r))))))"

definition json_read :: "string \<Rightarrow> json option" where
  "json_read s = (case read_value (Suc (length s)) s of
       Some (v, r) \<Rightarrow> (if skip_ws r = [] then Some v else None)
     | None \<Rightarrow> None)"

section \<open>The reader takes back what dumps writes\<close>

lemma hex_val_digit [simp]:
  assumes "n < 16" shows "hex_val (hex_digit n) = n"
proof (cases "n < 10")
  case True
  then show ?thesis by (simp add: hex_val_def hex_digit_def Let_def of_char_of)
next
  case False
  with assms show ?thesis by (simp add: hex_val_def hex_digit_def Let_def of_char_of)
qed

lemma read_hex4_dump: "read_hex4 (hex4 (of_char c) @ r) = Some (Some c, r)"
proof -
  define n where "n = (of_char c :: nat)"
  have n: "n < 256" by (simp add: n_def)
  have c: "char_of n = c" by (simp add: n_def)
  have "hex4 n = [hex_digit 0, hex_digit 0, hex_digit (n div 16), hex_digit (n mod 16)]"
    using n by (simp add: hex4_def hex2_def)
  moreover have "hex_val (hex_digit (n div 16)) = n div 16" using n by simp
  moreover have "hex_val (hex_digit (n mod 16)) = n mod 16" by simp
  moreover have "16 * (n div 16) + n mod 16 = n" by simp
  ultimately have "read_hex4 (hex4 n @ r) = Some (Some (char_of n), r)"
    by (simp add: read_hex4_def)
  with c show ?thesis by (simp add: n_def)
qed

lemma control_chars:
  "(of_char c :: nat) = 8 \<longleftrightarrow> c = CHR 0x08" "(of_char c :: nat) = 9 \<longleftrightarrow> c = CHR 0x09"
  "(of_char c :: nat) = 10 \<longleftrightarrow> c = CHR 0x0A" "(of_char c :: nat) = 12 \<longleftrightarrow> c = CHR 0x0C"
  "(of_char c :: nat) = 13 \<longleftrightarrow> c = CHR 0x0D"
  by (simp_all add: of_char_eq_iff [where ?'a = nat, symmetric])

lemma read_one_escape: "read_one (CHR 0x5C # CHR ''u'' # hex4 (of_char c) @ r) = Some (Some c, r)"
  by (simp add: read_one_def read_escape_def read_hex4_dump)

lemma read_one_dump: "read_one (dump_char c @ r) = Some (Some c, r)"
proof (cases "c \<in> set [CHR 0x5C, CHR 0x22, CHR 0x08, CHR 0x09, CHR 0x0A, CHR 0x0C, CHR 0x0D]")
  case True
  then show ?thesis
    by (auto simp: dump_char_def read_one_def read_escape_def unescape_def)
next
  case False
  define n where "n = (of_char c :: nat)"
  from False have n: "n \<noteq> 8" "n \<noteq> 9" "n \<noteq> 10" "n \<noteq> 12" "n \<noteq> 13" "c \<noteq> CHR 0x5C" "c \<noteq> CHR 0x22"
    by (simp_all add: n_def control_chars)
  show ?thesis
  proof (cases "32 \<le> n \<and> n \<le> 126")
    case True
    with n show ?thesis by (simp add: dump_char_def read_one_def n_def [symmetric] Let_def)
  next
    case False
    then have "dump_char c = [CHR 0x5C, CHR ''u''] @ hex4 n"
      unfolding dump_char_def Let_def n_def [symmetric] using n by auto
    then show ?thesis using read_one_escape [of c r] by (simp add: n_def)
  qed
qed

lemma read_chars_dump: "read_chars (concat (map dump_char s) @ CHR 0x22 # r) = Some (s, r)"
proof (induction s)
  case Nil
  show ?case by (subst read_chars.simps) (simp add: read_one_def)
next
  case (Cons c s)
  then show ?case by (subst read_chars.simps) (simp add: read_one_dump)
qed

lemma is_digit_char [simp]: "n < 10 \<Longrightarrow> is_digit (char_of (48 + n :: nat))"
  by (simp add: is_digit_def Let_def)

lemma nat_digits_are_digits: "c \<in> set (nat_digits n) \<Longrightarrow> is_digit c"
proof (induction n rule: nat_digits.induct)
  case (1 n)
  show ?case
  proof (cases "n < 10")
    case True
    with 1(2) show ?thesis by (subst (asm) nat_digits.simps) simp
  next
    case False
    with 1 show ?thesis by (subst (asm) (2) nat_digits.simps) (auto dest: 1(1))
  qed
qed

definition ends_number :: "string \<Rightarrow> bool" where
  "ends_number r \<longleftrightarrow> (case r of [] \<Rightarrow> True | c # _ \<Rightarrow> \<not> is_digit c)"

lemma takeWhile_digits:
  assumes "ends_number r"
  shows "takeWhile is_digit (nat_digits n @ r) = nat_digits n"
    and "dropWhile is_digit (nat_digits n @ r) = r"
  using assms
  by (auto simp: takeWhile_append2 dropWhile_append2 nat_digits_are_digits ends_number_def split: list.splits)

lemma nat_digits_Cons: "\<exists>c ds. nat_digits n = c # ds \<and> is_digit c"
proof -
  obtain c ds where "nat_digits n = c # ds" by (cases "nat_digits n") auto
  with nat_digits_are_digits [of c n] show ?thesis by auto
qed

lemma read_int_dump:
  assumes "ends_number r" shows "read_int (str_int i @ r) = Some (JInt i, r)"
proof (cases "i < 0")
  case True
  with assms show ?thesis by (simp add: read_int_def str_int_def takeWhile_digits)
next
  case False
  obtain c ds where c: "nat_digits (nat i) = c # ds" "is_digit c" using nat_digits_Cons by blast
  have "takeWhile is_digit (c # ds @ r) = c # ds" "dropWhile is_digit (c # ds @ r) = r"
    using takeWhile_digits [OF assms, of "nat i"] c by simp_all
  moreover have "int (parse_nat (c # ds)) = i" using c(1) False parse_nat_digits [of "nat i"] by simp
  moreover have "c \<noteq> CHR ''-''" using c(2) by (auto simp: is_digit_def)
  ultimately show ?thesis using False c by (simp add: read_int_def str_int_def)
qed

text \<open>Separators: a comma or a colon, and blanks.\<close>

definition blank :: "string \<Rightarrow> bool" where
  "blank w \<longleftrightarrow> (\<forall>c\<in>set w. c = CHR '' '')"

lemma skip_ws_blank [simp]: "blank w \<Longrightarrow> skip_ws (w @ s) = skip_ws s"
  by (simp add: skip_ws_def blank_def dropWhile_append)

lemma skip_ws_Cons [simp]:
  "c \<notin> set [CHR '' '', CHR 0x09, CHR 0x0A, CHR 0x0D] \<Longrightarrow> skip_ws (c # s) = c # s"
  by (simp add: skip_ws_def)

lemma read_value_blank [simp]: "blank w \<Longrightarrow> read_value n (w @ s) = read_value n s"
  by (cases n) simp_all

lemma read_members_blank [simp]: "blank w \<Longrightarrow> read_members n (w @ s) = read_members n s"
  by (cases n) (simp_all add: next_is_def)

lemma read_items_blank [simp]: "blank w \<Longrightarrow> read_items n (w @ s) = read_items n s"
  by (cases n) simp_all

lemma str_int_first:
  obtains c r where "str_int i = c # r" "is_digit c \<or> c = CHR ''-''"
proof (cases "i < 0")
  case True
  then show thesis using that by (simp add: str_int_def)
next
  case False
  then show thesis using that nat_digits_Cons [of "nat i"] by (auto simp: str_int_def)
qed

lemma json_dumps_first:
  obtains c r where "json_dumps is ks v = c # r"
    "c \<notin> set [CHR '' '', CHR 0x09, CHR 0x0A, CHR 0x0D, CHR '']'', CHR 0x7D, CHR '','']"
proof (cases v)
  case (JInt i)
  obtain c s where c: "str_int i = c # s" "is_digit c \<or> c = CHR ''-''" by (rule str_int_first)
  then have "c \<notin> set [CHR '' '', CHR 0x09, CHR 0x0A, CHR 0x0D, CHR '']'', CHR 0x7D, CHR '','']"
    by (auto simp: is_digit_def)
  with c JInt show thesis using that by simp
next
  case (JBool b)
  then show thesis using that by (cases b) auto
qed (use that in \<open>auto simp: dump_str_def split: if_splits\<close>)

lemma next_is_dumps [simp]: "next_is (CHR '']'') (json_dumps is ks v @ r) = None"
  by (rule json_dumps_first [of "is" ks v]) (simp add: next_is_def)

lemma read_value_int:
  assumes "ends_number r" shows "read_value (Suc n) (str_int i @ r) = Some (JInt i, r)"
proof -
  obtain c s where c: "str_int i = c # s" "is_digit c \<or> c = CHR ''-''" by (rule str_int_first)
  then have "c \<notin> set [CHR '' '', CHR 0x09, CHR 0x0A, CHR 0x0D, CHR 0x22, CHR ''['', CHR 0x7B,
      CHR ''n'', CHR ''t'', CHR ''f'']" by (auto simp: is_digit_def)
  then have "read_value (Suc n) (str_int i @ r) = read_int (str_int i @ r)"
    using c(1) by (auto simp: Let_def)
  then show ?thesis using assms by (simp add: read_int_dump)
qed

lemma read_value_str: "read_value (Suc n) (dump_str s @ r) = Some (JStr s, r)"
  by (simp add: dump_str_def read_chars_dump)

lemma ends_number_sep [simp]: "ends_number (CHR '','' # r)" "ends_number (CHR '']'' # r)"
    "ends_number (CHR 0x7D # r)"
  by (simp_all add: ends_number_def is_digit_def)

lemma next_is_same [simp]: "c \<notin> set [CHR '' '', CHR 0x09, CHR 0x0A, CHR 0x0D] \<Longrightarrow> next_is c (c # r) = Some r"
  by (simp add: next_is_def)

lemma next_is_other [simp]: "c \<noteq> d \<Longrightarrow> d \<notin> set [CHR '' '', CHR 0x09, CHR 0x0A, CHR 0x0D] \<Longrightarrow> next_is c (d # r) = None"
  by (simp add: next_is_def)

lemma read_items_dumps:
  assumes "blank w"
    and "\<And>v n r. v \<in> set (x # xs) \<Longrightarrow> ends_number r \<Longrightarrow> length (json_dumps (CHR '','' # w) ks v) < n \<Longrightarrow>
           read_value n (json_dumps (CHR '','' # w) ks v @ r) = Some (v, r)"
    and "Suc (length (str_join (CHR '','' # w) (map (json_dumps (CHR '','' # w) ks) (x # xs)))) < n"
  shows "read_items n (str_join (CHR '','' # w) (map (json_dumps (CHR '','' # w) ks) (x # xs)) @ CHR '']'' # r)
     = Some (x # xs, r)"
  using assms(2-)
proof (induction xs arbitrary: x n)
  case Nil
  then obtain m where n: "n = Suc m" by (cases n) auto
  with Nil show ?case by simp
next
  case (Cons y ys)
  then obtain m where n: "n = Suc m" by (cases n) auto
  with Cons show ?case using assms(1) by simp
qed

lemma read_members_dumps:
  assumes "blank w" "blank u"
    and "\<And>v n r. v \<in> snd ` set (x # xs) \<Longrightarrow> ends_number r \<Longrightarrow>
           length (json_dumps (CHR '','' # w) (CHR '':'' # u) v) < n \<Longrightarrow>
           read_value n (json_dumps (CHR '','' # w) (CHR '':'' # u) v @ r) = Some (v, r)"
    and "Suc (length (str_join (CHR '','' # w) (map (\<lambda>kv. dump_str (fst kv) @ (CHR '':'' # u) @
            json_dumps (CHR '','' # w) (CHR '':'' # u) (snd kv)) (x # xs)))) < n"
  shows "read_members n (str_join (CHR '','' # w) (map (\<lambda>kv. dump_str (fst kv) @ (CHR '':'' # u) @
            json_dumps (CHR '','' # w) (CHR '':'' # u) (snd kv)) (x # xs)) @ CHR 0x7D # r)
     = Some (x # xs, r)"
  using assms(3-)
proof (induction xs arbitrary: x n)
  case Nil
  then obtain m where n: "n = Suc m" by (cases n) auto
  with Nil show ?case using assms(2) by (cases x) (simp add: dump_str_def read_chars_dump)
next
  case (Cons y ys)
  then obtain m where n: "n = Suc m" by (cases n) auto
  with Cons show ?case using assms(1,2) by (cases x) (simp add: dump_str_def read_chars_dump)
qed

lemma read_value_dumps:
  assumes "blank w" "blank u"
  shows "ends_number r \<Longrightarrow> length (json_dumps (CHR '','' # w) (CHR '':'' # u) v) < n \<Longrightarrow>
    read_value n (json_dumps (CHR '','' # w) (CHR '':'' # u) v @ r) = Some (v, r)"
proof (induction v arbitrary: n r)
  case JNull
  then show ?case by (cases n) simp_all
next
  case (JBool b)
  then show ?case by (cases n; cases b) simp_all
next
  case (JInt i)
  then show ?case by (cases n) (simp_all add: read_value_int del: read_value.simps(2))
next
  case (JStr s)
  then show ?case by (cases n) (simp_all add: read_value_str del: read_value.simps)
next
  case (JList xs)
  then obtain m where n: "n = Suc m" by (cases n) auto
  show ?case
  proof (cases xs)
    case Nil
    then show ?thesis using n by simp
  next
    case (Cons y ys)
    let ?t = "str_join (CHR '','' # w) (map (json_dumps (CHR '','' # w) (CHR '':'' # u)) (y # ys))"
    have "read_items m (?t @ CHR '']'' # r) = Some (y # ys, r)"
      by (rule read_items_dumps) (use JList Cons n assms in auto)
    moreover have "next_is (CHR '']'') (?t @ CHR '']'' # r) = None"
      by (cases ys) simp_all
    ultimately show ?thesis using Cons n by simp
  qed
next
  case (JObj d)
  then obtain m where n: "n = Suc m" by (cases n) auto
  show ?case
  proof (cases d)
    case Nil
    then show ?thesis using n by simp
  next
    case (Cons y ys)
    let ?t = "str_join (CHR '','' # w) (map (\<lambda>kv. dump_str (fst kv) @ (CHR '':'' # u) @
            json_dumps (CHR '','' # w) (CHR '':'' # u) (snd kv)) (y # ys))"
    have IH: "read_value n (json_dumps (CHR '','' # w) (CHR '':'' # u) v @ r) = Some (v, r)"
      if v: "v \<in> snd ` set (y # ys)" and "ends_number r"
        and "length (json_dumps (CHR '','' # w) (CHR '':'' # u) v) < n" for v n r
    proof -
      obtain kv where kv: "kv \<in> set d" "v = snd kv" using v Cons by blast
      moreover have "snd kv \<in> Basic_BNFs.snds kv" by (cases kv) simp
      ultimately show ?thesis using JObj.IH that(2,3) by blast
    qed
    have "read_members m (?t @ CHR 0x7D # r) = Some (y # ys, r)"
      by (rule read_members_dumps [OF assms IH]) (use JObj Cons n in auto)
    moreover have "next_is (CHR 0x7D) (?t @ CHR 0x7D # r) = None"
      by (cases ys) (simp_all add: dump_str_def)
    ultimately show ?thesis using Cons n by simp
  qed
qed

lemma json_read_dumps:
  assumes "blank w" "blank u"
  shows "json_read (json_dumps (CHR '','' # w) (CHR '':'' # u) v) = Some v"
  using read_value_dumps [OF assms, of "[]" v "Suc (length (json_dumps (CHR '','' # w) (CHR '':'' # u) v))"]
  by (simp add: json_read_def ends_number_def skip_ws_def del: read_value.simps)

text \<open>The separators the code uses: the default ones, and the compact ones of the event hash.\<close>

definition dumps_default :: "json \<Rightarrow> string" where
  "dumps_default v = json_dumps '', '' '': '' v"

definition dumps_compact :: "json \<Rightarrow> string" where
  "dumps_compact v = json_dumps '','' '':'' v"

lemma json_read_default [simp]: "json_read (dumps_default v) = Some v"
  using json_read_dumps [of "'' ''" "'' ''" v] by (simp add: dumps_default_def blank_def)

lemma json_read_compact [simp]: "json_read (dumps_compact v) = Some v"
  using json_read_dumps [of "[]" "[]" v] by (simp add: dumps_compact_def blank_def)

lemma json_read_nil [simp]: "json_read [] = None"
  by (simp add: json_read_def skip_ws_def)

interpretation compact: codec dumps_compact json_read
  by unfold_locales simp_all

interpretation default: codec dumps_default json_read
  by unfold_locales simp_all

lemma dumps_compact_inject [simp]: "dumps_compact v = dumps_compact v' \<longleftrightarrow> v = v'"
  by (rule compact.dump_inject)

lemma dumps_default_inject [simp]: "dumps_default v = dumps_default v' \<longleftrightarrow> v = v'"
  by (rule default.dump_inject)

text \<open>A member name in single quotes, as Python's \<open>repr\<close> writes it, is no JSON.\<close>

lemma json_read_single_quote: "json_read (CHR 0x7B # CHR 0x27 # s) = None"
proof -
  have "read_members n (CHR 0x27 # s) = None" for n
    by (cases n) simp_all
  then show ?thesis by (simp add: json_read_def)
qed

end
