(* ===== verification/Py_Hashlib.thy ===== *)
theory Py_Hashlib
  imports Py_Json "HOL-Library.Word"
begin

unbundle bit_operations_syntax

text \<open>
  \<open>hashlib.sha256(text.encode()).hexdigest()\<close> of the standard library on ASCII text: SHA-256
  (FIPS 180-4) on 32-bit words. The proofs use only that it is a function to 64 hexadecimal digits.
\<close>

text \<open>The round constants and the initial hash value, in decimal.\<close>

definition SHA_K :: "32 word list" where
  "SHA_K =
     [1116352408, 1899447441, 3049323471, 3921009573, 961987163, 1508970993, 2453635748, 2870763221,
      3624381080, 310598401, 607225278, 1426881987, 1925078388, 2162078206, 2614888103, 3248222580,
      3835390401, 4022224774, 264347078, 604807628, 770255983, 1249150122, 1555081692, 1996064986,
      2554220882, 2821834349, 2952996808, 3210313671, 3336571891, 3584528711, 113926993, 338241895,
      666307205, 773529912, 1294757372, 1396182291, 1695183700, 1986661051, 2177026350, 2456956037,
      2730485921, 2820302411, 3259730800, 3345764771, 3516065817, 3600352804, 4094571909, 275423344,
      430227734, 506948616, 659060556, 883997877, 958139571, 1322822218, 1537002063, 1747873779,
      1955562222, 2024104815, 2227730452, 2361852424, 2428436474, 2756734187, 3204031479, 3329325298]"

definition SHA_H :: "32 word list" where
  "SHA_H =
     [1779033703, 3144134277, 1013904242, 2773480762, 1359893119, 2600822924, 528734635, 1541459225]"

definition rotr :: "nat \<Rightarrow> 32 word \<Rightarrow> 32 word" where
  "rotr n x = drop_bit n x OR push_bit (32 - n) x"

definition sha_ch :: "32 word \<Rightarrow> 32 word \<Rightarrow> 32 word \<Rightarrow> 32 word" where
  "sha_ch x y z = (x AND y) XOR (NOT x AND z)"

definition sha_maj :: "32 word \<Rightarrow> 32 word \<Rightarrow> 32 word \<Rightarrow> 32 word" where
  "sha_maj x y z = (x AND y) XOR (x AND z) XOR (y AND z)"

definition Sigma0 :: "32 word \<Rightarrow> 32 word" where
  "Sigma0 x = rotr 2 x XOR rotr 13 x XOR rotr 22 x"

definition Sigma1 :: "32 word \<Rightarrow> 32 word" where
  "Sigma1 x = rotr 6 x XOR rotr 11 x XOR rotr 25 x"

definition sigma0 :: "32 word \<Rightarrow> 32 word" where
  "sigma0 x = rotr 7 x XOR rotr 18 x XOR drop_bit 3 x"

definition sigma1 :: "32 word \<Rightarrow> 32 word" where
  "sigma1 x = rotr 17 x XOR rotr 19 x XOR drop_bit 10 x"

text \<open>The message schedule, kept reversed: the newest word first.\<close>

fun schedule :: "nat \<Rightarrow> 32 word list \<Rightarrow> 32 word list" where
  "schedule 0 w = rev w"
| "schedule (Suc n) w = schedule n ((sigma1 (w ! 1) + w ! 6 + sigma0 (w ! 14) + w ! 15) # w)"

fun sha_round :: "32 word list \<Rightarrow> 32 word \<times> 32 word \<Rightarrow> 32 word list" where
  "sha_round [a, b, c, d, e, f, g, h] (k, w) =
     (let t1 = h + Sigma1 e + sha_ch e f g + k + w;
          t2 = Sigma0 a + sha_maj a b c
      in [t1 + t2, a, b, c, d + t1, e, f, g])"
| "sha_round s _ = s"

definition compress :: "32 word list \<Rightarrow> 32 word list \<Rightarrow> 32 word list" where
  "compress H block =
     map2 (+) H (foldl sha_round H (zip SHA_K (schedule 48 (rev block))))"

text \<open>Padding to whole blocks, and the bytes as big-endian words.\<close>

definition be_bytes :: "nat \<Rightarrow> nat \<Rightarrow> nat list" where
  "be_bytes k n = map (\<lambda>i. n div 256 ^ (k - 1 - i) mod 256) [0..<k]"

definition sha_pad :: "nat list \<Rightarrow> nat list" where
  "sha_pad m = m @ [128] @ replicate ((119 - length m mod 64) mod 64) 0 @ be_bytes 8 (8 * length m)"

fun be_words :: "nat list \<Rightarrow> 32 word list" where
  "be_words (a # b # c # d # r) = of_nat (((a * 256 + b) * 256 + c) * 256 + d) # be_words r"
| "be_words _ = []"

fun blocks :: "nat \<Rightarrow> 32 word list \<Rightarrow> 32 word list list" where
  "blocks 0 w = []"
| "blocks (Suc n) w = take 16 w # blocks n (drop 16 w)"

definition sha256_words :: "nat list \<Rightarrow> 32 word list" where
  "sha256_words m =
     (let p = sha_pad m in foldl compress SHA_H (blocks (length p div 64) (be_words p)))"

definition hexdigest :: "32 word list \<Rightarrow> string" where
  "hexdigest ws = concat (map (\<lambda>w. concat (map hex2 (be_bytes 4 (unat w)))) ws)"

definition sha256_hex :: "string \<Rightarrow> string" where
  "sha256_hex s = hexdigest (sha256_words (map of_char s))"

lemma length_sha_round: "length s = 8 \<Longrightarrow> length (sha_round s kw) = 8"
  by (cases "(s, kw)" rule: sha_round.cases) (simp_all add: Let_def)

lemma length_compress [simp]: "length H = 8 \<Longrightarrow> length (compress H b) = 8"
proof -
  have "length (foldl sha_round s kws) = 8" if "length s = 8" for s kws
    using that by (induction kws arbitrary: s) (simp_all add: length_sha_round)
  then show "length H = 8 \<Longrightarrow> length (compress H b) = 8" by (simp add: compress_def)
qed

lemma length_sha256_words [simp]: "length (sha256_words m) = 8"
proof -
  have "length (foldl compress H bs) = 8" if "length H = 8" for H bs
    using that by (induction bs arbitrary: H) simp_all
  then show ?thesis by (simp add: sha256_words_def Let_def SHA_H_def)
qed

lemma length_sha256_hex [simp]: "length (sha256_hex s) = 64"
  by (simp add: sha256_hex_def hexdigest_def be_bytes_def hex2_def length_concat comp_def
      sum_list_triv)

end
