(* ===== verification/Audit_Log.thy ===== *)
theory Audit_Log
  imports Complex_Main Py_Hashlib Py_Datetime "HOL-Library.Char_ord" "HOL-Library.List_Lexorder"
begin

text \<open>
  \<open>audit/schema.py\<close>, \<open>audit/producer.py\<close>, \<open>audit/consumer.py\<close> and \<open>audit/api.py\<close>: the events
  with their SHA-256 chain, the producer that owns a chain and buffers what Kafka does not take,
  the consumer that writes events to the table, and the query API. Kafka, PostgreSQL and pydantic's
  reading and writing of a model are parameters. A \<open>float\<close> field is a rational number.
\<close>

section \<open>Events and their chain (schema.py)\<close>

definition GENESIS_HASH :: string where
  "GENESIS_HASH = replicate 64 (CHR ''0'')"

record audit_event =
  ae_event_id :: string
  ae_schema_version :: string
  ae_timestamp :: instant
  ae_agent_id :: string
  ae_agent_type :: string
  ae_task_id :: string
  ae_action :: string
  ae_resource_arn :: string
  ae_decision :: string
  ae_decision_reason :: "string option"
  ae_policy_ref :: "string option"
  ae_policy_version :: "string option"
  ae_token_jti :: "string option"
  ae_source_ip :: "string option"
  ae_environment :: "string option"
  ae_execution_result :: "pydict option"
  ae_execution_error :: "string option"
  ae_anomaly_score :: "rat option"
  ae_previous_event_hash :: string
  ae_event_hash :: string

text \<open>\<open>sort_keys=True\<close>: members in the order of their names.\<close>

definition sort_items :: "pydict \<Rightarrow> pydict" where
  "sort_items d = sort_key fst d"

definition hashed_fields :: "audit_event \<Rightarrow> pydict" where
  "hashed_fields e =
     [(''event_id'', JStr (ae_event_id e)),
      (''timestamp'', JStr (isoformat (ae_timestamp e))),
      (''agent_id'', JStr (ae_agent_id e)),
      (''agent_type'', JStr (ae_agent_type e)),
      (''task_id'', JStr (ae_task_id e)),
      (''action'', JStr (ae_action e)),
      (''resource_arn'', JStr (ae_resource_arn e)),
      (''decision'', JStr (ae_decision e)),
      (''previous_event_hash'', JStr (ae_previous_event_hash e))]"

definition canonical :: "audit_event \<Rightarrow> string" where
  "canonical e = dumps_compact (JObj (sort_items (hashed_fields e)))"

definition compute_event_hash :: "audit_event \<Rightarrow> string" where
  "compute_event_hash e = sha256_hex (canonical e)"

text \<open>The loop of \<open>verify_chain\<close>, with the event before the current one.\<close>

fun verify_from :: "audit_event option \<Rightarrow> audit_event list \<Rightarrow> bool" where
  "verify_from before [] = True"
| "verify_from before (e # es) =
     (if compute_event_hash e \<noteq> ae_event_hash e then False
      else if (case before of None \<Rightarrow> False | Some b \<Rightarrow> ae_previous_event_hash e \<noteq> ae_event_hash b) then False
      else verify_from (Some e) es)"

definition verify_chain :: "audit_event list \<Rightarrow> bool" where
  "verify_chain events = verify_from None events"

section \<open>The producer (producer.py)\<close>

record producer =
  pr_last_hash :: string
  pr_fallback :: "audit_event list"
  pr_connected :: bool

definition producer_init :: "bool \<Rightarrow> producer" where
  \<comment> \<open>whether \<open>_try_connect\<close> got a \<open>KafkaProducer\<close>\<close>
  "producer_init kafka_up = \<lparr>pr_last_hash = GENESIS_HASH, pr_fallback = [], pr_connected = kafka_up\<rparr>"

type_synonym 'k send = "string \<Rightarrow> 'k \<Rightarrow> (string + unit) \<times> 'k"

definition seal :: "string \<Rightarrow> audit_event \<Rightarrow> audit_event" where
  "seal prev e =
     (let e' = e\<lparr>ae_previous_event_hash := prev\<rparr> in e'\<lparr>ae_event_hash := compute_event_hash e'\<rparr>)"

definition publish ::
  "(audit_event \<Rightarrow> string) \<Rightarrow> 'k send \<Rightarrow> audit_event \<Rightarrow> producer \<times> 'k \<Rightarrow> audit_event \<times> (producer \<times> 'k)" where
  "publish dump send event = (\<lambda>(p, k).
     (let event = seal (pr_last_hash p) event;
          p = p\<lparr>pr_last_hash := ae_event_hash event\<rparr>;
          buffer = p\<lparr>pr_fallback := pr_fallback p @ [event]\<rparr>
      in if pr_connected p
         then (case send (dump event) k of
                 (Inr _, k') \<Rightarrow> (event, (p, k'))
               | (Inl _, k') \<Rightarrow> (event, (buffer, k')))
         else (event, (buffer, k))))"

definition drain :: "producer \<Rightarrow> audit_event list \<times> producer" where
  "drain p = (pr_fallback p, p\<lparr>pr_fallback := []\<rparr>)"

text \<open>A run of publishes by one producer, and the events it returned.\<close>

fun publish_all ::
  "(audit_event \<Rightarrow> string) \<Rightarrow> 'k send \<Rightarrow> audit_event list \<Rightarrow> producer \<times> 'k \<Rightarrow> audit_event list \<times> (producer \<times> 'k)" where
  "publish_all dump send [] s = ([], s)"
| "publish_all dump send (e # es) s =
     (case publish dump send e s of (e', s') \<Rightarrow>
        (case publish_all dump send es s' of (es', s'') \<Rightarrow> (e' # es', s'')))"

section \<open>The consumer (consumer.py)\<close>

record audit_row =
  row_event :: audit_event            \<comment> \<open>the scalar columns\<close>
  row_execution_result :: "string option"   \<comment> \<open>the JSON text of \<open>execution_result\<close>\<close>

definition row_of :: "audit_event \<Rightarrow> audit_row" where
  "row_of e = \<lparr>row_event = e\<lparr>ae_execution_result := None\<rparr>,
     row_execution_result = (case ae_execution_result e of
        None \<Rightarrow> None | Some d \<Rightarrow> if d = [] then None else Some (dumps_default (JObj d)))\<rparr>"

definition row_key :: "audit_row \<Rightarrow> string" where
  "row_key r = ae_event_id (row_event r)"

type_synonym 'd insert = "audit_row \<Rightarrow> 'd \<Rightarrow> (string + unit) \<times> 'd"

definition persist :: "'d insert \<Rightarrow> audit_event \<Rightarrow> ('d, unit) comp" where
  "persist ins e = (\<lambda>d. case ins (row_of e) d of
       (Inl m, d') \<Rightarrow> (Inl (OtherError ''PostgresError'' m), d')
     | (Inr _, d') \<Rightarrow> (Inr (), d'))"

text \<open>One message: what fails is logged and skipped.\<close>

definition consume_message :: "(string \<Rightarrow> audit_event option) \<Rightarrow> 'd insert \<Rightarrow> string \<Rightarrow> ('d, unit) comp" where
  "consume_message validate ins msg = try_except
     (case validate msg of
        None \<Rightarrow> throw (ValidationError ''AuditEvent'')
      | Some e \<Rightarrow> persist ins e)
     (\<lambda>_. ret ())"

fun consume :: "(string \<Rightarrow> audit_event option) \<Rightarrow> 'd insert \<Rightarrow> string list \<Rightarrow> ('d, unit) comp" where
  "consume validate ins [] = ret ()"
| "consume validate ins (m # ms) = seq (consume_message validate ins m) (\<lambda>_. consume validate ins ms)"

text \<open>
  \<open>run_consumer\<close>: the rounds of the loop before a signal sets \<open>stop\<close>, each what \<open>poll\<close> gives, the messages per
  partition or an exception; the consumer and the connection are closed in any case.
\<close>

record 'd consumer_state =
  cs_database :: 'd
  cs_consumer_closed :: bool
  cs_connection_closed :: bool

fun poll_loop ::
  "(string \<Rightarrow> audit_event option) \<Rightarrow> 'd insert \<Rightarrow> (exn + string list list) list \<Rightarrow> ('d, unit) comp" where
  "poll_loop validate ins [] = ret ()"
| "poll_loop validate ins (Inl e # polls) = throw e"
| "poll_loop validate ins (Inr records # polls) =
     seq (consume validate ins (concat records)) (\<lambda>_. poll_loop validate ins polls)"

definition run_consumer ::
  "(string \<Rightarrow> audit_event option) \<Rightarrow> 'd insert \<Rightarrow> (exn + string list list) list \<Rightarrow> ('d consumer_state, unit) comp" where
  "run_consumer validate ins polls = (\<lambda>s. case poll_loop validate ins polls (cs_database s) of
     (x, d) \<Rightarrow> (x, s\<lparr>cs_database := d, cs_consumer_closed := True, cs_connection_closed := True\<rparr>))"

section \<open>The query API (api.py)\<close>

record audit_api =
  aq_queries :: int
  aq_chain_verifications :: int
  aq_chain_failures :: int

datatype sqlparam = PStr string | PTime instant | PInt int

record event_filter =
  ef_agent_id :: "string option"
  ef_action :: "string option"
  ef_decision :: "string option"
  ef_since :: "instant option"
  ef_until :: "instant option"
  ef_limit :: int
  ef_offset :: int

text \<open>One \<open>if\<close> of \<open>list_events\<close>: a condition, its parameter, the next index.\<close>

definition add_condition ::
  "string \<Rightarrow> sqlparam option \<Rightarrow> string list \<times> sqlparam list \<times> int \<Rightarrow> string list \<times> sqlparam list \<times> int" where
  "add_condition lhs v = (\<lambda>(conditions, params, idx). case v of
       None \<Rightarrow> (conditions, params, idx)
     | Some p \<Rightarrow> (conditions @ [lhs @ ''$'' @ str_int idx], params @ [p], idx + 1))"

definition nonempty :: "string option \<Rightarrow> string option" where
  "nonempty x = (case x of Some s \<Rightarrow> if s = [] then None else Some s | None \<Rightarrow> None)"

definition build_query :: "event_filter \<Rightarrow> string \<times> sqlparam list" where
  "build_query f =
     (let acc = ([], [], 1);
          acc = add_condition ''agent_id = '' (map_option PStr (nonempty (ef_agent_id f))) acc;
          acc = add_condition ''action LIKE '' (map_option (\<lambda>a. PStr (a @ ''%'')) (nonempty (ef_action f))) acc;
          acc = add_condition ''decision = '' (map_option (\<lambda>d. PStr (str_upper d)) (nonempty (ef_decision f))) acc;
          acc = add_condition ''timestamp >= '' (map_option PTime (ef_since f)) acc;
          acc = add_condition ''timestamp <= '' (map_option PTime (ef_until f)) acc
      in case acc of (conditions, params, idx) \<Rightarrow>
        (let where_clause = (if conditions = [] then [] else ''WHERE '' @ str_join '' AND '' conditions);
             params = params @ [PInt (ef_limit f), PInt (ef_offset f)];
             nl = CHR 0x0A # replicate 8 (CHR '' '')
         in (nl @ ''SELECT * FROM audit_events'' @ nl @ where_clause @ nl @ ''ORDER BY timestamp DESC'' @ nl @
             ''LIMIT $'' @ str_int idx @ '' OFFSET $'' @ str_int (idx + 1) @ CHR 0x0A # replicate 4 (CHR '' ''),
             params)))"

type_synonym fetch = "string \<Rightarrow> sqlparam list \<Rightarrow> string + audit_row list"

definition list_events :: "fetch \<Rightarrow> event_filter \<Rightarrow> (audit_api, audit_row list) comp" where
  "list_events fetch f = (\<lambda>a.
     let a = a\<lparr>aq_queries := aq_queries a + 1\<rparr> in
     case build_query f of (query, params) \<Rightarrow>
       (case fetch query params of
          Inl _ \<Rightarrow> (Inl (HTTPException 503 ''Audit store unavailable''), a)
        | Inr rows \<Rightarrow> (Inr rows, a)))"

text \<open>\<open>fetchrow\<close>: the first row, if there is one.\<close>

definition get_event :: "fetch \<Rightarrow> string \<Rightarrow> (audit_api, audit_row) comp" where
  "get_event fetch event_id = (\<lambda>a.
     let a = a\<lparr>aq_queries := aq_queries a + 1\<rparr> in
     case fetch ''SELECT * FROM audit_events WHERE event_id = $1'' [PStr event_id] of
       Inl _ \<Rightarrow> (Inl (HTTPException 503 ''Audit store unavailable''), a)
     | Inr [] \<Rightarrow> (Inl (HTTPException 404 ''Event not found''), a)
     | Inr (r # _) \<Rightarrow> (Inr r, a))"

record chain_reply =
  ch_agent_id :: string
  ch_valid :: bool
  ch_event_count :: nat
  ch_note :: "string option"

definition verify_chain_endpoint ::
  "fetch \<Rightarrow> (audit_row \<Rightarrow> audit_event option) \<Rightarrow> string \<Rightarrow> (audit_api, chain_reply) comp" where
  "verify_chain_endpoint fetch validate agent = (\<lambda>a.
     let a = a\<lparr>aq_chain_verifications := aq_chain_verifications a + 1\<rparr> in
     case fetch ''SELECT * FROM audit_events WHERE agent_id = $1 ORDER BY timestamp ASC'' [PStr agent] of
       Inl _ \<Rightarrow> (Inl (HTTPException 503 ''Verification unavailable''), a)
     | Inr rows \<Rightarrow>
         (if rows = []
          then (Inr \<lparr>ch_agent_id = agent, ch_valid = True, ch_event_count = 0, ch_note = Some ''no events found''\<rparr>, a)
          else case those (map validate rows) of
                 None \<Rightarrow> (Inl (HTTPException 503 ''Verification unavailable''), a)
               | Some events \<Rightarrow>
                   (let valid = verify_chain events in
                    (Inr \<lparr>ch_agent_id = agent, ch_valid = valid, ch_event_count = length events, ch_note = None\<rparr>,
                     if valid then a else a\<lparr>aq_chain_failures := aq_chain_failures a + 1\<rparr>))))"

definition audit_metrics :: "audit_api \<Rightarrow> string" where
  "audit_metrics a =
     (let nl = [CHR 0x0A] in str_join nl
        [''# HELP nhi_audit_queries_total Total audit API queries served'',
         ''# TYPE nhi_audit_queries_total counter'',
         ''nhi_audit_queries_total '' @ str_int (aq_queries a),
         ''# HELP nhi_chain_verifications_total Total chain integrity checks'',
         ''# TYPE nhi_chain_verifications_total counter'',
         ''nhi_chain_verifications_total '' @ str_int (aq_chain_verifications a),
         ''# HELP nhi_chain_failures_total Chain integrity failures detected'',
         ''# TYPE nhi_chain_failures_total counter'',
         ''nhi_chain_failures_total '' @ str_int (aq_chain_failures a)] @ nl)"

section \<open>The chain\<close>

text \<open>What the hash covers, besides the link.\<close>

definition protected :: "audit_event \<Rightarrow> string list" where
  "protected e = [ae_event_id e, isoformat (ae_timestamp e), ae_agent_id e, ae_agent_type e, ae_task_id e,
     ae_action e, ae_resource_arn e, ae_decision e]"

lemma set_sort_items: "set (sort_items d) = set d"
  by (simp add: sort_items_def)

lemma distinct_hashed_fields: "distinct (map fst (hashed_fields e))"
  by (simp add: hashed_fields_def)

lemma canonical_inject:
  assumes "canonical e = canonical f"
  shows "protected e = protected f \<and> ae_previous_event_hash e = ae_previous_event_hash f"
proof -
  have "sort_items (hashed_fields e) = sort_items (hashed_fields f)"
    using assms unfolding canonical_def dumps_compact_inject by (rule json.inject(5) [THEN iffD1])
  then have "set (sort_items (hashed_fields e)) = set (sort_items (hashed_fields f))"
    by (rule arg_cong)
  then have "set (hashed_fields e) = set (hashed_fields f)" by (simp only: set_sort_items)
  then have "map_of (hashed_fields e) = map_of (hashed_fields f)"
    by (rule map_of_inject_set [OF distinct_hashed_fields distinct_hashed_fields, THEN iffD2])
  then have "map_of (hashed_fields e) k = map_of (hashed_fields f) k" for k by (rule fun_cong)
  from this [of "''event_id''"] this [of "''timestamp''"] this [of "''agent_id''"]
    this [of "''agent_type''"] this [of "''task_id''"] this [of "''action''"]
    this [of "''resource_arn''"] this [of "''decision''"] this [of "''previous_event_hash''"]
  show ?thesis by (simp add: hashed_fields_def protected_def)
qed

interpretation audit: hash_chain compute_event_hash canonical sha256_hex ae_previous_event_hash
  ae_event_hash protected
  by unfold_locales (rule compute_event_hash_def, rule canonical_inject)

lemma verify_from_chained:
  "verify_from (Some b) es \<longleftrightarrow> verify_from None es \<and> (case es of [] \<Rightarrow> True | e # _ \<Rightarrow> ae_previous_event_hash e = ae_event_hash b)"
  by (cases es) auto

lemma verify_snoc:
  "verify_from b (es @ [e]) \<longleftrightarrow> verify_from b es \<and> ae_event_hash e = compute_event_hash e \<and>
     (case es of [] \<Rightarrow> (case b of None \<Rightarrow> True | Some x \<Rightarrow> ae_previous_event_hash e = ae_event_hash x)
      | _ \<Rightarrow> ae_previous_event_hash e = ae_event_hash (last es))"
  by (induction es arbitrary: b) (auto split: option.splits list.splits)

lemma verify_chain_chained: "verify_chain es \<longleftrightarrow> audit.chained es"
  unfolding verify_chain_def
proof (induction es rule: rev_induct)
  case Nil
  then show ?case by simp
next
  case (snoc e es)
  then show ?case by (auto simp: verify_snoc audit.chained_snoc split: list.splits)
qed

lemma verify_from_append:
  "verify_from b (es @ fs) \<longleftrightarrow> verify_from b es \<and> verify_from (if es = [] then b else Some (last es)) fs"
  by (induction es arbitrary: b) (auto split: option.splits)

lemma verify_chain_append:
  "es \<noteq> [] \<Longrightarrow> fs \<noteq> [] \<Longrightarrow> verify_chain (es @ fs) \<longleftrightarrow> verify_chain es \<and> verify_chain fs \<and>
     ae_previous_event_hash (hd fs) = ae_event_hash (last es)"
  by (cases fs) (auto simp: verify_chain_def verify_from_append verify_from_chained [of "last es"])

section \<open>What a producer publishes\<close>

lemma seal_simps [simp]:
  "ae_previous_event_hash (seal h e) = h" "ae_event_hash (seal h e) = compute_event_hash (seal h e)"
  "protected (seal h e) = protected e" "ae_event_id (seal h e) = ae_event_id e"
proof -
  have "compute_event_hash (x\<lparr>ae_event_hash := y\<rparr>) = compute_event_hash x" for x y
    by (simp add: compute_event_hash_def canonical_def hashed_fields_def)
  then show "ae_previous_event_hash (seal h e) = h" "ae_event_hash (seal h e) = compute_event_hash (seal h e)"
    "protected (seal h e) = protected e" "ae_event_id (seal h e) = ae_event_id e"
    by (simp_all add: seal_def Let_def protected_def)
qed

lemma publish_run:
  assumes "publish dump send e (p, k) = (e', (p', k'))"
  shows "e' = seal (pr_last_hash p) e" and "pr_last_hash p' = ae_event_hash e'"
    and "pr_connected p' = pr_connected p"
  using assms by (auto simp: publish_def Let_def split: if_splits prod.splits sum.splits)

lemma publish_all_chain:
  assumes "publish_all dump send es (p, k) = (out, (p', k'))"
  shows "verify_chain out" and "map protected out = map protected es"
    and "out \<noteq> [] \<Longrightarrow> ae_previous_event_hash (hd out) = pr_last_hash p \<and> pr_last_hash p' = ae_event_hash (last out)"
proof -
  have "verify_from (Some b) out \<and> map protected out = map protected es \<and>
      (out \<noteq> [] \<longrightarrow> ae_previous_event_hash (hd out) = pr_last_hash p \<and> pr_last_hash p' = ae_event_hash (last out))"
    if "ae_event_hash b = pr_last_hash p" for b
    using assms that
  proof (induction es arbitrary: p k out b)
    case Nil
    then show ?case by simp
  next
    case (Cons e es)
    obtain e1 p1 k1 where e1: "publish dump send e (p, k) = (e1, (p1, k1))" by (metis prod_cases3)
    obtain out1 where out1: "publish_all dump send es (p1, k1) = (out1, (p', k'))" "out = e1 # out1"
      using Cons.prems(1) e1 by (auto split: prod.splits)
    note r = publish_run [OF e1]
    have "verify_from (Some e1) out1 \<and> map protected out1 = map protected es \<and>
      (out1 \<noteq> [] \<longrightarrow> ae_previous_event_hash (hd out1) = pr_last_hash p1 \<and> pr_last_hash p' = ae_event_hash (last out1))"
      by (rule Cons.IH [OF out1(1)]) (simp add: r)
    moreover have "out1 = [] \<Longrightarrow> p' = p1" using out1(1) by (cases es) (auto split: prod.splits)
    ultimately show ?case using Cons.prems(2) r out1(2) by auto
  qed
  note all = this [of "undefined\<lparr>ae_event_hash := pr_last_hash p\<rparr>"]
  show "verify_chain out" using all verify_from_chained by (auto simp: verify_chain_def)
  show "map protected out = map protected es"
    "out \<noteq> [] \<Longrightarrow> ae_previous_event_hash (hd out) = pr_last_hash p \<and> pr_last_hash p' = ae_event_hash (last out)"
    using all by auto
qed

text \<open>Publishing fills in the two hashes and changes nothing else.\<close>

lemma publish_all_changes:
  "publish_all dump send es s = (out, s') \<Longrightarrow>
     list_all2 (\<lambda>e e'. \<exists>h h'. e' = e\<lparr>ae_previous_event_hash := h, ae_event_hash := h'\<rparr>) es out"
proof (induction es arbitrary: s out)
  case Nil
  then show ?case by simp
next
  case (Cons e es)
  obtain p k where s: "s = (p, k)" by fastforce
  obtain e1 p1 k1 where e1: "publish dump send e (p, k) = (e1, (p1, k1))" by (metis prod_cases3)
  obtain out1 where out1: "publish_all dump send es (p1, k1) = (out1, s')" "out = e1 # out1"
    using Cons.prems e1 by (auto simp: s split: prod.splits)
  from Cons.IH [OF out1(1)] publish_run(1) [OF e1] out1(2) show ?case by (auto simp: seal_def Let_def)
qed

lemma seal_fields [simp]:
  "ae_timestamp (seal h e) = ae_timestamp e" "ae_action (seal h e) = ae_action e"
  "ae_agent_id (seal h e) = ae_agent_id e" "ae_decision (seal h e) = ae_decision e"
  by (simp_all add: seal_def Let_def)

text \<open>Delivery: every event is in the topic or in the buffer.\<close>

context topic
begin

lemma publish_delivers:
  assumes "publish dump send e (p, k) = (e', (p', k'))"
  shows "dump e' \<in> set (log k') \<and> pr_connected p \<or> e' \<in> set (pr_fallback p')"
    and "prefix (log k) (log k')" and "prefix (pr_fallback p) (pr_fallback p')"
  using assms
  by (auto simp: publish_def Let_def split: if_splits prod.splits sum.splits dest: send_ok send_keeps)

lemma publish_all_delivers:
  assumes "publish_all dump send es (p, k) = (out, (p', k'))" and "e' \<in> set out"
  shows "dump e' \<in> set (log k') \<or> e' \<in> set (pr_fallback p')"
    and "prefix (log k) (log k')"
proof -
  have "prefix (log k) (log k') \<and> prefix (pr_fallback p) (pr_fallback p') \<and>
    (\<forall>e'\<in>set out. dump e' \<in> set (log k') \<or> e' \<in> set (pr_fallback p'))"
    using assms(1)
  proof (induction es arbitrary: p k out)
    case Nil
    then show ?case by simp
  next
    case (Cons e es)
    obtain e1 p1 k1 where e1: "publish dump send e (p, k) = (e1, (p1, k1))" by (metis prod_cases3)
    obtain out1 where out1: "publish_all dump send es (p1, k1) = (out1, (p', k'))" "out = e1 # out1"
      using Cons.prems(1) e1 by (auto split: prod.splits)
    from Cons.IH [OF out1(1)] publish_delivers [OF e1] out1(2)
    show ?case by (auto dest: set_mono_prefix intro: prefix_order.trans)
  qed
  with assms(2) show "dump e' \<in> set (log k') \<or> e' \<in> set (pr_fallback p')" "prefix (log k) (log k')"
    by blast+
qed

end

section \<open>What the consumer leaves in the table\<close>

lemma consume_message_returns: "\<exists>d'. consume_message validate ins m d = (Inr (), d')"
  by (auto simp: consume_message_def try_except_def persist_def split: option.splits prod.splits sum.splits)

lemma consume_returns: "\<exists>d'. consume validate ins ms d = (Inr (), d')"
proof (induction ms arbitrary: d)
  case Nil
  then show ?case by simp
next
  case (Cons m ms)
  obtain d1 where "consume_message validate ins m d = (Inr (), d1)"
    using consume_message_returns [of validate ins m d] by (elim exE)
  with Cons show ?case by (simp add: seq_def)
qed

lemma seq_skip: "seq (Pair (Inr ())) (\<lambda>_. g) = g"
  by (rule ext) (simp add: seq_def)

lemma consume_append: "consume validate ins (ms @ ns) = seq (consume validate ins ms) (\<lambda>_. consume validate ins ns)"
  by (induction ms) (simp_all add: seq_assoc seq_skip)

lemma poll_loop_rounds: "poll_loop validate ins (map Inr rounds @ polls) =
   seq (consume validate ins (concat (concat rounds))) (\<lambda>_. poll_loop validate ins polls)"
  by (induction rounds) (simp_all add: consume_append seq_assoc seq_skip)

text \<open>The rounds before the first failing poll, or before the signal.\<close>

definition rounds_of :: "(exn + string list list) list \<Rightarrow> string list list list" where
  "rounds_of polls = map projr (takeWhile (\<lambda>x. \<not> isl x) polls)"

lemma run_consumer_run:
  "\<exists>s'. consume validate ins (concat (concat (rounds_of polls))) (cs_database s) = (Inr (), cs_database s') \<and>
     run_consumer validate ins polls s = (case dropWhile (\<lambda>x. \<not> isl x) polls of Inl e # _ \<Rightarrow> Inl e | _ \<Rightarrow> Inr (), s') \<and>
     cs_consumer_closed s' \<and> cs_connection_closed s'"
proof -
  let ?rest = "dropWhile (\<lambda>x. \<not> isl x) polls"
  obtain d where d: "consume validate ins (concat (concat (rounds_of polls))) (cs_database s) = (Inr (), d)"
    using consume_returns [of validate ins "concat (concat (rounds_of polls))" "cs_database s"] by (elim exE)
  have "map Inr (map projr xs) = xs" if "\<forall>x\<in>set xs. \<not> isl x" for xs :: "(exn + string list list) list"
    using that by (induction xs) simp_all
  then have "map Inr (rounds_of polls) = takeWhile (\<lambda>x. \<not> isl x) polls"
    unfolding rounds_of_def using set_takeWhileD by metis
  then have split: "poll_loop validate ins polls =
      seq (consume validate ins (concat (concat (rounds_of polls)))) (\<lambda>_. poll_loop validate ins ?rest)"
    using poll_loop_rounds [of validate ins "rounds_of polls" ?rest] by simp
  have stop: "poll_loop validate ins r d = (case r of Inl e # _ \<Rightarrow> Inl e | _ \<Rightarrow> Inr (), d)" if "r = [] \<or> isl (hd r)" for r
    using that by (cases r; cases "hd r") auto
  have "poll_loop validate ins ?rest d = (case ?rest of Inl e # _ \<Rightarrow> Inl e | _ \<Rightarrow> Inr (), d)"
    by (rule stop) (metis hd_dropWhile)
  with d show ?thesis by (simp add: run_consumer_def split seq_Inr)
qed

lemma consume_Cons:
  assumes "consume validate ins (m # ms) d = (Inr (), d')"
  obtains d1 where "consume_message validate ins m d = (Inr (), d1)" "consume validate ins ms d1 = (Inr (), d')"
proof -
  obtain d1 where d1: "consume_message validate ins m d = (Inr (), d1)"
    using consume_message_returns [of validate ins m d] by (elim exE)
  with assms have "consume validate ins ms d1 = (Inr (), d')" by (simp add: seq_def)
  with d1 show thesis by (rule that)
qed

locale audit_store = keyed_table ins rows row_key
  for ins :: "audit_row \<Rightarrow> 'd \<Rightarrow> (string + unit) \<times> 'd" and rows :: "'d \<Rightarrow> audit_row list"
begin

lemma message_invalid:
  "validate m = None \<Longrightarrow> consume_message validate ins m d = (Inr (), d') \<Longrightarrow> d' = d"
  by (simp add: consume_message_def try_except_def)

lemma message_insert:
  assumes "validate m = Some e" and "consume_message validate ins m d = (Inr (), d')"
  obtains x where "ins (row_of e) d = (x, d')"
  using assms by (auto simp: consume_message_def try_except_def persist_def split: prod.splits sum.splits)

lemma message_keeps:
  assumes "consume_message validate ins m d = (Inr (), d')"
  shows "prefix (rows d) (rows d')" and "distinct (map row_key (rows d)) \<Longrightarrow> distinct (map row_key (rows d'))"
    and "set (rows d') \<subseteq> set (rows d) \<union> {row_of e |e. validate m = Some e}"
proof -
  show "prefix (rows d) (rows d')"
    by (cases "validate m")
      (use assms in \<open>auto dest: message_invalid elim!: message_insert dest!: insert_keeps\<close>)
  show "distinct (map row_key (rows d')) " if "distinct (map row_key (rows d))"
    by (cases "validate m")
      (use assms that in \<open>auto dest: message_invalid elim!: message_insert dest!: insert_distinct\<close>)
  show "set (rows d') \<subseteq> set (rows d) \<union> {row_of e |e. validate m = Some e}"
    by (cases "validate m")
      (use assms in \<open>auto dest: message_invalid elim!: message_insert dest!: insert_any split: if_splits\<close>)
qed

lemma consume_keeps:
  assumes "consume validate ins ms d = (Inr (), d')"
  shows "prefix (rows d) (rows d')" and "distinct (map row_key (rows d)) \<Longrightarrow> distinct (map row_key (rows d'))"
    and "set (rows d') \<subseteq> set (rows d) \<union> {row_of e |e m. m \<in> set ms \<and> validate m = Some e}"
proof -
  have "prefix (rows d) (rows d') \<and> (distinct (map row_key (rows d)) \<longrightarrow> distinct (map row_key (rows d'))) \<and>
    set (rows d') \<subseteq> set (rows d) \<union> {row_of e |e m. m \<in> set ms \<and> validate m = Some e}"
    using assms
  proof (induction ms arbitrary: d)
    case Nil
    then show ?case by simp
  next
    case (Cons m ms)
    obtain d1 where d1: "consume_message validate ins m d = (Inr (), d1)" "consume validate ins ms d1 = (Inr (), d')"
      using Cons.prems by (rule consume_Cons)
    note k = message_keeps [OF d1(1)] and IH = Cons.IH [OF d1(2)]
    have "prefix (rows d) (rows d')" using k(1) IH prefix_order.trans by blast
    moreover have "set (rows d') \<subseteq> set (rows d) \<union> {row_of e |e m'. m' \<in> set (m # ms) \<and> validate m' = Some e}"
      using k(3) IH by fastforce
    ultimately show ?case using k(2) IH by blast
  qed
  then show "prefix (rows d) (rows d')" "distinct (map row_key (rows d)) \<Longrightarrow> distinct (map row_key (rows d'))"
    "set (rows d') \<subseteq> set (rows d) \<union> {row_of e |e m. m \<in> set ms \<and> validate m = Some e}" by blast+
qed

text \<open>When no insert fails, every valid message ends up in the table, and a redelivery changes nothing.\<close>

lemma consume_complete:
  assumes ok: "\<forall>r d. isl (fst (ins r d)) = False"
  shows "consume validate ins ms d = (Inr (), d') \<Longrightarrow> m \<in> set ms \<Longrightarrow> validate m = Some e \<Longrightarrow>
    ae_event_id e \<in> row_key ` set (rows d')"
proof (induction ms arbitrary: d)
  case Nil
  then show ?case by simp
next
  case (Cons m0 ms)
  obtain d1 where d1: "consume_message validate ins m0 d = (Inr (), d1)" "consume validate ins ms d1 = (Inr (), d')"
    using Cons.prems(1) by (rule consume_Cons)
  show ?case
  proof (cases "m = m0")
    case True
    then obtain x where x: "ins (row_of e) d = (x, d1)"
      using message_insert [OF _ d1(1)] Cons.prems(3) by blast
    then obtain u where "x = Inr u" using ok by (metis fst_conv isl_def old.sum.exhaust)
    with x have "rows d1 = (if row_key (row_of e) \<in> row_key ` set (rows d) then rows d else rows d @ [row_of e])"
      using insert_ok [of "row_of e" d d1] by simp
    then have "row_key (row_of e) \<in> row_key ` set (rows d1)" by (auto split: if_splits)
    moreover have "row_key (row_of e) = ae_event_id e" by (simp add: row_key_def row_of_def)
    moreover have "set (rows d1) \<subseteq> set (rows d')"
      using consume_keeps(1) [OF d1(2)] by (rule set_mono_prefix)
    ultimately show ?thesis by auto
  next
    case False
    with Cons.IH [OF d1(2)] Cons.prems show ?thesis by simp
  qed
qed

lemma consume_known:
  "consume validate ins ms d = (Inr (), d') \<Longrightarrow>
    \<forall>m\<in>set ms. \<forall>e. validate m = Some e \<longrightarrow> ae_event_id e \<in> row_key ` set (rows d) \<Longrightarrow> rows d' = rows d"
proof (induction ms arbitrary: d)
  case Nil
  then show ?case by simp
next
  case (Cons m ms)
  obtain d1 where d1: "consume_message validate ins m d = (Inr (), d1)" "consume validate ins ms d1 = (Inr (), d')"
    using Cons.prems(1) by (rule consume_Cons)
  have "rows d1 = rows d"
  proof (cases "validate m")
    case None
    then show ?thesis using message_invalid [OF _ d1(1)] by simp
  next
    case (Some e)
    then obtain x where "ins (row_of e) d = (x, d1)" using message_insert [OF _ d1(1)] by blast
    moreover have "row_key (row_of e) \<in> row_key ` set (rows d)"
      using Cons.prems(2) Some by (simp add: row_key_def row_of_def)
    ultimately show ?thesis by (rule insert_known)
  qed
  with Cons.IH [OF d1(2)] Cons.prems(2) show ?case by simp
qed

end

section \<open>The query text\<close>

text \<open>The filters that are set, with the left side of their condition and their value.\<close>

definition active_filters :: "event_filter \<Rightarrow> (string \<times> sqlparam) list" where
  "active_filters f = List.map_filter (\<lambda>(lhs, v). map_option (Pair lhs) v)
     [(''agent_id = '', map_option PStr (nonempty (ef_agent_id f))),
      (''action LIKE '', map_option (\<lambda>a. PStr (a @ ''%'')) (nonempty (ef_action f))),
      (''decision = '', map_option (\<lambda>d. PStr (str_upper d)) (nonempty (ef_decision f))),
      (''timestamp >= '', map_option PTime (ef_since f)),
      (''timestamp <= '', map_option PTime (ef_until f))]"

definition condition_texts :: "string list \<Rightarrow> string list" where
  "condition_texts lhss = map2 (\<lambda>lhs i. lhs @ ''$'' @ str_int (int i)) lhss [1..<Suc (length lhss)]"

text \<open>The whole text from the left sides alone.\<close>

definition query_text :: "string list \<Rightarrow> string" where
  "query_text lhss =
     (let nl = CHR 0x0A # replicate 8 (CHR '' ''); n = int (length lhss);
          where_clause = (if lhss = [] then [] else ''WHERE '' @ str_join '' AND '' (condition_texts lhss))
      in nl @ ''SELECT * FROM audit_events'' @ nl @ where_clause @ nl @ ''ORDER BY timestamp DESC'' @ nl @
         ''LIMIT $'' @ str_int (n + 1) @ '' OFFSET $'' @ str_int (n + 2) @ CHR 0x0A # replicate 4 (CHR '' ''))"

definition conditions_of :: "(string \<times> sqlparam) list \<Rightarrow> string list \<times> sqlparam list \<times> int" where
  "conditions_of fs = (condition_texts (map fst fs), map snd fs, int (length fs) + 1)"

lemma condition_texts_snoc:
  "condition_texts (lhss @ [lhs]) = condition_texts lhss @ [lhs @ ''$'' @ str_int (int (length lhss) + 1)]"
proof -
  have "[1..<Suc (length (lhss @ [lhs]))] = [1..<Suc (length lhss)] @ [Suc (length lhss)]"
    by simp
  then show ?thesis unfolding condition_texts_def by (simp add: add.commute del: upt_Suc)
qed

lemma add_condition_of:
  "add_condition lhs v (conditions_of fs) = conditions_of (fs @ (case v of None \<Rightarrow> [] | Some p \<Rightarrow> [(lhs, p)]))"
  by (simp add: add_condition_def conditions_of_def condition_texts_snoc split: option.splits)

lemma conditions_of_Nil: "([], [], 1) = conditions_of []"
  by (simp add: conditions_of_def condition_texts_def)

lemma active_filters_append:
  "active_filters f =
     (((([] @ (case map_option PStr (nonempty (ef_agent_id f)) of None \<Rightarrow> [] | Some p \<Rightarrow> [(''agent_id = '', p)]))
      @ (case map_option (\<lambda>a. PStr (a @ ''%'')) (nonempty (ef_action f)) of None \<Rightarrow> [] | Some p \<Rightarrow> [(''action LIKE '', p)]))
      @ (case map_option (\<lambda>d. PStr (str_upper d)) (nonempty (ef_decision f)) of None \<Rightarrow> [] | Some p \<Rightarrow> [(''decision = '', p)]))
      @ (case map_option PTime (ef_since f) of None \<Rightarrow> [] | Some p \<Rightarrow> [(''timestamp >= '', p)]))
      @ (case map_option PTime (ef_until f) of None \<Rightarrow> [] | Some p \<Rightarrow> [(''timestamp <= '', p)])"
  by (simp add: active_filters_def List.map_filter_simps split: option.splits)

lemma build_query_eq:
  "build_query f = (query_text (map fst (active_filters f)),
     map snd (active_filters f) @ [PInt (ef_limit f), PInt (ef_offset f)])"
proof -
  have "condition_texts xs = [] \<longleftrightarrow> xs = []" for xs by (cases xs) (simp_all add: condition_texts_def)
  then show ?thesis
    unfolding build_query_def Let_def conditions_of_Nil add_condition_of active_filters_append [symmetric]
    by (simp add: conditions_of_def query_text_def Let_def)
qed

end
