(* ===== verification/Token_Manager.thy ===== *)
theory Token_Manager
  imports Complex_Main Http_Client
begin

text \<open>
  \<open>identity/token_manager.py\<close>: RFC 7523 token acquisition with a cached token. The clock, \<open>uuid4\<close>,
  \<open>jose.jwt.encode\<close> and Keycloak are parameters over a world \<open>'h\<close>; a time is a rational number of
  seconds. \<open>generate_rsa_keypair\<close> (the cryptography package) is a parameter of the provisioner.
\<close>

section \<open>State\<close>

record 'h token_services =
  tk_time :: "'h \<Rightarrow> rat \<times> 'h"
  tk_uuid :: "'h \<Rightarrow> string \<times> 'h"
  tk_encode :: "json \<Rightarrow> string option \<Rightarrow> exn + string"   \<comment> \<open>the payload and the key, RS256\<close>
  tk_http :: "'h http"

record token_manager =
  tm_agent_id :: string
  tm_settings :: settings
  tm_token_endpoint :: string
  tm_private_key_pem :: "string option"
  tm_cached_token :: json
  tm_token_expires_at :: rat

definition token_endpoint_of :: "settings \<Rightarrow> string" where
  "token_endpoint_of cfg = cfg_keycloak_url cfg @ ''/realms/'' @ cfg_keycloak_realm cfg @
     ''/protocol/openid-connect/token''"

definition token_manager_init :: "string \<Rightarrow> settings \<Rightarrow> token_manager" where
  "token_manager_init agent cfg = \<lparr>tm_agent_id = agent, tm_settings = cfg,
     tm_token_endpoint = token_endpoint_of cfg, tm_private_key_pem = None, tm_cached_token = JNull,
     tm_token_expires_at = 0\<rparr>"

text \<open>\<open>load_key_from_file\<close> reads the file and does the same.\<close>

definition load_key_from_string :: "string \<Rightarrow> token_manager \<Rightarrow> token_manager" where
  "load_key_from_string pem tm = tm\<lparr>tm_private_key_pem := Some pem\<rparr>"

definition load_key_from_file ::
  "(string \<Rightarrow> 'h \<Rightarrow> (exn + string) \<times> 'h) \<Rightarrow> string \<Rightarrow> (token_manager \<times> 'h, unit) comp" where
  "load_key_from_file read_text path = (\<lambda>(tm, h). case read_text path h of
       (Inl e, h') \<Rightarrow> (Inl e, (tm, h'))
     | (Inr pem, h') \<Rightarrow> (Inr (), (load_key_from_string pem tm, h')))"

section \<open>Acquisition\<close>

text \<open>\<open>int(t)\<close>.\<close>

definition py_int :: "rat \<Rightarrow> int" where
  "py_int t = (if 0 \<le> t then floor t else ceiling t)"

definition assertion_payload :: "token_manager \<Rightarrow> string \<Rightarrow> string \<Rightarrow> string \<Rightarrow> int \<Rightarrow> string \<Rightarrow> json" where
  "assertion_payload tm task env ip now jti = JObj
     [(''iss'', JStr (tm_agent_id tm)), (''sub'', JStr (tm_agent_id tm)),
      (''aud'', JStr (tm_token_endpoint tm)), (''iat'', JInt now),
      (''exp'', JInt (now + cfg_assertion_ttl_seconds (tm_settings tm))), (''jti'', JStr jti),
      (''agent_context'', JObj [(''task_id'', JStr task), (''environment'', JStr env), (''source_ip'', JStr ip)])]"

definition build_assertion ::
  "'h token_services \<Rightarrow> token_manager \<Rightarrow> string \<Rightarrow> string \<Rightarrow> string \<Rightarrow> ('h, string) comp" where
  "build_assertion S tm task env ip =
     seq (observe (tk_time S)) (\<lambda>t.
     seq (observe (tk_uuid S)) (\<lambda>jti.
     lift_result (tk_encode S (assertion_payload tm task env ip (py_int t) jti) (tm_private_key_pem tm))))"

definition JWT_BEARER_GRANT :: string where
  "JWT_BEARER_GRANT = ''urn:ietf:params:oauth:grant-type:jwt-bearer''"

definition token_request :: "token_manager \<Rightarrow> string \<Rightarrow> http_request" where
  "token_request tm assertion = \<lparr>hq_method = ''POST'', hq_url = tm_token_endpoint tm, hq_headers = [],
     hq_params = [], hq_body = JObj [(''grant_type'', JStr JWT_BEARER_GRANT),
       (''assertion'', JStr assertion), (''client_id'', JStr (tm_agent_id tm))]\<rparr>"

definition token_of_response :: "http_response \<Rightarrow> ('h, json) comp" where
  "token_of_response resp =
     (if hr_status resp \<noteq> 200
      then throw (TokenAcquisitionError (''Keycloak returned '' @ str_int (hr_status resp) @ '': '' @ hr_text resp))
      else seq (response_json resp) (\<lambda>body. lift_result (json_item body ''access_token'')))"

definition acquire_token ::
  "'h token_services \<Rightarrow> token_manager \<Rightarrow> string \<Rightarrow> string \<Rightarrow> string \<Rightarrow> ('h, json) comp" where
  "acquire_token S tm task env ip =
     (if tm_private_key_pem tm = None \<or> tm_private_key_pem tm = Some ''''
      then throw (RuntimeError ''Private key not loaded. Call load_key_from_file() first.'')
      else seq (build_assertion S tm task env ip) (\<lambda>assertion.
           seq (http_call (tk_http S) (token_request tm assertion)) token_of_response))"

text \<open>The test of the cache; \<open>and\<close> reads the clock only when there is a token.\<close>

definition cache_valid :: "'h token_services \<Rightarrow> token_manager \<Rightarrow> 'h \<Rightarrow> bool \<times> 'h" where
  "cache_valid S tm h =
     (if truthy (tm_cached_token tm)
      then (case tk_time S h of (t, h') \<Rightarrow> (t < tm_token_expires_at tm - 30, h'))
      else (False, h))"

definition get_token ::
  "'h token_services \<Rightarrow> string \<Rightarrow> string \<Rightarrow> string \<Rightarrow> (token_manager \<times> 'h, json) comp" where
  "get_token S task env ip = (\<lambda>(tm, h). case cache_valid S tm h of
       (True, h1) \<Rightarrow> (Inr (tm_cached_token tm), (tm, h1))
     | (False, h1) \<Rightarrow> (case acquire_token S tm task env ip h1 of
           (Inl e, h2) \<Rightarrow> (Inl e, (tm, h2))
         | (Inr token, h2) \<Rightarrow> (case tk_time S h2 of (t, h3) \<Rightarrow>
             (Inr token, (tm\<lparr>tm_cached_token := token,
                tm_token_expires_at := t + of_int (cfg_token_ttl_seconds (tm_settings tm))\<rparr>, h3)))))"

section \<open>Introspection\<close>

definition introspect_endpoint :: "token_manager \<Rightarrow> string" where
  "introspect_endpoint tm = str_replace ''/token'' ''/introspect'' (tm_token_endpoint tm)"

definition introspect_payload :: "token_manager \<Rightarrow> int \<Rightarrow> string \<Rightarrow> json" where
  "introspect_payload tm now jti = JObj
     [(''iss'', JStr (tm_agent_id tm)), (''sub'', JStr (tm_agent_id tm)),
      (''aud'', JStr (introspect_endpoint tm)), (''iat'', JInt now), (''exp'', JInt (now + 30)), (''jti'', JStr jti)]"

definition build_introspect_assertion :: "'h token_services \<Rightarrow> token_manager \<Rightarrow> ('h, string) comp" where
  "build_introspect_assertion S tm =
     seq (observe (tk_time S)) (\<lambda>t.
     seq (observe (tk_uuid S)) (\<lambda>jti.
     lift_result (tk_encode S (introspect_payload tm (py_int t) jti) (tm_private_key_pem tm))))"

definition introspect_request :: "token_manager \<Rightarrow> json \<Rightarrow> string \<Rightarrow> http_request" where
  "introspect_request tm token assertion = \<lparr>hq_method = ''POST'', hq_url = introspect_endpoint tm,
     hq_headers = [], hq_params = [], hq_body = JObj [(''token'', token), (''client_id'', JStr (tm_agent_id tm)),
       (''client_assertion_type'', JStr ''urn:ietf:params:oauth:client-assertion-type:jwt-bearer''),
       (''client_assertion'', JStr assertion)]\<rparr>"

definition introspect :: "'h token_services \<Rightarrow> token_manager \<Rightarrow> json \<Rightarrow> ('h, json) comp" where
  "introspect S tm token =
     seq (build_introspect_assertion S tm) (\<lambda>assertion.
     seq (http_call (tk_http S) (introspect_request tm token assertion)) (\<lambda>resp.
     seq (raise_for_status resp) (\<lambda>_. response_json resp)))"

section \<open>Facts\<close>

lemma get_token_cached:
  assumes "truthy (tm_cached_token tm)" and "tk_time S h = (t, h')" and "t < tm_token_expires_at tm - 30"
  shows "get_token S task env ip (tm, h) = (Inr (tm_cached_token tm), (tm, h'))"
  using assms by (simp add: get_token_def cache_valid_def)

lemma get_token_cases:
  assumes "get_token S task env ip (tm, h) = (r, (tm', h'))"
  obtains (cached) t where "truthy (tm_cached_token tm)" "tk_time S h = (t, h')" "t < tm_token_expires_at tm - 30"
      "r = Inr (tm_cached_token tm)" "tm' = tm"
  | (failed) h1 e where "cache_valid S tm h = (False, h1)" "acquire_token S tm task env ip h1 = (Inl e, h')"
      "r = Inl e" "tm' = tm"
  | (acquired) h1 h2 token t where "cache_valid S tm h = (False, h1)"
      "acquire_token S tm task env ip h1 = (Inr token, h2)" "tk_time S h2 = (t, h')" "r = Inr token"
      "tm' = tm\<lparr>tm_cached_token := token,
         tm_token_expires_at := t + of_int (cfg_token_ttl_seconds (tm_settings tm))\<rparr>"
proof -
  obtain b h1 where c: "cache_valid S tm h = (b, h1)" by fastforce
  show thesis
  proof (cases b)
    case True
    with c obtain t where t: "truthy (tm_cached_token tm)" "tk_time S h = (t, h1)" "t < tm_token_expires_at tm - 30"
      by (auto simp: cache_valid_def split: if_splits prod.splits)
    have "get_token S task env ip (tm, h) = (Inr (tm_cached_token tm), (tm, h1))" using c True by (simp add: get_token_def)
    from trans [OF sym [OF assms] this] have "r = Inr (tm_cached_token tm)" "tm' = tm" "h' = h1" by blast+
    with t that(1) show thesis by blast
  next
    case False
    obtain x h2 where a: "acquire_token S tm task env ip h1 = (x, h2)" by fastforce
    obtain t h3 where t: "tk_time S h2 = (t, h3)" by fastforce
    show thesis
    proof (cases x)
      case (Inl e)
      with c False a have "get_token S task env ip (tm, h) = (Inl e, (tm, h2))" by (simp add: get_token_def)
      from trans [OF sym [OF assms] this] have "r = Inl e" "tm' = tm" "h' = h2" by blast+
      with c False a Inl show thesis by (intro that(2)) simp_all
    next
      case (Inr token)
      with c False a t have "get_token S task env ip (tm, h) = (Inr token, (tm\<lparr>tm_cached_token := token,
         tm_token_expires_at := t + of_int (cfg_token_ttl_seconds (tm_settings tm))\<rparr>, h3))"
        by (simp add: get_token_def)
      from trans [OF sym [OF assms] this] have "r = Inr token" "h' = h3" "tm' = tm\<lparr>tm_cached_token := token,
         tm_token_expires_at := t + of_int (cfg_token_ttl_seconds (tm_settings tm))\<rparr>" by blast+
      with c False a Inr t show thesis by (intro that(3)) simp_all
    qed
  qed
qed

text \<open>A token that was acquired came from Keycloak's answer to the assertion for exactly this task.\<close>

lemma acquire_token_returns:
  assumes "acquire_token S tm task env ip h = (Inr token, h')"
  obtains t h1 jti h2 assertion resp body where "tk_time S h = (t, h1)" "tk_uuid S h1 = (jti, h2)"
    "tk_encode S (assertion_payload tm task env ip (py_int t) jti) (tm_private_key_pem tm) = Inr assertion"
    "tk_http S (token_request tm assertion) h2 = (Inr resp, h')" "hr_status resp = 200"
    "hr_json resp = Some (JObj body)" "dict_get body ''access_token'' = Some token"
proof -
  obtain t h1 where t: "tk_time S h = (t, h1)" by fastforce
  obtain jti h2 where u: "tk_uuid S h1 = (jti, h2)" by fastforce
  obtain assertion where a: "tk_encode S (assertion_payload tm task env ip (py_int t) jti) (tm_private_key_pem tm) = Inr assertion"
    using assms t u by (cases "tk_encode S (assertion_payload tm task env ip (py_int t) jti) (tm_private_key_pem tm)")
      (auto simp: acquire_token_def build_assertion_def seq_def observe_def throw_def split: if_splits)
  obtain x h3 where x: "tk_http S (token_request tm assertion) h2 = (x, h3)" by fastforce
  have run: "(case x of Inl m \<Rightarrow> (Inl (OtherError ''RequestError'' m), h3) | Inr r \<Rightarrow> token_of_response r h3) = (Inr token, h')"
    using assms t u a x
    by (auto simp: acquire_token_def build_assertion_def seq_def observe_def throw_def ret_def http_call_def
        split: if_splits sum.splits)
  then obtain resp where r: "x = Inr resp" "token_of_response resp h3 = (Inr token, h')" by (cases x) simp_all
  then have "h3 = h'" "hr_status resp = 200 \<and> (\<exists>body. hr_json resp = Some (JObj body) \<and> dict_get body ''access_token'' = Some token)"
    by (auto simp: token_of_response_def response_json_def seq_def throw_def ret_def json_item_def lift_result_def
        split: if_splits option.splits json.splits)
  with t u a x r that show thesis by blast
qed

end
