(* ===== verification/Tool_Registry.thy ===== *)
theory Tool_Registry
  imports Sentinel_Prelude
begin

text \<open>\<open>agents/base/tool_registry.py\<close>: the tool catalog, and its part an agent's scopes grant.\<close>

datatype risk_level = LOW | MEDIUM | HIGH

record tool_spec =
  ts_name :: string
  ts_action :: string
  ts_required_scope :: string
  ts_risk_level :: risk_level
  ts_destructive :: bool

definition tool :: "string \<Rightarrow> string \<Rightarrow> string \<Rightarrow> risk_level \<Rightarrow> bool \<Rightarrow> tool_spec" where
  "tool name act scope risk destructive = \<lparr>ts_name = name, ts_action = act, ts_required_scope = scope,
     ts_risk_level = risk, ts_destructive = destructive\<rparr>"

definition TOOL_CATALOG :: "(string \<times> tool_spec) list" where
  "TOOL_CATALOG =
     [(''s3_list_buckets'', tool ''List S3 Buckets'' ''s3:ListBuckets'' ''cloud:s3:list'' LOW False),
      (''s3_get_object'', tool ''Get S3 Object'' ''s3:GetObject'' ''cloud:s3:read'' LOW False),
      (''s3_put_object'', tool ''Put S3 Object'' ''s3:PutObject'' ''cloud:s3:write'' MEDIUM False),
      (''s3_delete_object'', tool ''Delete S3 Object'' ''s3:DeleteObject'' ''cloud:s3:delete'' HIGH True),
      (''s3_delete_bucket'', tool ''Delete S3 Bucket'' ''s3:DeleteBucket'' ''cloud:s3:delete'' HIGH True),
      (''ec2_describe_instances'',
         tool ''Describe EC2 Instances'' ''ec2:DescribeInstances'' ''cloud:ec2:describe'' LOW False),
      (''ec2_describe_security_groups'',
         tool ''Describe Security Groups'' ''ec2:DescribeSecurityGroups'' ''cloud:ec2:describe'' LOW False),
      (''ec2_terminate_instance'',
         tool ''Terminate EC2 Instance'' ''ec2:TerminateInstances'' ''cloud:ec2:terminate'' HIGH True),
      (''iam_list_roles'', tool ''List IAM Roles'' ''iam:ListRoles'' ''cloud:iam:read'' LOW False),
      (''iam_create_role'', tool ''Create IAM Role'' ''iam:CreateRole'' ''cloud:iam:create-role'' HIGH False),
      (''securityhub_get_findings'',
         tool ''Get Security Findings'' ''securityhub:GetFindings'' ''cloud:securityhub:read'' LOW False)]"

type_synonym tool_registry = "(string \<times> tool_spec) list"

definition registry_init :: "string list \<Rightarrow> tool_registry" where
  "registry_init granted_scopes = filter (\<lambda>(key, spec). ts_required_scope spec \<in> set granted_scopes) TOOL_CATALOG"

definition available_tools :: "tool_registry \<Rightarrow> string list" where
  "available_tools r = map fst r"

definition registry_get :: "tool_registry \<Rightarrow> string \<Rightarrow> exn + tool_spec" where
  "registry_get r key = (case dict_get r key of
       Some spec \<Rightarrow> Inr spec
     | None \<Rightarrow> Inl (ToolNotAvailableError (''Tool '' @ [CHR 0x27] @ key @ [CHR 0x27] @
         '' is not available to this agent. Available: '' @ py_repr (JList (map JStr (available_tools r))))))"

lemma catalog_keys: "distinct (map fst TOOL_CATALOG)"
  by code_simp

lemma registry_get_Inr:
  assumes "registry_get (registry_init scopes) key = Inr spec"
  shows "(key, spec) \<in> set TOOL_CATALOG" and "ts_required_scope spec \<in> set scopes"
proof -
  have "map_of (registry_init scopes) key = Some spec"
    using assms by (simp add: registry_get_def dict_get_def split: option.splits)
  from map_of_SomeD [OF this] show "(key, spec) \<in> set TOOL_CATALOG" "ts_required_scope spec \<in> set scopes"
    by (auto simp: registry_init_def)
qed

lemma registry_get_granted:
  assumes "(key, spec) \<in> set TOOL_CATALOG" and "ts_required_scope spec \<in> set scopes"
  shows "registry_get (registry_init scopes) key = Inr spec"
proof -
  have "distinct (map fst (registry_init scopes))"
    unfolding registry_init_def by (rule distinct_map_filter [OF catalog_keys])
  moreover have "(key, spec) \<in> set (registry_init scopes)" using assms by (simp add: registry_init_def)
  ultimately have "map_of (registry_init scopes) key = Some spec" by (rule map_of_is_SomeI)
  then show ?thesis by (simp add: registry_get_def dict_get_def)
qed

text \<open>No key of the catalog has a colon, and every policy action has one.\<close>

lemma catalog_actions: "list_all (\<lambda>x. CHR '':'' \<notin> set (fst x) \<and> CHR '':'' \<in> set (ts_action (snd x))) TOOL_CATALOG"
  by code_simp

end
