(* ===== verification/Identity_Manifest.thy ===== *)
theory Identity_Manifest
  imports Http_Client Py_Datetime
begin

text \<open>
  \<open>identity/manifest_schema.py\<close>: the identity manifest and its validation. pydantic's reading of a
  \<open>str\<close> and of an \<open>int\<close> field is the parameter \<open>pyd\<close>; bounds, patterns, enumerations, defaults, aliases and the
  validators are the schema's. \<^const>\<open>None\<close> stands for a \<open>ValidationError\<close>.
\<close>

section \<open>Data\<close>

datatype agent_kind = INFRA | DATA | SECOPS | PROVISIONER

fun agent_kind_value :: "agent_kind \<Rightarrow> string" where
  "agent_kind_value INFRA = ''InfraAgent''"
| "agent_kind_value DATA = ''DataAgent''"
| "agent_kind_value SECOPS = ''SecOpsAgent''"
| "agent_kind_value PROVISIONER = ''ProvisionerAgent''"

datatype rotation_policy = AUTOMATIC | MANUAL

record time_window =
  tw_start_hour_utc :: int
  tw_end_hour_utc :: int

record context_bindings =
  cb_environments :: "string list"
  cb_time_window :: "time_window option"
  cb_source_networks :: "string list"
  cb_max_actions_per_minute :: int

record approval_trigger =
  at_risk_level :: "string option"
  at_action_patterns :: "string list"

record identity_spec =
  is_agent_type :: agent_kind
  is_owner_team :: string
  is_owner_contact :: string
  is_credential_ttl_days :: int
  is_rotation_policy :: rotation_policy
  is_rotation_days_before_expiry :: int
  is_scopes :: "string list"
  is_allowed_resource_patterns :: "string list"
  is_blocked_resource_patterns :: "string list"
  is_context_bindings :: context_bindings
  is_approval_required_for :: "approval_trigger list"

record identity_metadata =
  im_name :: string
  im_namespace :: string
  im_labels :: "(string \<times> string) list"

record identity_manifest =
  mf_api_version :: string
  mf_kind :: string
  mf_metadata :: identity_metadata
  mf_spec :: identity_spec

datatype identity_state = PENDING_APPROVAL | ACTIVE | EXPIRING | EXPIRED | SUSPENDED | REVOKED

record active_identity_record =
  ir_identity_id :: string
  ir_agent_type :: agent_kind
  ir_owner_team :: string
  ir_state :: identity_state
  ir_keycloak_client_id :: string
  ir_vault_path :: string
  ir_manifest_git_sha :: string
  ir_created_at :: instant
  ir_expires_at :: instant
  ir_last_attested_at :: "instant option"
  ir_scopes :: "string list"

section \<open>Reading fields\<close>

record pyd =
  as_str :: "json \<Rightarrow> string option"
  as_int :: "json \<Rightarrow> int option"

definition required :: "pydict \<Rightarrow> string \<Rightarrow> (json \<Rightarrow> 'a option) \<Rightarrow> 'a option" where
  "required d k f = Option.bind (dict_get d k) f"

definition defaulted :: "pydict \<Rightarrow> string \<Rightarrow> 'a \<Rightarrow> (json \<Rightarrow> 'a option) \<Rightarrow> 'a option" where
  "defaulted d k x f = (case dict_get d k of None \<Rightarrow> Some x | Some v \<Rightarrow> f v)"

definition nullable :: "(json \<Rightarrow> 'a option) \<Rightarrow> json \<Rightarrow> 'a option option" where
  "nullable f v = (if v = JNull then Some None else map_option Some (f v))"

definition as_list :: "(json \<Rightarrow> 'a option) \<Rightarrow> json \<Rightarrow> 'a list option" where
  "as_list f v = (case v of JList xs \<Rightarrow> those (map f xs) | _ \<Rightarrow> None)"

definition as_obj :: "(pydict \<Rightarrow> 'a option) \<Rightarrow> json \<Rightarrow> 'a option" where
  "as_obj f v = (case v of JObj d \<Rightarrow> f d | _ \<Rightarrow> None)"

definition as_str_dict :: "pyd \<Rightarrow> json \<Rightarrow> (string \<times> string) list option" where
  "as_str_dict Y = as_obj (\<lambda>d. those (map (\<lambda>(k, v). map_option (Pair k) (as_str Y v)) d))"

definition int_within :: "pyd \<Rightarrow> (int \<Rightarrow> bool) \<Rightarrow> json \<Rightarrow> int option" where
  "int_within Y P v = Option.bind (as_int Y v) (\<lambda>n. if P n then Some n else None)"

section \<open>Validation\<close>

definition validate_agent_type :: "json \<Rightarrow> agent_kind option" where
  "validate_agent_type v = find (\<lambda>k. v = JStr (agent_kind_value k)) [INFRA, DATA, SECOPS, PROVISIONER]"

definition validate_rotation_policy :: "json \<Rightarrow> rotation_policy option" where
  "validate_rotation_policy v =
     (if v = JStr ''automatic'' then Some AUTOMATIC else if v = JStr ''manual'' then Some MANUAL else None)"

definition validate_time_window :: "pyd \<Rightarrow> json \<Rightarrow> time_window option" where
  "validate_time_window Y = as_obj (\<lambda>d.
     Option.bind (required d ''start_hour_utc'' (int_within Y (\<lambda>n. 0 \<le> n \<and> n \<le> 23))) (\<lambda>s.
     Option.bind (required d ''end_hour_utc'' (int_within Y (\<lambda>n. 0 \<le> n \<and> n \<le> 23))) (\<lambda>e.
     Some \<lparr>tw_start_hour_utc = s, tw_end_hour_utc = e\<rparr>)))"

definition validate_context_bindings :: "pyd \<Rightarrow> json \<Rightarrow> context_bindings option" where
  "validate_context_bindings Y = as_obj (\<lambda>d.
     Option.bind (required d ''environments'' (as_list (as_str Y))) (\<lambda>envs.
     Option.bind (defaulted d ''time_window'' None (nullable (validate_time_window Y))) (\<lambda>tw.
     Option.bind (defaulted d ''source_networks'' [] (as_list (as_str Y))) (\<lambda>nets.
     Option.bind (defaulted d ''max_actions_per_minute'' 30 (int_within Y (\<lambda>n. 0 < n))) (\<lambda>m.
     Some \<lparr>cb_environments = envs, cb_time_window = tw, cb_source_networks = nets, cb_max_actions_per_minute = m\<rparr>)))))"

definition validate_approval_trigger :: "pyd \<Rightarrow> json \<Rightarrow> approval_trigger option" where
  "validate_approval_trigger Y = as_obj (\<lambda>d.
     Option.bind (defaulted d ''risk_level'' None (nullable (as_str Y))) (\<lambda>r.
     Option.bind (defaulted d ''action_patterns'' [] (as_list (as_str Y))) (\<lambda>ps.
     Some \<lparr>at_risk_level = r, at_action_patterns = ps\<rparr>)))"

definition scopes_must_be_namespaced :: "string list \<Rightarrow> string list option" where
  "scopes_must_be_namespaced v = (if list_all (\<lambda>scope. CHR '':'' \<in> set scope) v then Some v else None)"

definition validate_spec :: "pyd \<Rightarrow> json \<Rightarrow> identity_spec option" where
  "validate_spec Y = as_obj (\<lambda>d.
     Option.bind (required d ''agent_type'' validate_agent_type) (\<lambda>kind.
     Option.bind (required d ''owner_team'' (as_str Y)) (\<lambda>team.
     Option.bind (required d ''owner_contact'' (as_str Y)) (\<lambda>contact.
     Option.bind (defaulted d ''credential_ttl_days'' 90 (int_within Y (\<lambda>n. 0 < n \<and> n \<le> 365))) (\<lambda>ttl.
     Option.bind (defaulted d ''rotation_policy'' AUTOMATIC validate_rotation_policy) (\<lambda>rot.
     Option.bind (defaulted d ''rotation_days_before_expiry'' 14 (int_within Y (\<lambda>n. 0 < n))) (\<lambda>days.
     Option.bind (Option.bind (defaulted d ''scopes'' [] (as_list (as_str Y))) scopes_must_be_namespaced) (\<lambda>scopes.
     Option.bind (defaulted d ''allowed_resource_patterns'' [] (as_list (as_str Y))) (\<lambda>allowed.
     Option.bind (defaulted d ''blocked_resource_patterns'' [] (as_list (as_str Y))) (\<lambda>blocked.
     Option.bind (required d ''context_bindings'' (validate_context_bindings Y)) (\<lambda>bindings.
     Option.bind (defaulted d ''approval_required_for'' [] (as_list (validate_approval_trigger Y))) (\<lambda>triggers.
     Some \<lparr>is_agent_type = kind, is_owner_team = team, is_owner_contact = contact, is_credential_ttl_days = ttl,
       is_rotation_policy = rot, is_rotation_days_before_expiry = days, is_scopes = scopes,
       is_allowed_resource_patterns = allowed, is_blocked_resource_patterns = blocked,
       is_context_bindings = bindings, is_approval_required_for = triggers\<rparr>))))))))))))"

text \<open>The pattern \<open>^[a-z0-9][a-z0-9\-]{1,61}[a-z0-9]$\<close>.\<close>

definition alnum :: "char \<Rightarrow> bool" where
  "alnum c = (let n = of_char c :: nat in (97 \<le> n \<and> n \<le> 122) \<or> (48 \<le> n \<and> n \<le> 57))"

lemma alnum_chars: "alnum c \<Longrightarrow> c \<in> set ''abcdefghijklmnopqrstuvwxyz0123456789''"
proof -
  assume "alnum c"
  then have "of_char c \<in> set ([97..<123] @ [48..<58 :: nat])"
    unfolding set_append set_upt alnum_def Let_def Un_iff atLeastLessThan_iff by linarith
  moreover have "list_all (\<lambda>n. char_of n \<in> set ''abcdefghijklmnopqrstuvwxyz0123456789'') ([97..<123] @ [48..<58 :: nat])"
    by code_simp
  ultimately have "char_of (of_char c :: nat) \<in> set ''abcdefghijklmnopqrstuvwxyz0123456789''" unfolding list_all_iff by blast
  then show ?thesis unfolding char_of_char .
qed

definition name_matches :: "string \<Rightarrow> bool" where
  "name_matches s \<longleftrightarrow> 3 \<le> length s \<and> length s \<le> 63 \<and> alnum (hd s) \<and> alnum (last s) \<and>
     list_all (\<lambda>c. alnum c \<or> c = CHR ''-'') (tl (butlast s))"

definition validate_metadata :: "pyd \<Rightarrow> json \<Rightarrow> identity_metadata option" where
  "validate_metadata Y = as_obj (\<lambda>d.
     Option.bind (required d ''name'' (as_str Y)) (\<lambda>name.
     Option.bind (if name_matches name then Some name else None) (\<lambda>name.
     Option.bind (required d ''namespace'' (as_str Y)) (\<lambda>ns.
     Option.bind (defaulted d ''labels'' [] (as_str_dict Y)) (\<lambda>labels.
     Some \<lparr>im_name = name, im_namespace = ns, im_labels = labels\<rparr>)))))"

definition kind_must_be_agent_identity :: "string \<Rightarrow> string option" where
  "kind_must_be_agent_identity v = (if v = ''AgentIdentity'' then Some v else None)"

text \<open>\<open>populate_by_name\<close>: the alias \<open>apiVersion\<close>, or else the field's own name.\<close>

definition api_version_field :: "pyd \<Rightarrow> pydict \<Rightarrow> string option" where
  "api_version_field Y d = (case dict_get d ''apiVersion'' of
       Some v \<Rightarrow> as_str Y v
     | None \<Rightarrow> defaulted d ''api_version'' ''nhi-sentinel/v1'' (as_str Y))"

definition validate_manifest :: "pyd \<Rightarrow> json \<Rightarrow> identity_manifest option" where
  "validate_manifest Y = as_obj (\<lambda>d.
     Option.bind (api_version_field Y d) (\<lambda>api.
     Option.bind (case dict_get d ''kind'' of
         None \<Rightarrow> Some ''AgentIdentity''
       | Some v \<Rightarrow> Option.bind (as_str Y v) kind_must_be_agent_identity) (\<lambda>kind.
     Option.bind (required d ''metadata'' (validate_metadata Y)) (\<lambda>meta.
     Option.bind (required d ''spec'' (validate_spec Y)) (\<lambda>spec.
     Some \<lparr>mf_api_version = api, mf_kind = kind, mf_metadata = meta, mf_spec = spec\<rparr>)))))"

section \<open>Well-formed manifests\<close>

definition time_window_ok :: "time_window \<Rightarrow> bool" where
  "time_window_ok t \<longleftrightarrow> 0 \<le> tw_start_hour_utc t \<and> tw_start_hour_utc t \<le> 23 \<and>
     0 \<le> tw_end_hour_utc t \<and> tw_end_hour_utc t \<le> 23"

definition spec_ok :: "identity_spec \<Rightarrow> bool" where
  "spec_ok s \<longleftrightarrow> 0 < is_credential_ttl_days s \<and> is_credential_ttl_days s \<le> 365 \<and>
     0 < is_rotation_days_before_expiry s \<and> list_all (\<lambda>x. CHR '':'' \<in> set x) (is_scopes s) \<and>
     0 < cb_max_actions_per_minute (is_context_bindings s) \<and>
     pred_option time_window_ok (cb_time_window (is_context_bindings s))"

definition manifest_ok :: "identity_manifest \<Rightarrow> bool" where
  "manifest_ok m \<longleftrightarrow> mf_kind m = ''AgentIdentity'' \<and> name_matches (im_name (mf_metadata m)) \<and> spec_ok (mf_spec m)"

lemma name_matches_chars:
  assumes "name_matches s"
  shows "3 \<le> length s" "length s \<le> 63" "hd s \<in> set ''abcdefghijklmnopqrstuvwxyz0123456789''"
    "last s \<in> set ''abcdefghijklmnopqrstuvwxyz0123456789''" "set s \<subseteq> set ''abcdefghijklmnopqrstuvwxyz0123456789-''"
proof -
  let ?A = "set ''abcdefghijklmnopqrstuvwxyz0123456789''" and ?B = "set ''abcdefghijklmnopqrstuvwxyz0123456789-''"
  have m: "3 \<le> length s" "length s \<le> 63" "alnum (hd s)" "alnum (last s)"
    "\<forall>c\<in>set (tl (butlast s)). alnum c \<or> c = CHR ''-''"
    using assms by (simp_all add: name_matches_def list_all_iff)
  have ends: "hd s \<in> ?A" "last s \<in> ?A" using m(3,4) alnum_chars by blast+
  have AB: "?A \<subseteq> ?B" "CHR ''-'' \<in> ?B" by simp_all
  have "butlast s \<noteq> []" "s \<noteq> []" using m(1) by (auto simp: length_0_conv [symmetric] simp del: length_0_conv)
  then have "s = hd s # tl (butlast s) @ [last s]"
    by (metis append_Cons append_butlast_last_id hd_append2 list.collapse)
  then have s: "set s = {hd s, last s} \<union> set (tl (butlast s))" by (auto dest: arg_cong [of _ _ set])
  have "set (tl (butlast s)) \<subseteq> ?B" using m(5) alnum_chars AB by blast
  with ends AB(1) show "set s \<subseteq> ?B" unfolding s by blast
  show "3 \<le> length s" "length s \<le> 63" "hd s \<in> ?A" "last s \<in> ?A" by (rule m ends)+
qed

lemmas validation_simps = bind_eq_Some_conv as_obj_def required_def defaulted_def int_within_def nullable_def

lemma int_within_Some: "int_within Y P v = Some n \<Longrightarrow> P n"
  by (auto simp: validation_simps split: if_splits)

lemma defaulted_within: "defaulted d k x (int_within Y P) = Some n \<Longrightarrow> P x \<Longrightarrow> P n"
  by (auto simp: defaulted_def dest: int_within_Some split: option.splits)

lemma nullable_Some: "nullable f v = Some r \<Longrightarrow> r = None \<or> (\<exists>z. f v = Some z \<and> r = Some z)"
  by (auto simp: nullable_def split: if_splits)

lemma validate_metadata_ok: "validate_metadata Y v = Some m \<Longrightarrow> name_matches (im_name m)"
  by (cases v) (auto simp: validate_metadata_def bind_eq_Some_conv as_obj_def split: if_splits)

lemma validate_time_window_ok: "validate_time_window Y v = Some t \<Longrightarrow> time_window_ok t"
  by (auto simp: validate_time_window_def validation_simps time_window_ok_def split: json.splits if_splits)

lemma validate_context_bindings_ok:
  assumes "validate_context_bindings Y v = Some b"
  shows "0 < cb_max_actions_per_minute b \<and> pred_option time_window_ok (cb_time_window b)"
proof -
  obtain d tw m where b: "defaulted d ''time_window'' None (nullable (validate_time_window Y)) = Some (cb_time_window b)"
    "defaulted d ''max_actions_per_minute'' 30 (int_within Y (\<lambda>n. 0 < n)) = Some (cb_max_actions_per_minute b)"
    using assms by (auto simp: validate_context_bindings_def bind_eq_Some_conv as_obj_def split: json.splits)
  have "pred_option time_window_ok (cb_time_window b)"
    using b(1) by (auto simp: defaulted_def dest!: nullable_Some dest: validate_time_window_ok split: option.splits)
  moreover have "0 < cb_max_actions_per_minute b" by (rule defaulted_within [OF b(2)]) simp
  ultimately show ?thesis by blast
qed

lemma scopes_namespaced: "scopes_must_be_namespaced v = Some s \<Longrightarrow> s = v \<and> list_all (\<lambda>x. CHR '':'' \<in> set x) s"
  by (auto simp: scopes_must_be_namespaced_def split: if_splits)

lemma validate_spec_ok:
  assumes "validate_spec Y v = Some s" shows "spec_ok s"
proof -
  obtain d where d: "defaulted d ''credential_ttl_days'' 90 (int_within Y (\<lambda>n. 0 < n \<and> n \<le> 365)) = Some (is_credential_ttl_days s)"
    "defaulted d ''rotation_days_before_expiry'' 14 (int_within Y (\<lambda>n. 0 < n)) = Some (is_rotation_days_before_expiry s)"
    "Option.bind (defaulted d ''scopes'' [] (as_list (as_str Y))) scopes_must_be_namespaced = Some (is_scopes s)"
    "required d ''context_bindings'' (validate_context_bindings Y) = Some (is_context_bindings s)"
    using assms unfolding validate_spec_def by (auto simp: bind_eq_Some_conv as_obj_def split: json.splits)
  have "list_all (\<lambda>x. CHR '':'' \<in> set x) (is_scopes s)"
    using d(3) scopes_namespaced by (auto simp: bind_eq_Some_conv)
  moreover have "0 < is_credential_ttl_days s \<and> is_credential_ttl_days s \<le> 365" by (rule defaulted_within [OF d(1)]) simp
  moreover have "0 < is_rotation_days_before_expiry s" by (rule defaulted_within [OF d(2)]) simp
  moreover have "0 < cb_max_actions_per_minute (is_context_bindings s) \<and>
      pred_option time_window_ok (cb_time_window (is_context_bindings s))"
    using d(4) validate_context_bindings_ok by (auto simp: required_def bind_eq_Some_conv)
  ultimately show ?thesis by (simp add: spec_ok_def)
qed

lemma validate_manifest_ok:
  assumes "validate_manifest Y v = Some m" shows "manifest_ok m"
proof -
  obtain d where d: "required d ''metadata'' (validate_metadata Y) = Some (mf_metadata m)"
    "required d ''spec'' (validate_spec Y) = Some (mf_spec m)" "mf_kind m = ''AgentIdentity''"
    using assms unfolding validate_manifest_def kind_must_be_agent_identity_def
    by (auto simp: bind_eq_Some_conv as_obj_def split: json.splits option.splits if_splits)
  have "name_matches (im_name (mf_metadata m))"
    using d(1) validate_metadata_ok by (auto simp: required_def bind_eq_Some_conv)
  with d validate_spec_ok show ?thesis by (auto simp: manifest_ok_def required_def bind_eq_Some_conv)
qed

end
