(* ===== verification/Base_Agent.thy ===== *)
theory Base_Agent
  imports Pep Audit_Log Token_Manager Tool_Registry Identity_Manifest
begin

text \<open>
  \<open>agents/base/agent.py\<close>: the state machine every agent runs. One definition per node of the graph,
  the edges of \<open>_build_graph\<close> as \<open>next_node\<close>, the runs as an inductive step relation and as a function.
  LangGraph's \<open>invoke\<close> runs one node after the other along the edges until END, and an exception of
  a node leaves it. The token manager, the registry, the PEP and the audit producer are the models of
  the other theories; the tool handlers are any computations on the cloud.
\<close>

section \<open>State\<close>

record agent_state =
  st_task_id :: string
  st_environment :: string
  st_action :: string
  st_tool_key :: string
  st_resource_arn :: string
  st_resource_tags :: "(string \<times> string) list"
  st_context :: pydict
  st_result :: json
  st_error :: "string option"
  st_decision :: "string option"

text \<open>
  What a run can change outside its state: the PEP's Redis connection and server, the audit producer
  and its topic, the token manager and its servers, the cloud.
\<close>

record ('r, 'k, 'h, 'c) agent_world =
  aw_connected :: bool
  aw_server :: 'r
  aw_producer :: producer
  aw_topic :: 'k
  aw_tokens :: token_manager
  aw_net :: 'h
  aw_cloud :: 'c

type_synonym 'c handler = "agent_state \<Rightarrow> ('c, json) comp"

record ('r, 'k, 'h, 'c) base_agent =
  ba_agent_id :: string
  ba_agent_type :: agent_kind
  ba_registry :: tool_registry
  ba_pep :: "'r pep"
  ba_tokens :: "'h token_services"
  ba_source_ip :: string
  ba_dump :: "audit_event \<Rightarrow> string"
  ba_send :: "'k send"
  ba_handlers :: "(string \<times> 'c handler) list"
  ba_decision_event_id :: string            \<comment> \<open>\<open>uuid4\<close> and the clock of the two events of a run\<close>
  ba_decision_time :: instant
  ba_result_event_id :: string
  ba_result_time :: instant

type_synonym ('r, 'k, 'h, 'c) node_run =
  "agent_state \<times> ('r, 'k, 'h, 'c) agent_world \<Rightarrow> (exn + unit) \<times> agent_state \<times> ('r, 'k, 'h, 'c) agent_world"

section \<open>The nodes\<close>

definition node_fetch_token :: "('r, 'k, 'h, 'c) base_agent \<Rightarrow> ('r, 'k, 'h, 'c) node_run" where
  "node_fetch_token A = (\<lambda>(st, w).
     case get_token (ba_tokens A) (st_task_id st) (st_environment st) (ba_source_ip A) (aw_tokens w, aw_net w) of
       (Inl e, (tm, h)) \<Rightarrow> (Inl e, (st, w\<lparr>aw_tokens := tm, aw_net := h\<rparr>))
     | (Inr token, (tm, h)) \<Rightarrow>
         (case introspect (ba_tokens A) tm token h of
            (Inl e, h') \<Rightarrow> (Inl e, (st, w\<lparr>aw_tokens := tm, aw_net := h'\<rparr>))
          | (Inr claims, h') \<Rightarrow> (Inr (),
              (st\<lparr>st_context := dict_set (dict_set (st_context st) ''_token_claims'' claims) ''_token'' token\<rparr>,
               w\<lparr>aw_tokens := tm, aw_net := h'\<rparr>))))"

definition node_load_task :: "('r, 'k, 'h, 'c) node_run" where
  "node_load_task = (\<lambda>s. (Inr (), s))"

text \<open>\<open>ActionRequest(...)\<close>: \<open>token_claims\<close> has to be a dictionary.\<close>

definition request_of ::
  "('r, 'k, 'h, 'c) base_agent \<Rightarrow> agent_state \<Rightarrow> tool_spec \<Rightarrow> exn + action_request" where
  "request_of A st spec =
     (case (case dict_get (st_context st) ''_token_claims'' of None \<Rightarrow> JObj [] | Some v \<Rightarrow> v) of
        JObj claims \<Rightarrow> Inr \<lparr>agent_id = ba_agent_id A, agent_type = agent_kind_value (ba_agent_type A),
          token_claims = claims, action = ts_action spec, resource_arn = st_resource_arn st,
          task_id = st_task_id st, environment = st_environment st, source_ip = ba_source_ip A,
          resource_tags = st_resource_tags st, req_context = st_context st\<rparr>
      | _ \<Rightarrow> Inl (ValidationError ''ActionRequest''))"

definition dump_request :: "action_request \<Rightarrow> json" where
  "dump_request q = JObj
     [(''agent_id'', JStr (agent_id q)), (''agent_type'', JStr (agent_type q)),
      (''token_claims'', JObj (token_claims q)), (''action'', JStr (action q)),
      (''resource_arn'', JStr (resource_arn q)), (''task_id'', JStr (task_id q)),
      (''environment'', JStr (environment q)), (''source_ip'', JStr (source_ip q)),
      (''resource_tags'', JObj (map (\<lambda>(k, v). (k, JStr v)) (resource_tags q))),
      (''context'', JObj (req_context q))]"

text \<open>pydantic copies the context, so what \<open>enforce\<close> writes into the request is not seen here.\<close>

definition call_enforce ::
  "('r, 'k, 'h, 'c) base_agent \<Rightarrow> action_request \<Rightarrow> ('r, 'k, 'h, 'c) agent_world \<Rightarrow> (exn + unit) \<times> ('r, 'k, 'h, 'c) agent_world" where
  "call_enforce A q w =
     (case enforce (ba_pep A) \<lparr>pw_connected = aw_connected w, pw_server = aw_server w, pw_request = q\<rparr> of
        (x, p) \<Rightarrow> (x, w\<lparr>aw_connected := pw_connected p, aw_server := pw_server p\<rparr>))"

definition node_policy_check :: "('r, 'k, 'h, 'c) base_agent \<Rightarrow> ('r, 'k, 'h, 'c) node_run" where
  "node_policy_check A = (\<lambda>(st, w).
     case registry_get (ba_registry A) (st_tool_key st) of
       Inl e \<Rightarrow> (Inr (), (st\<lparr>st_decision := Some ''DENY'', st_error := Some (exn_str e)\<rparr>, w))
     | Inr spec \<Rightarrow>
         (case request_of A st spec of
            Inl e \<Rightarrow> (Inl e, (st, w))
          | Inr q \<Rightarrow>
              (let st = st\<lparr>st_context := dict_set (st_context st) ''_action_request'' (dump_request q)\<rparr> in
               case call_enforce A q w of
                 (Inr _, w') \<Rightarrow> (Inr (), (st\<lparr>st_decision := Some ''ALLOW''\<rparr>, w'))
               | (Inl e, w') \<Rightarrow>
                   (Inr (), (st\<lparr>st_decision := Some (exn_name e), st_error := Some (exn_str e)\<rparr>, w')))))"

definition new_event ::
  "('r, 'k, 'h, 'c) base_agent \<Rightarrow> agent_state \<Rightarrow> string \<Rightarrow> instant \<Rightarrow> string \<Rightarrow> string option \<Rightarrow>
     pydict option \<Rightarrow> string option \<Rightarrow> audit_event" where
  "new_event A st eid time decision reason result error =
     \<lparr>ae_event_id = eid, ae_schema_version = ''1.0'', ae_timestamp = time, ae_agent_id = ba_agent_id A,
      ae_agent_type = agent_kind_value (ba_agent_type A), ae_task_id = st_task_id st, ae_action = st_action st,
      ae_resource_arn = st_resource_arn st, ae_decision = decision, ae_decision_reason = reason,
      ae_policy_ref = None, ae_policy_version = None, ae_token_jti = None, ae_source_ip = Some (ba_source_ip A),
      ae_environment = Some (st_environment st), ae_execution_result = result, ae_execution_error = error,
      ae_anomaly_score = None, ae_previous_event_hash = GENESIS_HASH, ae_event_hash = ''''\<rparr>"

definition publish_event ::
  "('r, 'k, 'h, 'c) base_agent \<Rightarrow> audit_event \<Rightarrow> ('r, 'k, 'h, 'c) agent_world \<Rightarrow> ('r, 'k, 'h, 'c) agent_world" where
  "publish_event A e w = (case publish (ba_dump A) (ba_send A) e (aw_producer w, aw_topic w) of
     (_, (p, k)) \<Rightarrow> w\<lparr>aw_producer := p, aw_topic := k\<rparr>)"

definition decision_event :: "('r, 'k, 'h, 'c) base_agent \<Rightarrow> agent_state \<Rightarrow> audit_event" where
  "decision_event A st = new_event A st (ba_decision_event_id A) (ba_decision_time A)
     (case st_decision st of Some d \<Rightarrow> if d = '''' then ''UNKNOWN'' else d | None \<Rightarrow> ''UNKNOWN'') (st_error st) None None"

definition node_audit_decision :: "('r, 'k, 'h, 'c) base_agent \<Rightarrow> ('r, 'k, 'h, 'c) node_run" where
  "node_audit_decision A = (\<lambda>(st, w). (Inr (),
     (st\<lparr>st_context := dict_set (st_context st) ''_decision_event_id'' (JStr (ba_decision_event_id A))\<rparr>,
      publish_event A (decision_event A st) w)))"

definition node_execute_tool :: "('r, 'k, 'h, 'c) base_agent \<Rightarrow> ('r, 'k, 'h, 'c) node_run" where
  "node_execute_tool A = (\<lambda>(st, w).
     case dict_get (ba_handlers A) (st_tool_key st) of
       None \<Rightarrow> (Inr (), (st\<lparr>st_error := Some (''No handler registered for tool '' @ [CHR 0x27] @ st_tool_key st @ [CHR 0x27])\<rparr>, w))
     | Some handler \<Rightarrow>
         (case handler st (aw_cloud w) of
            (Inr v, c) \<Rightarrow> (Inr (), (st\<lparr>st_result := v\<rparr>, w\<lparr>aw_cloud := c\<rparr>))
          | (Inl e, c) \<Rightarrow> (Inr (), (st\<lparr>st_error := Some (exn_str e)\<rparr>, w\<lparr>aw_cloud := c\<rparr>))))"

definition result_event :: "('r, 'k, 'h, 'c) base_agent \<Rightarrow> agent_state \<Rightarrow> audit_event" where
  "result_event A st = new_event A st (ba_result_event_id A) (ba_result_time A)
     (if st_error st = None \<or> st_error st = Some '''' then ''EXECUTED'' else ''EXECUTION_FAILED'')
     (Some (''post-execution update for '' @
        (case dict_get (st_context st) ''_decision_event_id'' of Some v \<Rightarrow> py_str v | None \<Rightarrow> ''unknown'')))
     (case st_result st of JObj d \<Rightarrow> Some d | _ \<Rightarrow> None) (st_error st)"

definition node_audit_result :: "('r, 'k, 'h, 'c) base_agent \<Rightarrow> ('r, 'k, 'h, 'c) node_run" where
  "node_audit_result A = (\<lambda>(st, w). (Inr (), (st, publish_event A (result_event A st) w)))"

definition node_error_handler :: "('r, 'k, 'h, 'c) node_run" where
  "node_error_handler = (\<lambda>s. (Inr (), s))"

section \<open>The graph (\_build\_graph)\<close>

datatype node = Fetch_Token | Load_Task | Policy_Check | Audit_Decision | Execute_Tool | Audit_Result | Error_Handler

definition route_after_policy :: "agent_state \<Rightarrow> node" where
  "route_after_policy st =
     (if st_decision st = Some ''ALLOW'' then Execute_Tool
      else if str_contains ''ApprovalRequired'' (case st_decision st of Some d \<Rightarrow> d | None \<Rightarrow> '''') then Error_Handler
      else Error_Handler)"

text \<open>\<^const>\<open>None\<close> is END.\<close>

fun next_node :: "node \<Rightarrow> agent_state \<Rightarrow> node option" where
  "next_node Fetch_Token st = Some Load_Task"
| "next_node Load_Task st = Some Policy_Check"
| "next_node Policy_Check st = Some Audit_Decision"
| "next_node Audit_Decision st = Some (route_after_policy st)"
| "next_node Execute_Tool st = Some Audit_Result"
| "next_node Audit_Result st = None"
| "next_node Error_Handler st = None"

fun run_node :: "('r, 'k, 'h, 'c) base_agent \<Rightarrow> node \<Rightarrow> ('r, 'k, 'h, 'c) node_run" where
  "run_node A Fetch_Token = node_fetch_token A"
| "run_node A Load_Task = node_load_task"
| "run_node A Policy_Check = node_policy_check A"
| "run_node A Audit_Decision = node_audit_decision A"
| "run_node A Execute_Tool = node_execute_tool A"
| "run_node A Audit_Result = node_audit_result A"
| "run_node A Error_Handler = node_error_handler"

text \<open>A run is at a node, has reached END, or has left the graph with an exception.\<close>

datatype place = At node | Ended | Failed exn

definition place_after :: "node \<Rightarrow> agent_state \<Rightarrow> place" where
  "place_after n st = (case next_node n st of Some m \<Rightarrow> At m | None \<Rightarrow> Ended)"

inductive agent_step ::
  "('r, 'k, 'h, 'c) base_agent \<Rightarrow> place \<times> agent_state \<times> ('r, 'k, 'h, 'c) agent_world \<Rightarrow>
     place \<times> agent_state \<times> ('r, 'k, 'h, 'c) agent_world \<Rightarrow> bool" for A where
  goes: "run_node A n s = (Inr (), (st', w')) \<Longrightarrow> agent_step A (At n, s) (place_after n st', (st', w'))"
| raises: "run_node A n s = (Inl e, s') \<Longrightarrow> agent_step A (At n, s) (Failed e, s')"

inductive_cases agent_step_At: "agent_step A (At n, s) c"
inductive_simps agent_step_ended: "agent_step A (Ended, s) c"
inductive_simps agent_step_failed: "agent_step A (Failed e, s) c"

text \<open>The number of nodes still to run, at most.\<close>

fun rank :: "node \<Rightarrow> nat" where
  "rank Fetch_Token = 6"
| "rank Load_Task = 5"
| "rank Policy_Check = 4"
| "rank Audit_Decision = 3"
| "rank Execute_Tool = 2"
| "rank Audit_Result = 1"
| "rank Error_Handler = 1"

lemma next_node_rank: "next_node n st = Some m \<Longrightarrow> rank m < rank n"
  by (cases n) (auto simp: route_after_policy_def split: if_splits)

function invoke :: "('r, 'k, 'h, 'c) base_agent \<Rightarrow> node \<Rightarrow> ('r, 'k, 'h, 'c) node_run" where
  "invoke A n s = (case run_node A n s of
       (Inl e, s') \<Rightarrow> (Inl e, s')
     | (Inr _, (st', w')) \<Rightarrow> (case next_node n st' of
           None \<Rightarrow> (Inr (), (st', w'))
         | Some m \<Rightarrow> invoke A m (st', w')))"
  by pat_completeness auto
termination
  by (relation "measure (\<lambda>(A, n, s). rank n)") (auto dest: next_node_rank)

declare invoke.simps [simp del]

definition initial_state ::
  "string \<Rightarrow> string \<Rightarrow> string \<Rightarrow> string \<Rightarrow> (string \<times> string) list option \<Rightarrow> pydict option \<Rightarrow> agent_state" where
  "initial_state tool_key arn task env tags ctx =
     \<lparr>st_task_id = task, st_environment = env, st_action = tool_key, st_tool_key = tool_key,
      st_resource_arn = arn, st_resource_tags = (case tags of Some t \<Rightarrow> t | None \<Rightarrow> []),
      st_context = (case ctx of Some c \<Rightarrow> c | None \<Rightarrow> []), st_result = JNull, st_error = None, st_decision = None\<rparr>"

definition run_agent ::
  "('r, 'k, 'h, 'c) base_agent \<Rightarrow> string \<Rightarrow> string \<Rightarrow> string \<Rightarrow> string \<Rightarrow> (string \<times> string) list option \<Rightarrow>
     pydict option \<Rightarrow> ('r, 'k, 'h, 'c) agent_world \<Rightarrow> (exn + unit) \<times> agent_state \<times> ('r, 'k, 'h, 'c) agent_world" where
  "run_agent A tool_key arn task env tags ctx w =
     invoke A Fetch_Token (initial_state tool_key arn task env tags ctx, w)"

end
