(* ===== verification/Agent_Runs.thy ===== *)
theory Agent_Runs
  imports Base_Agent
begin

text \<open>
  What a run of an agent does: the steps against the function, the names of the exceptions of
  \<open>enforce\<close>, and the four ways a run can go.
\<close>

section \<open>Steps and invoke\<close>

fun place_rank :: "place \<Rightarrow> nat" where
  "place_rank (At n) = rank n"
| "place_rank Ended = 0"
| "place_rank (Failed e) = 0"

lemma agent_step_rank: "agent_step A c c' \<Longrightarrow> place_rank (fst c') < place_rank (fst c)"
proof (induction rule: agent_step.induct)
  case (goes n s st' w')
  show ?case
  proof (cases "next_node n st'")
    case None
    then show ?thesis by (cases n) (simp_all add: place_after_def)
  next
    case (Some m)
    with next_node_rank show ?thesis by (simp add: place_after_def)
  qed
next
  case (raises n s e s')
  show ?case by (cases n) simp_all
qed

lemma agent_steps_rank: "(agent_step A ^^ k) c c' \<Longrightarrow> place_rank (fst c') + k \<le> place_rank (fst c)"
proof (induction k arbitrary: c')
  case 0
  then show ?case by simp
next
  case (Suc k)
  then obtain d where "(agent_step A ^^ k) c d" "agent_step A d c'" by auto
  with Suc.IH [of d] agent_step_rank [of A d c'] show ?case by simp
qed

lemma agent_step_deterministic: "agent_step A c d \<Longrightarrow> agent_step A c d' \<Longrightarrow> d' = d"
  by (induction rule: agent_step.induct) (auto elim!: agent_step_At)

fun outcome :: "(exn + unit) \<times> 's \<Rightarrow> place \<times> 's" where
  "outcome (Inr _, s) = (Ended, s)"
| "outcome (Inl e, s) = (Failed e, s)"

lemma invoke_steps: "(agent_step A)\<^sup>*\<^sup>* (At n, s) (outcome (invoke A n s))"
proof (induction A n s rule: invoke.induct)
  case (1 A n s)
  obtain x st' w' where run: "run_node A n s = (x, (st', w'))" by (metis surj_pair)
  show ?case
  proof (cases x)
    case (Inl e)
    with run have "invoke A n s = (Inl e, (st', w'))" by (simp add: invoke.simps [of A n s])
    with agent_step.raises [of A n s e "(st', w')"] run Inl show ?thesis by (auto intro: r_into_rtranclp)
  next
    case (Inr u)
    then have step: "agent_step A (At n, s) (place_after n st', (st', w'))" using run by (intro agent_step.goes) simp
    show ?thesis
    proof (cases "next_node n st'")
      case None
      with run Inr have "invoke A n s = (Inr (), (st', w'))" by (simp add: invoke.simps [of A n s])
      with step None show ?thesis by (auto simp: place_after_def intro: r_into_rtranclp)
    next
      case (Some m)
      have inv: "invoke A n s = invoke A m (st', w')" using run Inr Some by (simp add: invoke.simps [of A n s])
      have "(agent_step A)\<^sup>*\<^sup>* (At m, st', w') (outcome (invoke A m (st', w')))"
        by (rule 1 [OF run [symmetric] Inr refl Some])
      with step Some show ?thesis unfolding inv by (auto simp: place_after_def intro: converse_rtranclp_into_rtranclp)
    qed
  qed
qed

lemma outcome_stuck: "\<not> agent_step A (outcome r) c"
  by (cases r rule: outcome.cases) (auto simp: agent_step_ended agent_step_failed)

lemma invoke_from:
  "run_node A n s = (Inl e, s') \<Longrightarrow> invoke A n s = (Inl e, s')"
  "run_node A n s = (Inr (), (st', w')) \<Longrightarrow> next_node n st' = Some m \<Longrightarrow> invoke A n s = invoke A m (st', w')"
  "run_node A n s = (Inr (), (st', w')) \<Longrightarrow> next_node n st' = None \<Longrightarrow> invoke A n s = (Inr (), (st', w'))"
  by (simp_all add: invoke.simps [of A n s])

section \<open>The exceptions of enforce\<close>

definition pep_errors :: "string list" where
  "pep_errors = [''PolicyDenialError'', ''ApprovalRequiredError'', ''AttributeError'', ''JSONDecodeError'',
     ''KeyError'', ''TypeError'', ''ValidationError'', ''RedisError'']"

lemma pep_error_names [simp]:
  "''PolicyDenialError'' \<in> set pep_errors" "''ApprovalRequiredError'' \<in> set pep_errors"
  "''AttributeError'' \<in> set pep_errors" "''JSONDecodeError'' \<in> set pep_errors" "''KeyError'' \<in> set pep_errors"
  "''TypeError'' \<in> set pep_errors" "''ValidationError'' \<in> set pep_errors" "''RedisError'' \<in> set pep_errors"
  by code_simp+

lemma check_ip_binding_name: "check_ip_binding w = (Inl e, w') \<Longrightarrow> exn_name e \<in> set pep_errors"
proof -
  assume run: "check_ip_binding w = (Inl e, w')"
  have read: "\<exists>m. x = AttributeError m"
    if "(if \<not> truthy v then Inr JNull else case v of JObj d \<Rightarrow> Inr (g d) | _ \<Rightarrow> Inl (AttributeError y)) = Inl x"
    for v x y and g :: "pydict \<Rightarrow> json"
    using that by (cases v) (auto split: if_splits)
  have nested: "\<exists>m. x = AttributeError m" if "nested_ip q = Inl x" for q x
    using that unfolding nested_ip_def Let_def by (rule read)
  have token: "\<exists>m. x = AttributeError m" if "token_ip q = Inl x" for q x
    using that unfolding token_ip_def Let_def
    by (cases "truthy (get_or_none (token_claims q) ''source_ip'')") (simp_all only: if_True if_False nested simp_thms sum.distinct)
  show ?thesis
  proof (cases "token_ip (pw_request w)")
    case (Inl x)
    with run have "e = x" by (simp add: check_ip_binding_def)
    with token [OF Inl] show ?thesis by (elim exE) simp
  next
    case (Inr ip)
    with run have "exn_name e = ''PolicyDenialError''"
      unfolding check_ip_binding_def with_request_apply Inr sum.case
      by (cases "truthy ip \<and> ip \<noteq> JStr (source_ip (pw_request w))") auto
    then show ?thesis by simp
  qed
qed

lemma try_except_raises: "try_except m h s = (Inl e, s') \<Longrightarrow> \<exists>y s1. m s = (Inl y, s1) \<and> h y s1 = (Inl e, s')"
  by (auto simp: try_except_def split: prod.splits sum.splits)

lemma check_suspension_raises:
  assumes run: "check_suspension P w = (Inl e, w')"
  shows "\<exists>x y z. e = PolicyDenialError x y z"
proof -
  have handler: "\<exists>x y z. e = PolicyDenialError x y z"
    if "try_except m (\<lambda>x. case x of PolicyDenialError _ _ _ \<Rightarrow> throw x | _ \<Rightarrow> ret ()) s = (Inl e, s')"
    for m s s' and e :: exn
  proof -
    from try_except_raises [OF that] obtain y s1 where
      "(case y of PolicyDenialError _ _ _ \<Rightarrow> throw y | _ \<Rightarrow> ret ()) s1 = (Inl e, s')" by (elim exE conjE)
    then show ?thesis by (cases y) auto
  qed
  obtain b w1 where r: "get_redis P w = (Inr b, w1)" using get_redis_returns [of P w] by (elim exE conjE)
  show ?thesis
  proof (cases b)
    case True
    then show ?thesis
      using run unfolding check_suspension_def with_request_apply seq_Inr [where m = "get_redis P", OF r]
      by (simp only: simp_thms if_False) (rule handler)
  next
    case False
    with run show ?thesis by (simp add: check_suspension_def seq_Inr [where m = "get_redis P", OF r])
  qed
qed

lemma check_suspension_name: "check_suspension P w = (Inl e, w') \<Longrightarrow> exn_name e \<in> set pep_errors"
  by (drule check_suspension_raises) (elim exE, simp)

lemma evaluate_name: "evaluate P q = Inl e \<Longrightarrow> exn_name e \<in> set pep_errors"
  by (auto simp: evaluate_def result_of_body_def
      split: opa_reply.splits sum.splits option.splits json.splits)

lemma act_on_decision_name: "act_on_decision P q d w = (Inl e, w') \<Longrightarrow> exn_name e \<in> set pep_errors"
  by (auto simp: act_on_decision_def queue_approval_def on_server_def seq_def Let_def
      split: decision.splits prod.splits sum.splits if_splits)

lemma enforce_name:
  assumes "enforce P w = (Inl e, w')" shows "exn_name e \<in> set pep_errors"
  using assms
proof (cases rule: enforce_cases)
  case (ip e)
  then show ?thesis using check_ip_binding_name [of w] by simp
next
  case (suspended e)
  then show ?thesis using check_suspension_name [of P w] by simp
next
  case (decided w1 w2)
  show ?thesis
  proof (cases "evaluate P (pw_request w2)")
    case (Inl e')
    with decided(4) evaluate_name [OF Inl] show ?thesis by simp
  next
    case (Inr d)
    with decided(4) act_on_decision_name show ?thesis by simp
  qed
qed

lemma pep_errors_not_allow:
  assumes "n \<in> set pep_errors" shows "n \<noteq> ''ALLOW'' \<and> n \<noteq> ''DENY'' \<and> n \<noteq> ''''"
proof -
  have "list_all (\<lambda>n. n \<noteq> ''ALLOW'' \<and> n \<noteq> ''DENY'' \<and> n \<noteq> '''') pep_errors" by code_simp
  then show ?thesis unfolding list_all_iff using assms by (rule bspec)
qed

section \<open>What the nodes keep\<close>

definition pep_world_of :: "('r, 'k, 'h, 'c) agent_world \<Rightarrow> action_request \<Rightarrow> 'r pep_world" where
  "pep_world_of w q = \<lparr>pw_connected = aw_connected w, pw_server = aw_server w, pw_request = q\<rparr>"

text \<open>Only the token manager and its servers changed.\<close>

definition only_tokens :: "('r, 'k, 'h, 'c) agent_world \<Rightarrow> ('r, 'k, 'h, 'c) agent_world \<Rightarrow> bool" where
  "only_tokens w w' \<longleftrightarrow> w' = w\<lparr>aw_tokens := aw_tokens w', aw_net := aw_net w'\<rparr>"

lemma only_tokens_simps:
  "only_tokens w w' \<Longrightarrow> aw_connected w' = aw_connected w \<and> aw_server w' = aw_server w \<and>
     aw_producer w' = aw_producer w \<and> aw_topic w' = aw_topic w \<and> aw_cloud w' = aw_cloud w"
  unfolding only_tokens_def by (cases w, cases w') simp

lemma fetch_token_keeps:
  assumes "node_fetch_token A (st, w) = (x, (st', w'))"
  shows "only_tokens w w'" and "\<exists>c. st' = st\<lparr>st_context := c\<rparr>"
  using assms by (auto simp: node_fetch_token_def only_tokens_def split: prod.splits sum.splits
      intro: exI [of _ "st_context st"])

lemma call_enforce_run:
  "call_enforce A q w = (x, w') \<longleftrightarrow> (\<exists>p. enforce (ba_pep A) (pep_world_of w q) = (x, p) \<and>
     w' = w\<lparr>aw_connected := pw_connected p, aw_server := pw_server p\<rparr>)"
  unfolding call_enforce_def pep_world_of_def by (auto split: prod.splits)

lemma policy_check_cases:
  assumes "node_policy_check A (st, w) = (x, (st', w'))"
  obtains (unavailable) e where "registry_get (ba_registry A) (st_tool_key st) = Inl e" "x = Inr ()"
      "st' = st\<lparr>st_decision := Some ''DENY'', st_error := Some (exn_str e)\<rparr>" "w' = w"
  | (invalid) spec e where "registry_get (ba_registry A) (st_tool_key st) = Inr spec" "request_of A st spec = Inl e"
      "x = Inl e" "st' = st" "w' = w"
  | (refused) spec q e p c where "registry_get (ba_registry A) (st_tool_key st) = Inr spec" "request_of A st spec = Inr q"
      "enforce (ba_pep A) (pep_world_of w q) = (Inl e, p)" "x = Inr ()"
      "st' = st\<lparr>st_context := c, st_decision := Some (exn_name e), st_error := Some (exn_str e)\<rparr>"
      "w' = w\<lparr>aw_connected := pw_connected p, aw_server := pw_server p\<rparr>"
  | (permitted) spec q p c where "registry_get (ba_registry A) (st_tool_key st) = Inr spec" "request_of A st spec = Inr q"
      "enforce (ba_pep A) (pep_world_of w q) = (Inr (), p)" "x = Inr ()"
      "st' = st\<lparr>st_context := c, st_decision := Some ''ALLOW''\<rparr>"
      "w' = w\<lparr>aw_connected := pw_connected p, aw_server := pw_server p\<rparr>"
proof (cases "registry_get (ba_registry A) (st_tool_key st)")
  case (Inl e)
  with assms show thesis by (intro unavailable) (auto simp: node_policy_check_def)
next
  case spec: (Inr spec)
  show thesis
  proof (cases "request_of A st spec")
    case (Inl e)
    with spec assms show thesis by (intro invalid) (auto simp: node_policy_check_def)
  next
    case q: (Inr q)
    define c where "c = dict_set (st_context st) ''_action_request'' (dump_request q)"
    obtain y w1 where run: "call_enforce A q w = (y, w1)" by fastforce
    then obtain p where p: "enforce (ba_pep A) (pep_world_of w q) = (y, p)"
      "w1 = w\<lparr>aw_connected := pw_connected p, aw_server := pw_server p\<rparr>" unfolding call_enforce_run by (elim exE conjE)
    show thesis
    proof (cases y)
      case (Inl e)
      with spec q run assms have "x = Inr ()" "w' = w1"
        "st' = st\<lparr>st_context := c, st_decision := Some (exn_name e), st_error := Some (exn_str e)\<rparr>"
        by (auto simp: node_policy_check_def Let_def c_def)
      with spec q p Inl show thesis by (intro refused) simp_all
    next
      case (Inr u)
      with spec q run assms have "x = Inr ()" "w' = w1" "st' = st\<lparr>st_context := c, st_decision := Some ''ALLOW''\<rparr>"
        by (auto simp: node_policy_check_def Let_def c_def)
      with spec q p Inr show thesis by (intro permitted) simp_all
    qed
  qed
qed

text \<open>The events of a run are published through one producer.\<close>

lemma publish_event_all:
  "\<exists>out. publish_all (ba_dump A) (ba_send A) [e] (aw_producer w, aw_topic w) =
     (out, (aw_producer (publish_event A e w), aw_topic (publish_event A e w)))"
  by (simp add: publish_event_def split: prod.splits)

lemma publish_event_keeps [simp]:
  "aw_cloud (publish_event A e w) = aw_cloud w" "aw_server (publish_event A e w) = aw_server w"
  "aw_connected (publish_event A e w) = aw_connected w" "aw_tokens (publish_event A e w) = aw_tokens w"
  by (simp_all add: publish_event_def split: prod.splits)

lemma publish_all_append:
  "publish_all dump send es s = (out1, s1) \<Longrightarrow> publish_all dump send fs s1 = (out2, s2) \<Longrightarrow>
     publish_all dump send (es @ fs) s = (out1 @ out2, s2)"
  by (induction es arbitrary: s out1) (auto split: prod.splits)

lemma execute_tool_keeps:
  assumes "node_execute_tool A (st, w) = (x, (st', w'))"
  shows "x = Inr ()" and "w' = w\<lparr>aw_cloud := aw_cloud w'\<rparr>" and "st_decision st' = st_decision st"
    and "st_context st' = st_context st"
  using assms by (auto simp: node_execute_tool_def split: option.splits prod.splits sum.splits)

definition noted :: "('r, 'k, 'h, 'c) base_agent \<Rightarrow> agent_state \<Rightarrow> agent_state" where
  "noted A st = st\<lparr>st_context := dict_set (st_context st) ''_decision_event_id'' (JStr (ba_decision_event_id A))\<rparr>"

lemma node_audit_decision_run:
  "node_audit_decision A (st, w) = (Inr (), (noted A st, publish_event A (decision_event A st) w))"
  by (simp add: node_audit_decision_def noted_def)

section \<open>The ways a run goes\<close>

lemma invoke_fetch:
  "node_fetch_token A (st, w) = (Inr (), (st1, w1)) \<Longrightarrow> invoke A Fetch_Token (st, w) = invoke A Policy_Check (st1, w1)"
  by (simp add: invoke.simps [of A Fetch_Token] invoke.simps [of A Load_Task] node_load_task_def)

lemma invoke_blocked:
  assumes "node_policy_check A (st, w) = (Inr (), (st1, w1))" and "st_decision st1 \<noteq> Some ''ALLOW''"
  shows "invoke A Policy_Check (st, w) = (Inr (), (noted A st1, publish_event A (decision_event A st1) w1))"
proof -
  have "route_after_policy (noted A st1) = Error_Handler" using assms(2) by (simp add: route_after_policy_def noted_def)
  then show ?thesis
    using assms(1) by (simp add: invoke.simps [of A Policy_Check] invoke.simps [of A Audit_Decision]
        invoke.simps [of A Error_Handler] node_audit_decision_run node_error_handler_def)
qed

lemma invoke_allowed:
  assumes "node_policy_check A (st, w) = (Inr (), (st1, w1))" and "st_decision st1 = Some ''ALLOW''"
    and "node_execute_tool A (noted A st1, publish_event A (decision_event A st1) w1) = (Inr (), (st2, w2))"
  shows "invoke A Policy_Check (st, w) = (Inr (), (st2, publish_event A (result_event A st2) w2))"
proof -
  have "route_after_policy (noted A st1) = Execute_Tool" using assms(2) by (simp add: route_after_policy_def noted_def)
  then show ?thesis
    using assms(1,3) by (simp add: invoke.simps [of A Policy_Check] invoke.simps [of A Audit_Decision]
        invoke.simps [of A Execute_Tool] invoke.simps [of A Audit_Result] node_audit_decision_run node_audit_result_def)
qed

lemma run_cases:
  assumes "invoke A Fetch_Token (st, w) = (x, (st', w'))"
  obtains (no_token) e where "node_fetch_token A (st, w) = (Inl e, (st', w'))" "x = Inl e"
  | (bad_claims) spec e st1 where "node_fetch_token A (st, w) = (Inr (), (st1, w'))"
      "registry_get (ba_registry A) (st_tool_key st1) = Inr spec" "request_of A st1 spec = Inl e" "x = Inl e"
  | (blocked) st1 w1 st2 w2 where "node_fetch_token A (st, w) = (Inr (), (st1, w1))"
      "node_policy_check A (st1, w1) = (Inr (), (st2, w2))" "st_decision st2 \<noteq> Some ''ALLOW''"
      "x = Inr ()" "st' = noted A st2" "w' = publish_event A (decision_event A st2) w2"
  | (allowed) st1 w1 st2 w2 w3 where "node_fetch_token A (st, w) = (Inr (), (st1, w1))"
      "node_policy_check A (st1, w1) = (Inr (), (st2, w2))" "st_decision st2 = Some ''ALLOW''"
      "node_execute_tool A (noted A st2, publish_event A (decision_event A st2) w2) = (Inr (), (st', w3))"
      "x = Inr ()" "w' = publish_event A (result_event A st') w3"
proof -
  obtain y st1 w1 where f: "node_fetch_token A (st, w) = (y, (st1, w1))" by (metis surj_pair)
  show thesis
  proof (cases y)
    case (Inl e)
    then have "invoke A Fetch_Token (st, w) = (Inl e, (st1, w1))" using f by (intro invoke_from(1)) simp
    with assms f Inl show thesis by (intro no_token) auto
  next
    case (Inr u)
    then have f: "node_fetch_token A (st, w) = (Inr (), (st1, w1))" using f by simp
    note inv = invoke_fetch [OF f]
    obtain z st2 w2 where p: "node_policy_check A (st1, w1) = (z, (st2, w2))" by (metis surj_pair)
    show thesis
    proof (cases z)
      case (Inl e)
      from p obtain spec where s: "registry_get (ba_registry A) (st_tool_key st1) = Inr spec" "request_of A st1 spec = Inl e"
        "w2 = w1" by (cases rule: policy_check_cases) (use Inl in auto)
      have "invoke A Policy_Check (st1, w1) = (Inl e, (st2, w2))" using p Inl by (intro invoke_from(1)) simp
      then have "x = Inl e" "w' = w1" using assms s(3) unfolding inv by auto
      with f s show thesis by (intro bad_claims) auto
    next
      case u: (Inr u)
      then have p: "node_policy_check A (st1, w1) = (Inr (), (st2, w2))" using p by simp
      show thesis
      proof (cases "st_decision st2 = Some ''ALLOW''")
        case True
        obtain v st3 w3 where e: "node_execute_tool A (noted A st2, publish_event A (decision_event A st2) w2) = (v, (st3, w3))"
          by (metis surj_pair)
        with execute_tool_keeps(1) [OF e] have e: "node_execute_tool A (noted A st2, publish_event A (decision_event A st2) w2) = (Inr (), (st3, w3))"
          by simp
        from trans [OF sym [OF assms] trans [OF inv invoke_allowed [OF p True e]]]
        have "x = Inr ()" "st' = st3" "w' = publish_event A (result_event A st3) w3" by blast+
        with f p True e show thesis by (intro allowed) simp_all
      next
        case False
        from trans [OF sym [OF assms] trans [OF inv invoke_blocked [OF p False]]]
        have "x = Inr ()" "st' = noted A st2" "w' = publish_event A (decision_event A st2) w2" by blast+
        with f p False show thesis by (intro blocked) simp_all
      qed
    qed
  qed
qed

section \<open>The states in which a node is reached\<close>

fun reached :: "('r, 'k, 'h, 'c) base_agent \<Rightarrow> agent_state \<times> ('r, 'k, 'h, 'c) agent_world \<Rightarrow> place \<Rightarrow>
    agent_state \<times> ('r, 'k, 'h, 'c) agent_world \<Rightarrow> bool" where
  "reached A s (At Fetch_Token) c \<longleftrightarrow> c = s"
| "reached A s (At Load_Task) c \<longleftrightarrow> node_fetch_token A s = (Inr (), c)"
| "reached A s (At Policy_Check) c \<longleftrightarrow> node_fetch_token A s = (Inr (), c)"
| "reached A s (At Audit_Decision) c \<longleftrightarrow> (\<exists>s1. node_fetch_token A s = (Inr (), s1) \<and> node_policy_check A s1 = (Inr (), c))"
| "reached A s (At Execute_Tool) c \<longleftrightarrow> (\<exists>s1 st2 w2. node_fetch_token A s = (Inr (), s1) \<and>
     node_policy_check A s1 = (Inr (), (st2, w2)) \<and> st_decision st2 = Some ''ALLOW'' \<and>
     c = (noted A st2, publish_event A (decision_event A st2) w2))"
| "reached A s _ c \<longleftrightarrow> True"

lemma agent_step_from:
  assumes "agent_step A (At n, s) (l', c')"
  obtains (goes) "run_node A n s = (Inr (), c')" "l' = place_after n (fst c')"
  | (raises) e where "run_node A n s = (Inl e, c')" "l' = Failed e"
  using assms by (auto elim!: agent_step_At)

lemma agent_step_reached: "agent_step A (l, c) (l', c') \<Longrightarrow> reached A s l c \<Longrightarrow> reached A s l' c'"
proof (cases l)
  case (At n)
  assume step: "agent_step A (l, c) (l', c')" and r: "reached A s l c"
  from step show ?thesis unfolding At
  proof (cases rule: agent_step_from)
    case goes
    obtain st' w' where c': "c' = (st', w')" by fastforce
    with goes have l': "l' = place_after n st'" by simp
    show ?thesis
    proof (cases n)
      case Audit_Decision
      then obtain st2 w2 where c: "c = (st2, w2)" "c' = (noted A st2, publish_event A (decision_event A st2) w2)"
        using goes node_audit_decision_run [of A "fst c" "snd c"] by (cases c) auto
      show ?thesis
      proof (cases "st_decision st2 = Some ''ALLOW''")
        case True
        have "st_decision st' = st_decision st2" using c c' by (simp add: noted_def)
        then have "l' = At Execute_Tool" using True l' Audit_Decision by (simp add: place_after_def route_after_policy_def)
        with r True c At Audit_Decision show ?thesis by auto
      next
        case False
        have "st_decision st' = st_decision st2" using c c' by (simp add: noted_def)
        then have "l' = At Error_Handler" using False l' Audit_Decision by (simp add: place_after_def route_after_policy_def)
        then show ?thesis by simp
      qed
    qed (use r goes c' l' At in \<open>auto simp: place_after_def node_load_task_def\<close>)
  next
    case (raises e)
    then show ?thesis by simp
  qed
qed (simp_all add: agent_step_ended agent_step_failed)

lemma reached_run: "(agent_step A)\<^sup>*\<^sup>* (At Fetch_Token, s) (l, c) \<Longrightarrow> reached A s l c"
proof (induction "(l, c)" arbitrary: l c rule: rtranclp_induct)
  case base
  then show ?case by simp
next
  case (step d)
  then show ?case by (cases d) (blast intro: agent_step_reached)
qed

text \<open>Every configuration on the way leads to the outcome.\<close>

lemma invoke_path:
  assumes "(agent_step A)\<^sup>*\<^sup>* (At n, s) c"
  shows "(agent_step A)\<^sup>*\<^sup>* c (outcome (invoke A n s))"
  using assms
proof (induction rule: rtranclp_induct)
  case base
  show ?case by (rule invoke_steps)
next
  case (step y z)
  from step.IH show ?case
  proof (cases rule: converse_rtranclpE)
    case base
    with step.hyps(2) outcome_stuck [of A "invoke A n s" z] show ?thesis by simp
  next
    case (step z')
    with agent_step_deterministic [OF step(1) \<open>agent_step A y z\<close>] show ?thesis by simp
  qed
qed

section \<open>The request an agent makes\<close>

lemma request_of_fields:
  assumes "request_of A st spec = Inr q"
  shows "agent_id q = ba_agent_id A" and "agent_type q = agent_kind_value (ba_agent_type A)"
    and "action q = ts_action spec" and "resource_arn q = st_resource_arn st" and "task_id q = st_task_id st"
    and "environment q = st_environment st" and "source_ip q = ba_source_ip A" and "req_context q = st_context st"
  using assms by (auto simp: request_of_def split: json.splits)

lemma request_of_raises: "request_of A st spec = Inl e \<Longrightarrow> e = ValidationError ''ActionRequest''"
  by (auto simp: request_of_def split: json.splits)

text \<open>enforce keeps what identifies the request.\<close>

lemma enforce_request:
  assumes "enforce P w = (x, w')"
  shows "\<exists>c. pw_request w' = (pw_request w)\<lparr>req_context := c\<rparr>"
  using assms
proof (cases rule: enforce_cases)
  case (ip e)
  then show ?thesis by (intro exI [of _ "req_context (pw_request w)"]) simp
next
  case (suspended e)
  then show ?thesis by (intro exI [of _ "req_context (pw_request w)"]) simp
next
  case (decided w1 w2)
  have "pw_request w' = pw_request w2"
  proof (cases "evaluate P (pw_request w2)")
    case (Inl e)
    with decided(4) show ?thesis by simp
  next
    case (Inr d)
    with decided(4) have "act_on_decision P (pw_request w2) d w2 = (x, w')" by simp
    then show ?thesis
      by (cases "pd_effect d") (auto simp: act_on_decision_def queue_approval_def Let_def seq_def
          split: if_splits prod.splits sum.splits)
  qed
  with inject_returns(2) [OF decided(3)] decided(2) show ?thesis by simp
qed

text \<open>Token and policy check, in one.\<close>

definition checked :: "('r, 'k, 'h, 'c) base_agent \<Rightarrow> ('r, 'k, 'h, 'c) node_run" where
  "checked A s = (case node_fetch_token A s of (Inl e, s1) \<Rightarrow> (Inl e, s1) | (Inr _, s1) \<Rightarrow> node_policy_check A s1)"

lemma checked_run:
  assumes "checked A s = (Inr (), c)"
  obtains s1 where "node_fetch_token A s = (Inr (), s1)" "node_policy_check A s1 = (Inr (), c)"
  using assms by (auto simp: checked_def split: prod.splits sum.splits)

lemma reach_execute:
  assumes "checked A s = (Inr (), (st2, w2))" and "st_decision st2 = Some ''ALLOW''"
  shows "(agent_step A)\<^sup>*\<^sup>* (At Fetch_Token, s) (At Execute_Tool, (noted A st2, publish_event A (decision_event A st2) w2))"
proof -
  obtain st1 w1 where f: "node_fetch_token A s = (Inr (), (st1, w1))" and p: "node_policy_check A (st1, w1) = (Inr (), (st2, w2))"
    using checked_run [OF assms(1)] by (metis surj_pair)
  have dec: "route_after_policy (noted A st2) = Execute_Tool" using assms(2) by (simp add: route_after_policy_def noted_def)
  have "agent_step A (At Fetch_Token, s) (At Load_Task, (st1, w1))"
    using agent_step.goes [of A Fetch_Token s st1 w1] f by (simp add: place_after_def)
  moreover have "agent_step A (At Load_Task, (st1, w1)) (At Policy_Check, (st1, w1))"
    using agent_step.goes [of A Load_Task "(st1, w1)" st1 w1] by (simp add: place_after_def node_load_task_def)
  moreover have "agent_step A (At Policy_Check, (st1, w1)) (At Audit_Decision, (st2, w2))"
    using agent_step.goes [of A Policy_Check "(st1, w1)" st2 w2] p by (simp add: place_after_def)
  moreover have "agent_step A (At Audit_Decision, (st2, w2)) (At Execute_Tool, (noted A st2, publish_event A (decision_event A st2) w2))"
    using agent_step.goes [of A Audit_Decision "(st2, w2)"] dec by (simp add: place_after_def node_audit_decision_run)
  ultimately show ?thesis by (meson converse_rtranclp_into_rtranclp rtranclp.rtrancl_refl)
qed

lemma run_after_check:
  assumes "checked A (initial_state tool_key arn task env tags ctx, w) = (Inr (), (st2, w2))" and "st_decision st2 \<noteq> Some ''ALLOW''"
  shows "run_agent A tool_key arn task env tags ctx w = (Inr (), (noted A st2, publish_event A (decision_event A st2) w2))"
proof -
  obtain st1 w1 where f: "node_fetch_token A (initial_state tool_key arn task env tags ctx, w) = (Inr (), (st1, w1))"
    and p: "node_policy_check A (st1, w1) = (Inr (), (st2, w2))"
    using checked_run [OF assms(1)] by (metis surj_pair)
  show ?thesis unfolding run_agent_def invoke_fetch [OF f] by (rule invoke_blocked [OF p assms(2)])
qed

lemma policy_check_state:
  assumes "node_policy_check A (st, w) = (Inr (), (st', w'))"
  obtains n c r where "st' = st\<lparr>st_context := c, st_decision := Some n, st_error := r\<rparr>" "n \<noteq> ''''"
    "n \<in> insert ''ALLOW'' (insert ''DENY'' (set pep_errors))"
    "aw_producer w' = aw_producer w" "aw_topic w' = aw_topic w" "aw_cloud w' = aw_cloud w"
  using assms
proof (cases rule: policy_check_cases)
  case (unavailable e)
  then show ?thesis by (intro that [where c = "st_context st" and n = "''DENY''"]) auto
next
  case (refused spec q e p c)
  have name: "exn_name e \<in> set pep_errors" by (rule enforce_name [OF refused(3)])
  with pep_errors_not_allow [OF name] refused show ?thesis
    by (intro that [where c = c and n = "exn_name e"]) simp_all
next
  case (permitted spec q p c)
  then show ?thesis by (intro that [where c = c and n = "''ALLOW''" and r = "st_error st"]) auto
qed simp

text \<open>A run that returned: the state after the policy check, and what followed.\<close>

lemma run_audit:
  assumes "run_agent A tool_key arn task env tags ctx w = (Inr (), (st, w'))"
  obtains st2 w2 n where "checked A (initial_state tool_key arn task env tags ctx, w) = (Inr (), (st2, w2))"
    "st_decision st2 = Some n" "n \<noteq> ''''" "n \<in> insert ''ALLOW'' (insert ''DENY'' (set pep_errors))"
    "st_task_id st2 = task" "st_action st2 = tool_key" "st_tool_key st2 = tool_key" "st_resource_arn st2 = arn"
    "st_result st2 = JNull" "aw_producer w2 = aw_producer w" "aw_topic w2 = aw_topic w" "aw_cloud w2 = aw_cloud w"
    "if n = ''ALLOW'' then \<exists>w3. node_execute_tool A (noted A st2, publish_event A (decision_event A st2) w2) = (Inr (), (st, w3)) \<and>
        w' = publish_event A (result_event A st) w3
     else st = noted A st2 \<and> w' = publish_event A (decision_event A st2) w2"
proof -
  let ?s0 = "initial_state tool_key arn task env tags ctx"
  have "\<exists>st1 w1 st2 w2. node_fetch_token A (?s0, w) = (Inr (), (st1, w1)) \<and>
      node_policy_check A (st1, w1) = (Inr (), (st2, w2)) \<and>
      (if st_decision st2 = Some ''ALLOW'' then \<exists>w3. node_execute_tool A (noted A st2, publish_event A (decision_event A st2) w2) = (Inr (), (st, w3)) \<and>
        w' = publish_event A (result_event A st) w3
       else st = noted A st2 \<and> w' = publish_event A (decision_event A st2) w2)"
    using assms unfolding run_agent_def
  proof (cases rule: run_cases)
    case (blocked st1 w1 st2 w2)
    then show ?thesis by (intro exI [of _ st1] exI [of _ w1] exI [of _ st2] exI [of _ w2]) simp
  next
    case (allowed st1 w1 st2 w2 w3)
    then show ?thesis by (intro exI [of _ st1] exI [of _ w1] exI [of _ st2] exI [of _ w2]) auto
  qed simp_all
  then obtain st1 w1 st2 w2 where f: "node_fetch_token A (?s0, w) = (Inr (), (st1, w1))"
    and p: "node_policy_check A (st1, w1) = (Inr (), (st2, w2))"
    and rest: "if st_decision st2 = Some ''ALLOW'' then \<exists>w3. node_execute_tool A (noted A st2, publish_event A (decision_event A st2) w2) = (Inr (), (st, w3)) \<and>
        w' = publish_event A (result_event A st) w3
       else st = noted A st2 \<and> w' = publish_event A (decision_event A st2) w2" by (elim exE conjE)
  obtain c1 where st1: "st1 = ?s0\<lparr>st_context := c1\<rparr>" and same: "only_tokens w w1"
    using fetch_token_keeps [OF f] by (elim exE)
  from p obtain n c r where st2: "st2 = st1\<lparr>st_context := c, st_decision := Some n, st_error := r\<rparr>" "n \<noteq> ''''"
    "n \<in> insert ''ALLOW'' (insert ''DENY'' (set pep_errors))"
    "aw_producer w2 = aw_producer w1" "aw_topic w2 = aw_topic w1" "aw_cloud w2 = aw_cloud w1"
    by (rule policy_check_state)
  have dec: "st_decision st2 = Some n" by (simp add: st2(1))
  have "checked A (?s0, w) = (Inr (), (st2, w2))" by (simp add: checked_def f p)
  moreover have "st_task_id st2 = task" "st_action st2 = tool_key" "st_tool_key st2 = tool_key" "st_resource_arn st2 = arn"
    "st_result st2 = JNull" by (simp_all add: st2(1) st1 initial_state_def)
  moreover note only_tokens_simps [OF same]
  ultimately show thesis using rest unfolding dec option.inject by (intro that [OF _ dec st2(2,3)]) (simp_all add: st2(4-6))
qed

text \<open>A run to which the PEP never says yes.\<close>

lemma refused_agent_run:
  fixes A :: "('r, 'k, 'h, 'c) base_agent"
  assumes refused: "\<And>q (w1 :: ('r, 'k, 'h, 'c) agent_world) p. aw_server w1 = aw_server w \<Longrightarrow> agent_id q = ba_agent_id A \<Longrightarrow>
      enforce (ba_pep A) (pep_world_of w1 q) \<noteq> (Inr (), p)"
    and run: "run_agent A tool_key arn task env tags ctx w = (x, (st, w'))"
  shows "aw_cloud w' = aw_cloud w \<and> st_decision st \<noteq> Some ''ALLOW''"
  using run unfolding run_agent_def
proof (cases rule: run_cases)
  case (no_token e)
  then show ?thesis using only_tokens_simps [OF fetch_token_keeps(1) [OF no_token(1)]]
    fetch_token_keeps(2) [OF no_token(1)] by (auto simp: initial_state_def)
next
  case (bad_claims spec e st1)
  from run [unfolded run_agent_def invoke_fetch [OF bad_claims(1)]]
  have "st = st1" using bad_claims(2,3) by (simp add: invoke.simps [of A Policy_Check] node_policy_check_def)
  then show ?thesis using only_tokens_simps [OF fetch_token_keeps(1) [OF bad_claims(1)]]
    fetch_token_keeps(2) [OF bad_claims(1)] by (auto simp: initial_state_def)
next
  case (blocked st1 w1 st2 w2)
  have "aw_cloud w2 = aw_cloud w1" using blocked(2) by (rule policy_check_state)
  with blocked show ?thesis using only_tokens_simps [OF fetch_token_keeps(1) [OF blocked(1)]]
    by (simp add: noted_def)
next
  case (allowed st1 w1 st2 w2 w3)
  have server: "aw_server w1 = aw_server w" using only_tokens_simps [OF fetch_token_keeps(1) [OF allowed(1)]] by blast
  from allowed(2) have False
  proof (cases rule: policy_check_cases)
    case (refused spec q e p c)
    then show ?thesis using allowed(3) enforce_name [OF refused(3)] pep_errors_not_allow [of "exn_name e"] by simp
  next
    case (permitted spec q p c)
    with refused [OF server request_of_fields(1) [OF permitted(2)]] show ?thesis by blast
  qed (use allowed(3) in simp_all)
  then show ?thesis by (rule FalseE)
qed

end
