(* ===== verification/Pep_Properties.thy ===== *)
theory Pep_Properties
  imports Pep
begin

text \<open>
  The properties of the Policy Enforcement Point and of the Cedar layer, with the concrete PEP the
  witnesses run on: the server in memory of \<open>Redis_Client\<close>, an OPA that gives a fixed reply, and
  no Cedar binary unless one is given.
\<close>

section \<open>A concrete PEP for the witnesses\<close>

definition demo_as_str :: "json \<Rightarrow> string option" where
  "demo_as_str v = (case v of JStr s \<Rightarrow> Some s | _ \<Rightarrow> None)"

definition demo_as_bool :: "json \<Rightarrow> bool option" where
  "demo_as_bool v = (case v of JBool b \<Rightarrow> Some b | _ \<Rightarrow> None)"

definition demo_pep :: "opa_reply \<Rightarrow> mem pep" where
  "demo_pep reply =
     \<lparr>pp_redis = mem_redis, pp_opa = (\<lambda>_. reply),
      pp_cedar = \<lparr>ce_policy_dir = ''policy'', ce_cedar_available = False\<rparr>,
      pp_exists = (\<lambda>_. False), pp_cli = (\<lambda>_ _ _. CliTimeout),
      pp_as_str = demo_as_str, pp_as_bool = demo_as_bool,
      pp_now_bucket = 60000000, pp_now_decision = 0, pp_now_queue = 0,
      pp_uuid = ''u1'', pp_ttl = 14400\<rparr>"

definition demo_request :: action_request where
  "demo_request =
     \<lparr>agent_id = ''agent-infra-001'', agent_type = ''InfraAgent'',
      token_claims = [(''active'', JBool True), (''source_ip'', JStr ''10.0.1.10'')],
      action = ''ec2:DescribeInstances'', resource_arn = ''arn:aws:ec2:us-east-1:*:instance/*'',
      task_id = ''task-1'', environment = ''staging'', source_ip = ''10.0.1.10'',
      resource_tags = [], req_context = []\<rparr>"

definition demo_world :: "mem \<Rightarrow> action_request \<Rightarrow> mem pep_world" where
  "demo_world M q = \<lparr>pw_connected = False, pw_server = M, pw_request = q\<rparr>"

definition demo_reply :: "string \<Rightarrow> json \<Rightarrow> opa_reply" where
  "demo_reply effect evaluated_at = OpaBody (Some (JObj [(''result'', JObj
     [(''effect'', JStr effect), (''reason'', JStr ''r''), (''policy_ref'', JStr ''nhi''),
      (''policy_version'', JStr ''2.0.0''), (''evaluated_at'', evaluated_at)])]))"

lemmas demo_defs = demo_pep_def demo_request_def demo_world_def demo_reply_def
  demo_as_str_def demo_as_bool_def

lemma demo_redis: "redis_service (pp_redis (demo_pep reply)) mem_view mem_elapse"
  by (simp add: demo_pep_def mem.redis_service_axioms)

lemma demo_reliable: "redis_reliable (pp_redis (demo_pep reply)) mem_view"
  by (simp add: demo_pep_def mem_reliable)

section \<open>The gate\<close>

text \<open>
  C1: A tool that ran, or that changed anything in the cloud, ran only because OPA's reply to this
  very request said ALLOW, the token is not bound to another address, and, for an action Cedar
  governs, the Cedar binary's output for it contains "allow".
\<close>

theorem tool_runs_only_if_allowed:
  assumes "execute_tool P tool (w, c) = (r, (w', c'))" and "c' \<noteq> c \<or> (\<exists>x. r = Inr x)"
  shows "ip_bound (pw_request w') \<and> opa_allows P (pw_request w') \<and>
    (\<forall>rt. infer_cedar_resource_type (action (pw_request w')) = Some rt \<longrightarrow>
       cedar_governs (pp_cedar P) (pp_exists P) (action (pw_request w')) \<longrightarrow>
       (\<exists>p out. pp_cli P p (build_entities (cedar_request_of (pw_request w') rt))
              (cedar_request_json (cedar_request_of (pw_request w') rt)) = CliOutput out
          \<and> str_contains ''allow'' (str_lower (str_strip out))))"
proof -
  have ok: "pep_allows P w'"
    by (rule pep.effect_implies_allowed [OF assms(1) [unfolded execute_tool_guard] assms(2)])
  have "\<exists>p out. pp_cli P p (build_entities (cedar_request_of (pw_request w') rt))
              (cedar_request_json (cedar_request_of (pw_request w') rt)) = CliOutput out
          \<and> str_contains ''allow'' (str_lower (str_strip out))"
    if "infer_cedar_resource_type (action (pw_request w')) = Some rt"
      and "cedar_governs (pp_cedar P) (pp_exists P) (action (pw_request w'))" for rt
  proof -
    have "cq_action (cedar_request_of (pw_request w') rt) = action (pw_request w')"
      by (simp add: cedar_request_of_def)
    moreover have "cd_permitted (cedar_evaluate (pp_cedar P) (pp_exists P) (pp_cli P)
        (cedar_request_of (pw_request w') rt))"
      using ok that(1) by (simp add: pep_allows_def evaluate_cedar_def)
    ultimately show ?thesis using cedar_evaluate_permitted that(2) by metis
  qed
  with ok show ?thesis by (auto simp: pep_allows_def)
qed

theorem tool_runs_only_if_allowed_witness:
  "\<exists>w'. execute_tool (demo_pep (demo_reply ''ALLOW'' (JStr ''t''))) (\<lambda>n. (Inr n, Suc n))
          (demo_world Map.empty demo_request, 4::nat) = (Inr 4, (w', 5))
     \<and> opa_allows (demo_pep (demo_reply ''ALLOW'' (JStr ''t''))) (pw_request w')"
proof -
  let ?P = "demo_pep (demo_reply ''ALLOW'' (JStr ''t''))"
  let ?res = "execute_tool ?P (\<lambda>n. (Inr n, Suc n)) (demo_world Map.empty demo_request, 4::nat)"
  have "fst ?res = Inr 4" and "snd (snd ?res) = 5" by code_simp+
  from run_is2 [OF this] obtain w' where run: "?res = (Inr 4, (w', 5))" by (rule exE)
  have "(5::nat) \<noteq> 4 \<or> (\<exists>x. (Inr 4 :: exn + nat) = Inr x)" by blast
  from tool_runs_only_if_allowed [OF run this] run show ?thesis by blast
qed

section \<open>The layers before OPA\<close>

text \<open>
  C15: A token that carries a source address, at the top level or inside \<open>agent_context\<close>, is
  refused from any other address with \<open>pep.ip_binding\<close>, before Redis or OPA is asked: the world
  is untouched.
\<close>

theorem replayed_token_is_refused:
  assumes claim: "dict_get (token_claims (pw_request w)) ''source_ip'' = Some (JStr ip) \<or>
      dict_get (token_claims (pw_request w)) ''source_ip'' = None \<and>
      dict_get (token_claims (pw_request w)) ''agent_context'' = Some (JObj d) \<and>
      dict_get d ''source_ip'' = Some (JStr ip)"
    and ip: "ip \<noteq> []" "ip \<noteq> source_ip (pw_request w)"
  shows "enforce P w = (Inl (PolicyDenialError (action (pw_request w))
      (''Token IP binding violation: token bound to '' @ ip @ '', request from '' @
       source_ip (pw_request w)) ''pep.ip_binding''), w)"
proof -
  have "d \<noteq> []" if "dict_get d ''source_ip'' = Some (JStr ip)"
    using that by (auto simp: dict_get_def)
  with claim ip have "token_ip (pw_request w) = Inr (JStr ip)"
    by (auto simp: token_ip_def nested_ip_def get_or_none_def)
  with ip show ?thesis
    by (simp add: enforce_def check_ip_binding_def seq_def py_str_def)
qed

definition stolen_request :: action_request where
  "stolen_request = demo_request\<lparr>source_ip := ''203.0.113.7''\<rparr>"

theorem replayed_token_is_refused_witness:
  "raised (enforce (demo_pep (demo_reply ''ALLOW'' (JStr ''t''))) (demo_world Map.empty stolen_request))
     = Some (PolicyDenialError ''ec2:DescribeInstances''
         ''Token IP binding violation: token bound to 10.0.1.10, request from 203.0.113.7''
         ''pep.ip_binding'')"
  by (subst replayed_token_is_refused [where ip = "''10.0.1.10''"])
    (simp_all add: stolen_request_def demo_world_def demo_request_def dict_get_def)

text \<open>
  C14: An identity in the suspension set is refused with \<open>pep.identity_suspended\<close>, whatever OPA or
  Cedar would say, when Redis answers; the check changes no key of the server and counts nothing.
\<close>

theorem suspended_identity_is_refused:
  assumes svc: "redis_service (pp_redis P) view el" and rel: "redis_reliable (pp_redis P) view"
    and susp: "agent_id (pw_request w) \<in> set_at (view (pw_server w)) SUSPENDED_KEY"
    and ip: "ip_bound (pw_request w)"
  shows "\<exists>w'. enforce P w = (Inl (PolicyDenialError (action (pw_request w))
      (''Identity '' @ agent_id (pw_request w) @ '' is suspended'') ''pep.identity_suspended''), w')
      \<and> view (pw_server w') = view (pw_server w) \<and> pw_request w' = pw_request w"
proof -
  obtain w' where c: "check_suspension P w = (Inl (PolicyDenialError (action (pw_request w))
      (''Identity '' @ agent_id (pw_request w) @ '' is suspended'') ''pep.identity_suspended''), w')"
    "view (pw_server w') = view (pw_server w)" "pw_request w' = pw_request w"
    by (rule check_suspension_reliable [OF svc rel set_at_no_str [OF susp]]) (use susp in simp)
  have "check_ip_binding w = (Inr (), w)" using ip by (simp add: check_ip_binding_returns)
  with c show ?thesis by (simp add: enforce_def seq_def)
qed

definition suspended_server :: "string \<Rightarrow> mem" where
  "suspended_server a = [SUSPENDED_KEY \<mapsto> (MSet [a], None)]"

theorem suspended_identity_is_refused_witness:
  "raised (enforce (demo_pep (demo_reply ''ALLOW'' (JStr ''t'')))
             (demo_world (suspended_server ''agent-infra-001'') demo_request))
     = Some (PolicyDenialError ''ec2:DescribeInstances'' ''Identity agent-infra-001 is suspended''
         ''pep.identity_suspended'')"
proof -
  let ?w = "demo_world (suspended_server ''agent-infra-001'') demo_request"
  have "agent_id (pw_request ?w) \<in> set_at (mem_view (pw_server ?w)) SUSPENDED_KEY"
    by (simp add: demo_world_def demo_request_def suspended_server_def set_at_mem)
  moreover have "ip_bound (pw_request ?w)"
    by (simp add: demo_world_def demo_request_def ip_bound_def token_ip_def get_or_none_def dict_get_def)
  ultimately obtain w' where
    "enforce (demo_pep (demo_reply ''ALLOW'' (JStr ''t''))) ?w = (Inl (PolicyDenialError
       (action (pw_request ?w)) (''Identity '' @ agent_id (pw_request ?w) @ '' is suspended'')
       ''pep.identity_suspended''), w')"
    using suspended_identity_is_refused [OF demo_redis demo_reliable] by blast
  then show ?thesis by (simp add: demo_world_def demo_request_def)
qed

text \<open>
  Further: The rate counter injects into the request one more than the number the minute's key stood
  for, stores that number, gives the key two minutes to live when it is the first, and touches no
  other key of the server.
\<close>

theorem rate_counter_counts:
  assumes "redis_service (pp_redis P) view el" and "redis_reliable (pp_redis P) view"
    and "num_at (view (pw_server w)) (rate_key (agent_id (pw_request w)) (pp_now_bucket P)) i"
  shows "\<exists>w'. inject_rate_limit_count P w = (Inr (), w')
     \<and> dict_get (req_context (pw_request w')) ''current_action_count_per_minute'' = Some (JInt (i + 1))
     \<and> num_at (view (pw_server w')) (rate_key (agent_id (pw_request w)) (pp_now_bucket P)) (i + 1)
     \<and> (i = 0 \<longrightarrow> ttl_at (view (pw_server w')) (rate_key (agent_id (pw_request w)) (pp_now_bucket P))
                  = Some 120)
     \<and> (\<forall>k. k \<noteq> rate_key (agent_id (pw_request w)) (pp_now_bucket P) \<longrightarrow>
            view (pw_server w') k = view (pw_server w) k)"
proof -
  obtain w' where "inject_rate_limit_count P w = (Inr (), w')"
    and "pw_request w' = (pw_request w)\<lparr>req_context :=
        dict_set (req_context (pw_request w)) ''current_action_count_per_minute'' (JInt (i + 1))\<rparr>"
    and "let key = rate_key (agent_id (pw_request w)) (pp_now_bucket P); V = view (pw_server w)
     in view (pw_server w') =
          (if i = 0 then put_ttl key 120 (put_str key (str_int 1) (ttl_at V key) V)
           else put_str key (str_int (i + 1)) (ttl_at V key) V)"
    using inject_reliable [OF assms] by blast
  note w' = this
  define key where "key = rate_key (agent_id (pw_request w)) (pp_now_bucket P)"
  define V where "V = view (pw_server w)"
  have v: "view (pw_server w') = (if i = 0 then put_ttl key 120 (put_str key (str_int 1) (ttl_at V key) V)
           else put_str key (str_int (i + 1)) (ttl_at V key) V)"
    using w'(3) by (simp add: Let_def key_def V_def)
  have "num_at (view (pw_server w')) key (i + 1)"
    by (simp add: v)
  moreover have "i = 0 \<longrightarrow> ttl_at (view (pw_server w')) key = Some 120"
    by (simp add: v put_ttl_def put_str_def ttl_at_def)
  moreover have "\<forall>k. k \<noteq> key \<longrightarrow> view (pw_server w') k = V k"
    by (simp add: v put_ttl_def put_str_def split: option.splits)
  ultimately show ?thesis using w'(1,2) unfolding key_def V_def by (intro exI [of _ w']) simp
qed

theorem rate_counter_counts_witness:
  "\<exists>w'. inject_rate_limit_count (demo_pep (OpaStatusError 500)) (demo_world Map.empty demo_request)
          = (Inr (), w')
     \<and> dict_get (req_context (pw_request w')) ''current_action_count_per_minute'' = Some (JInt 1)"
proof -
  let ?w = "demo_world Map.empty demo_request" and ?P = "demo_pep (OpaStatusError 500)"
  have "num_at (mem_view (pw_server ?w)) (rate_key (agent_id (pw_request ?w)) (pp_now_bucket ?P)) 0"
    by (simp add: demo_world_def num_at_mem)
  from rate_counter_counts [OF demo_redis demo_reliable this]
  show ?thesis unfolding add_0 by blast
qed

section \<open>OPA's reply\<close>

text \<open>
  C16: The PEP fails closed: while OPA is unreachable or answers with an error status, \<open>enforce\<close>
  never returns, and a request that passes the IP and suspension layers is refused with
  \<open>pep.fail_closed\<close>.
\<close>

theorem opa_failure_is_denial:
  assumes down: "\<forall>q. (\<exists>m. pp_opa P q = OpaRequestError m) \<or> (\<exists>st. pp_opa P q = OpaStatusError st)"
  shows "\<exists>e w'. enforce P w = (Inl e, w') \<and>
     (check_ip_binding w = (Inl e, w) \<or> check_suspension P w = (Inl e, w') \<or>
      (\<exists>reason. e = PolicyDenialError (action (pw_request w)) reason ''pep.fail_closed''))"
proof -
  obtain r w' where run: "enforce P w = (r, w')" by fastforce
  then show ?thesis
  proof (cases rule: enforce_cases)
    case (decided w1 w2)
    from down have "(\<exists>m. pp_opa P (pw_request w2) = OpaRequestError m) \<or>
        (\<exists>st. pp_opa P (pw_request w2) = OpaStatusError st)" by blast
    then have fc: "\<exists>reason. evaluate P (pw_request w2) = Inr (fail_closed_decision P reason)"
      by (auto simp: evaluate_def)
    have "action (pw_request w2) = action (pw_request w)"
      using inject_returns(2) [OF decided(3)] check_suspension_request [OF decided(2)] by auto
    with fc decided(4) have "\<exists>reason. r = Inl (PolicyDenialError (action (pw_request w)) reason ''pep.fail_closed'')"
      by (auto simp: act_on_decision_def fail_closed_decision_def)
    with run show ?thesis by blast
  qed (use run in blast)+
qed

theorem opa_failure_is_denial_witness:
  "\<exists>e w'. enforce (demo_pep (OpaStatusError 503)) (demo_world Map.empty demo_request) = (Inl e, w')"
proof -
  have "\<forall>q. (\<exists>m. pp_opa (demo_pep (OpaStatusError 503)) q = OpaRequestError m) \<or>
      (\<exists>st. pp_opa (demo_pep (OpaStatusError 503)) q = OpaStatusError st)"
    by (simp add: demo_pep_def)
  from opa_failure_is_denial [OF this] show ?thesis by blast
qed

text \<open>
  C17: When the decision is REQUIRE\_APPROVAL, \<open>enforce\<close> never returns: either the approval entry is
  written under \<open>approval:<uuid>\<close> with the configured time to live and \<open>ApprovalRequiredError\<close>
  carries that id, or the write failed and its exception is raised.
\<close>

theorem approval_required_blocks:
  assumes svc: "redis_service (pp_redis P) view el"
    and layers: "ip_bound (pw_request w)" "check_suspension P w = (Inr (), w1)"
      "inject_rate_limit_count P w1 = (Inr (), w2)"
    and dec: "evaluate P (pw_request w2) = Inr d" "pd_effect d = REQUIRE_APPROVAL"
  shows "\<exists>e w'. enforce P w = (Inl e, w') \<and>
     ((e = ApprovalRequiredError (action (pw_request w)) (resource_arn (pw_request w)) (pp_uuid P) \<and>
       str_at (view (pw_server w')) (''approval:'' @ pp_uuid P) =
         Some (py_repr (approval_data P (pw_request w2) d)) \<and>
       ttl_at (view (pw_server w')) (''approval:'' @ pp_uuid P) = Some (pp_ttl P))
      \<or> (\<exists>m. e = OtherError ''RedisError'' m))"
proof -
  have q: "action (pw_request w2) = action (pw_request w)" "resource_arn (pw_request w2) = resource_arn (pw_request w)"
    using inject_returns(2) [OF layers(3)] check_suspension_request [OF layers(2)] by auto
  have repr: "py_str (approval_data P q' d) = py_repr (approval_data P q' d)" for q'
    by (simp add: py_str_def approval_data_def)
  obtain x s where set: "r_setex (pp_redis P) (''approval:'' @ pp_uuid P) (pp_ttl P)
      (py_repr (approval_data P (pw_request w2) d)) (pw_server w2) = (x, s)" by fastforce
  have run: "enforce P w = act_on_decision P (pw_request w2) d w2"
    using layers dec by (simp add: enforce_def seq_def check_ip_binding_returns [THEN iffD2])
  show ?thesis
  proof (cases x)
    case (Inl m)
    with set run dec show ?thesis
      by (simp add: act_on_decision_def queue_approval_def seq_def on_server_def redis_call_def repr)
  next
    case (Inr u)
    with set have "view s = put_str (''approval:'' @ pp_uuid P)
        (py_repr (approval_data P (pw_request w2) d)) (Some (pp_ttl P)) (view (pw_server w2))"
      using redis_service.setex_ok [OF svc] by blast
    with Inr set run dec show ?thesis
      by (simp add: act_on_decision_def queue_approval_def seq_def on_server_def redis_call_def repr q)
  qed
qed

theorem approval_required_blocks_witness:
  "\<exists>e w'. enforce (demo_pep (demo_reply ''REQUIRE_APPROVAL'' (JStr ''t'')))
       (demo_world Map.empty demo_request) = (Inl e, w') \<and>
     ((e = ApprovalRequiredError ''ec2:DescribeInstances'' ''arn:aws:ec2:us-east-1:*:instance/*'' ''u1'')
      \<or> (\<exists>m. e = OtherError ''RedisError'' m))"
proof -
  let ?w = "demo_world Map.empty demo_request"
  let ?P = "demo_pep (demo_reply ''REQUIRE_APPROVAL'' (JStr ''t''))"
  have ip: "ip_bound (pw_request ?w)"
    by (simp add: demo_world_def demo_request_def ip_bound_def token_ip_def get_or_none_def dict_get_def)
  have key: "no_str (mem_view (pw_server ?w)) SUSPENDED_KEY"
    "agent_id (pw_request ?w) \<notin> set_at (mem_view (pw_server ?w)) SUSPENDED_KEY"
    by (simp_all add: demo_world_def no_str_def str_at_mem set_at_mem)
  obtain w1 where w1: "check_suspension ?P ?w = (Inr (), w1)"
    by (rule check_suspension_reliable [where w = ?w, OF demo_redis demo_reliable key(1)])
      (use key(2) in simp)
  obtain w2 where w2: "inject_rate_limit_count ?P w1 = (Inr (), w2)"
    using inject_returns(1) by (metis surj_pair)
  have "\<exists>d. evaluate ?P q = Inr d \<and> pd_effect d = REQUIRE_APPROVAL" for q
    by (simp add: evaluate_def demo_defs result_of_body_def dict_get_def validate_decision_def
        parse_effect_def validate_conditions_def)
  then obtain d where d: "evaluate ?P (pw_request w2) = Inr d" "pd_effect d = REQUIRE_APPROVAL" by blast
  have f: "action (pw_request ?w) = ''ec2:DescribeInstances''"
    "resource_arn (pw_request ?w) = ''arn:aws:ec2:us-east-1:*:instance/*''" "pp_uuid ?P = ''u1''"
    by (simp_all add: demo_world_def demo_request_def demo_pep_def)
  from approval_required_blocks [OF demo_redis ip w1 w2 d] show ?thesis unfolding f by blast
qed

text \<open>
  Further: A decision whose \<open>evaluated_at\<close> is a JSON number, as \<open>time.now_ns()\<close> in the Rego response is,
  never lets a request through: pydantic reads no \<open>str\<close> from a number, so \<open>_evaluate\<close> raises
  \<open>ValidationError\<close> even when the effect is ALLOW, and \<open>enforce\<close> returns for no request.
\<close>

theorem integer_timestamp_blocks_everything:
  assumes strict: "\<forall>n. pp_as_str P (JInt n) = None"
    and reply: "\<forall>q. \<exists>b d n. pp_opa P q = OpaBody (Some (JObj b)) \<and>
        dict_get b ''result'' = Some (JObj d) \<and> dict_get d ''evaluated_at'' = Some (JInt n)"
  shows "evaluate P q = Inl (ValidationError ''PolicyDecision'') \<and> enforce P w \<noteq> (Inr (), w')"
proof -
  have ev: "evaluate P q = Inl (ValidationError ''PolicyDecision'')" for q
  proof -
    obtain b d n where "pp_opa P q = OpaBody (Some (JObj b))" "dict_get b ''result'' = Some (JObj d)"
      "dict_get d ''evaluated_at'' = Some (JInt n)" using reply by blast
    with strict show ?thesis
      by (simp add: evaluate_def result_of_body_def validate_decision_def split: option.splits)
  qed
  have "enforce P w \<noteq> (Inr (), w')"
  proof
    assume "enforce P w = (Inr (), w')"
    then show False by (cases rule: enforce_cases) (simp_all add: ev)
  qed
  with ev show ?thesis by blast
qed

theorem integer_timestamp_blocks_everything_witness:
  "evaluate (demo_pep (demo_reply ''ALLOW'' (JInt 1767225600000000000))) demo_request
     = Inl (ValidationError ''PolicyDecision'')"
proof -
  let ?P = "demo_pep (demo_reply ''ALLOW'' (JInt 1767225600000000000))"
  have "\<forall>n. pp_as_str ?P (JInt n) = None" by (simp add: demo_pep_def demo_as_str_def)
  moreover have "\<forall>q. \<exists>b d n. pp_opa ?P q = OpaBody (Some (JObj b)) \<and>
        dict_get b ''result'' = Some (JObj d) \<and> dict_get d ''evaluated_at'' = Some (JInt n)"
    by (simp add: demo_pep_def demo_reply_def dict_get_def)
  ultimately show ?thesis by (rule integer_timestamp_blocks_everything [THEN conjunct1])
qed

section \<open>Cedar\<close>

text \<open>
  Further: Where Cedar governs an action (the binary is installed, the action is in its tables and the
  policy file exists) a timeout, an error, or output without "allow" forbids it; everywhere else
  the evaluator permits, whatever the binary would say.
\<close>

theorem cedar_decides:
  "cd_permitted (cedar_evaluate ce exists cli q) \<longleftrightarrow>
     (if ce_cedar_available ce \<and> select_policy_file ce exists (cq_action q) \<noteq> None
      then (case cli (the (select_policy_file ce exists (cq_action q))) (build_entities q)
                   (cedar_request_json q) of
              CliOutput out \<Rightarrow> str_contains ''allow'' (str_lower (str_strip out))
            | CliTimeout \<Rightarrow> False | CliError _ \<Rightarrow> False)
      else True)"
proof (cases "cedar_governs ce exists (cq_action q)")
  case True
  then obtain p where p: "select_policy_file ce exists (cq_action q) = Some p"
    "cedar_evaluate ce exists cli q = run_cedar cli p (build_entities q) (cedar_request_json q)"
    using cedar_evaluate_governed by blast
  with True show ?thesis
    by (auto simp: cedar_governs_def run_cedar_permits split: cli_outcome.splits)
next
  case False
  then have "cd_permitted (cedar_evaluate ce exists cli q)" by (rule cedar_evaluate_ungoverned)
  with False show ?thesis by (auto simp: cedar_governs_def)
qed

text \<open>
  Further: The IAM policy file forbids creating policies, attaching user policies and updating assume-role
  policies for every agent, but these actions are in neither table of the evaluator: with OPA's
  ALLOW the PEP lets them through without running Cedar.
\<close>

theorem forbidden_iam_actions_bypass_cedar:
  assumes "action q \<in> {''iam:CreatePolicy'', ''iam:PutUserPolicy'', ''iam:AttachUserPolicy'',
      ''iam:UpdateAssumeRolePolicy''}"
  shows "evaluate_cedar P q = \<lparr>cd_permitted = True, cd_reason =
      (if ce_cedar_available (pp_cedar P) then ''action-not-cedar-governed''
       else ''cedar-cli-not-installed'')\<rparr>"
  using assms
  by (auto simp: evaluate_cedar_def infer_cedar_resource_type_def starts_with_def cedar_evaluate_def
      cedar_request_of_def S3_ACTIONS_def IAM_ACTIONS_def)

theorem forbidden_iam_actions_bypass_cedar_witness:
  "cd_permitted (evaluate_cedar (demo_pep (OpaStatusError 500))
     (demo_request\<lparr>action := ''iam:CreatePolicy''\<rparr>))"
  by (subst forbidden_iam_actions_bypass_cedar) simp_all

end
