(* ===== verification/Audit_Properties.thy ===== *)
theory Audit_Properties
  imports Audit_Log
begin

text \<open>
  The properties of the audit chain, the producer, the consumer and the query API. The witnesses
  run on a topic and a table kept as lists.
\<close>

section \<open>A concrete event, topic and table\<close>

definition demo_event :: "string \<Rightarrow> instant \<Rightarrow> audit_event" where
  "demo_event i t = \<lparr>ae_event_id = i, ae_schema_version = ''1.0'', ae_timestamp = t,
     ae_agent_id = ''agent-infra-001'', ae_agent_type = ''InfraAgent'', ae_task_id = ''t1'',
     ae_action = ''describe_instances'', ae_resource_arn = ''arn:aws:ec2:*'', ae_decision = ''ALLOW'',
     ae_decision_reason = None, ae_policy_ref = None, ae_policy_version = None, ae_token_jti = None,
     ae_source_ip = None, ae_environment = None, ae_execution_result = None,
     ae_execution_error = None, ae_anomaly_score = None, ae_previous_event_hash = GENESIS_HASH,
     ae_event_hash = ''''\<rparr>"

definition demo_event_dump :: "audit_event \<Rightarrow> string" where
  "demo_event_dump e = dumps_compact (JList [JStr (ae_event_id e), JStr (ae_event_hash e)])"

definition demo_send :: "bool \<Rightarrow> string \<Rightarrow> string list \<Rightarrow> (string + unit) \<times> string list" where
  "demo_send up m k = (if up then (Inr (), k @ [m]) else (Inl ''NoBrokersAvailable'', k))"

interpretation demo_topic: topic "demo_send up" "\<lambda>k. k" for up
  by unfold_locales (auto simp: demo_send_def split: if_splits)

definition demo_insert :: "audit_row \<Rightarrow> audit_row list \<Rightarrow> (string + unit) \<times> audit_row list" where
  "demo_insert r d = (Inr (), if row_key r \<in> row_key ` set d then d else d @ [r])"

interpretation demo_table: audit_store demo_insert "\<lambda>d. d"
  by unfold_locales (auto simp: demo_insert_def split: if_splits)

definition demo_two :: "audit_event list" where
  "demo_two = [demo_event ''e1'' 0, demo_event ''e2'' 1]"

definition demo_first :: audit_event where
  "demo_first = seal GENESIS_HASH (demo_event ''e1'' 0)"

definition demo_second :: audit_event where
  "demo_second = seal (ae_event_hash demo_first) (demo_event ''e2'' 1)"

lemma demo_sealed [simp]:
  "ae_previous_event_hash demo_second = ae_event_hash demo_first"
  "compute_event_hash demo_first = ae_event_hash demo_first"
  "compute_event_hash demo_second = ae_event_hash demo_second"
  "ae_timestamp demo_first = 0" "ae_timestamp demo_second = 1"
  unfolding demo_second_def demo_first_def by (simp_all add: demo_event_def)

lemma demo_chain: "verify_chain [demo_first, demo_second]" "verify_chain [demo_second]"
  by (simp_all add: verify_chain_def)

lemma demo_times: "valid_instant 0" "valid_instant 1"
  by code_simp+

section \<open>Tampering\<close>

text \<open>
  C5: Two event lists that both verify and end in the same hash agree, event by event from the
  last one backwards, on every hashed field and on the link, as far as the shorter one reaches;
  otherwise they contain two different canonical texts with the same SHA-256 digest.
\<close>

theorem same_last_hash_same_history:
  assumes verified: "verify_chain es" "verify_chain fs"
    and ends: "es \<noteq> []" "length es \<le> length fs" "ae_event_hash (last es) = ae_event_hash (last fs)"
    and times: "\<forall>e\<in>set es \<union> set fs. valid_instant (ae_timestamp e)"
  shows "(\<forall>i<length es. let e = es ! i; f = fs ! (length fs - length es + i) in
      ae_event_id e = ae_event_id f \<and> ae_timestamp e = ae_timestamp f \<and> ae_agent_id e = ae_agent_id f \<and>
      ae_agent_type e = ae_agent_type f \<and> ae_task_id e = ae_task_id f \<and> ae_action e = ae_action f \<and>
      ae_resource_arn e = ae_resource_arn f \<and> ae_decision e = ae_decision f) \<or>
    (\<exists>e\<in>set es. \<exists>f\<in>set fs. canonical e \<noteq> canonical f \<and> sha256_hex (canonical e) = sha256_hex (canonical f))"
proof (cases "audit.collide es fs")
  case True
  then show ?thesis by (auto simp: audit.collide_def)
next
  case False
  have eq: "map protected es = map protected (drop (length fs - length es) fs)"
    by (rule audit.same_head_same_content)
      (use verified ends False in \<open>simp_all add: verify_chain_chained\<close>)
  have "let e = es ! i; f = fs ! (length fs - length es + i) in
      ae_event_id e = ae_event_id f \<and> ae_timestamp e = ae_timestamp f \<and> ae_agent_id e = ae_agent_id f \<and>
      ae_agent_type e = ae_agent_type f \<and> ae_task_id e = ae_task_id f \<and> ae_action e = ae_action f \<and>
      ae_resource_arn e = ae_resource_arn f \<and> ae_decision e = ae_decision f" if i: "i < length es" for i
  proof -
    let ?f = "fs ! (length fs - length es + i)"
    have j: "length fs - length es + i < length fs" using i ends(2) by simp
    have "map protected es ! i = map protected (drop (length fs - length es) fs) ! i" by (simp only: eq)
    then have p: "protected (es ! i) = protected ?f" using i ends(2) by simp
    have "es ! i \<in> set es" "?f \<in> set fs" using i j by simp_all
    with times have "valid_instant (ae_timestamp (es ! i))" "valid_instant (ae_timestamp ?f)" by simp_all
    with p show ?thesis by (simp add: protected_def isoformat_inject Let_def)
  qed
  then show ?thesis by blast
qed

theorem same_last_hash_same_history_witness:
  "(ae_event_id ([demo_second] ! 0) = ae_event_id ([demo_first, demo_second] ! 1) \<and>
    ae_action ([demo_second] ! 0) = ae_action ([demo_first, demo_second] ! 1)) \<or>
   (\<exists>e\<in>set [demo_second]. \<exists>f\<in>set [demo_first, demo_second].
      canonical e \<noteq> canonical f \<and> sha256_hex (canonical e) = sha256_hex (canonical f))"
proof -
  have "[demo_second] \<noteq> []" "length [demo_second] \<le> length [demo_first, demo_second]"
    "ae_event_hash (last [demo_second]) = ae_event_hash (last [demo_first, demo_second])"
    "\<forall>e\<in>set [demo_second] \<union> set [demo_first, demo_second]. valid_instant (ae_timestamp e)"
    by (simp_all add: demo_times)
  from same_last_hash_same_history [OF demo_chain(2,1) this]
  show ?thesis
  proof
    assume "\<forall>i<length [demo_second]. let e = [demo_second] ! i;
        f = [demo_first, demo_second] ! (length [demo_first, demo_second] - length [demo_second] + i) in
      ae_event_id e = ae_event_id f \<and> ae_timestamp e = ae_timestamp f \<and> ae_agent_id e = ae_agent_id f \<and>
      ae_agent_type e = ae_agent_type f \<and> ae_task_id e = ae_task_id f \<and> ae_action e = ae_action f \<and>
      ae_resource_arn e = ae_resource_arn f \<and> ae_decision e = ae_decision f"
    then show ?thesis by (simp add: Let_def)
  qed blast
qed

section \<open>The producer\<close>

text \<open>
  C28: The events one producer returns verify as one chain that starts at the genesis hash; each differs from the
  event it was given in its two hashes at most, the fields the hash does not cover included; whichever sends fail, each
  of them is in the Kafka topic or in the buffer that \<open>drain\<close> hands out.
\<close>

theorem published_events_form_a_chain:
  assumes kafka: "topic send sent"
    and run: "publish_all dump send es (producer_init up, k) = (out, (p', k'))"
  shows "verify_chain out \<and>
    list_all2 (\<lambda>e e'. \<exists>h h'. e' = e\<lparr>ae_previous_event_hash := h, ae_event_hash := h'\<rparr>) es out \<and>
    (out \<noteq> [] \<longrightarrow> ae_previous_event_hash (hd out) = GENESIS_HASH) \<and>
    (\<forall>e\<in>set out. dump e \<in> set (sent k') \<or> e \<in> set (fst (drain p')))"
  using publish_all_chain [OF run] publish_all_changes [OF run] topic.publish_all_delivers(1) [OF kafka run]
  by (simp add: producer_init_def drain_def)

theorem published_events_form_a_chain_witness:
  "verify_chain (fst (publish_all demo_event_dump (demo_send False) demo_two (producer_init True, [])))"
proof -
  obtain out p' k' where run: "publish_all demo_event_dump (demo_send False) demo_two (producer_init True, [])
      = (out, (p', k'))" by (metis prod_cases3)
  have "topic (demo_send False) (\<lambda>k. k)" by (rule demo_topic.topic_axioms)
  from published_events_form_a_chain [OF this run] run show ?thesis by simp
qed

text \<open>
  C29: A producer that is restarted begins again at the genesis hash: the events of an agent before
  and after the restart verify separately, but in order they verify as one chain only if the last
  SHA-256 digest before the restart is the genesis value of 64 zeros, although nothing was tampered
  with.
\<close>

theorem restart_breaks_the_chain:
  assumes before: "publish_all dump send es (producer_init up, k) = (out1, s1)" "es \<noteq> []"
    and after: "publish_all dump send fs (producer_init up', k') = (out2, s2)" "fs \<noteq> []"
  shows "verify_chain out1 \<and> verify_chain out2 \<and>
    (verify_chain (out1 @ out2) \<longleftrightarrow> sha256_hex (canonical (last out1)) = GENESIS_HASH)"
proof -
  obtain p1 k1 p2 k2 where s: "s1 = (p1, k1)" "s2 = (p2, k2)" by (metis surj_pair)
  note c1 = publish_all_chain [OF before(1) [unfolded s]] and c2 = publish_all_chain [OF after(1) [unfolded s]]
  have "length out1 = length es" "length out2 = length fs"
    using c1(2) c2(2) by (metis length_map)+
  with before(2) after(2) have ne: "out1 \<noteq> []" "out2 \<noteq> []" by auto
  have "ae_previous_event_hash (hd out2) = GENESIS_HASH" using c2(3) ne by (simp add: producer_init_def)
  moreover have "ae_event_hash (last out1) = sha256_hex (canonical (last out1))"
    using c1(1) ne by (simp add: verify_chain_chained audit.chained_def compute_event_hash_def)
  ultimately show ?thesis using c1(1) c2(1) ne by (auto simp: verify_chain_append)
qed

theorem restart_breaks_the_chain_witness:
  "\<exists>out1 s1 out2 s2.
     publish_all demo_event_dump (demo_send True) [demo_event ''e1'' 0] (producer_init True, []) = (out1, s1) \<and>
     publish_all demo_event_dump (demo_send True) [demo_event ''e2'' 1] (producer_init True, snd s1) = (out2, s2) \<and>
     (verify_chain (out1 @ out2) \<longleftrightarrow> sha256_hex (canonical (last out1)) = GENESIS_HASH)"
proof -
  obtain out1 s1 where r1: "publish_all demo_event_dump (demo_send True) [demo_event ''e1'' 0]
      (producer_init True, []) = (out1, s1)" by (metis surj_pair)
  obtain out2 s2 where r2: "publish_all demo_event_dump (demo_send True) [demo_event ''e2'' 1]
      (producer_init True, snd s1) = (out2, s2)" by (metis surj_pair)
  from restart_breaks_the_chain [OF r1 _ r2] r1 r2 show ?thesis by blast
qed

section \<open>What verification does not see\<close>

text \<open>
  Further: \<open>verify_chain\<close> accepts every log whose oldest events were removed and in which the decision
  reason, policy reference, token id, source address, execution result and execution error of any
  event were rewritten: the first event's link is not compared with the genesis hash, and those
  fields are not hashed.
\<close>

theorem truncation_and_unhashed_fields_verify:
  assumes "verify_chain (es @ fs)"
  shows "verify_chain (map (\<lambda>e. e\<lparr>ae_decision_reason := r e, ae_policy_ref := p e, ae_token_jti := j e,
     ae_source_ip := ip e, ae_execution_result := x e, ae_execution_error := y e\<rparr>) fs)"
proof -
  let ?g = "\<lambda>e. e\<lparr>ae_decision_reason := r e, ae_policy_ref := p e, ae_token_jti := j e,
     ae_source_ip := ip e, ae_execution_result := x e, ae_execution_error := y e\<rparr>"
  have h: "compute_event_hash (?g e) = compute_event_hash e" for e
    by (simp add: compute_event_hash_def canonical_def hashed_fields_def)
  have "verify_from (map_option ?g b) (map ?g es) \<longleftrightarrow> verify_from b es" for b es
  proof (induction es arbitrary: b)
    case Nil
    then show ?case by simp
  next
    case (Cons e es)
    show ?case using Cons [of "Some e"] by (simp add: h split: option.splits)
  qed
  from this [of None] have "verify_chain (map ?g fs) \<longleftrightarrow> verify_chain fs" by (simp add: verify_chain_def)
  moreover have "verify_chain fs"
  proof (cases "es = [] \<or> fs = []")
    case True
    with assms show ?thesis by (auto simp: verify_chain_def)
  next
    case False
    with assms show ?thesis by (simp add: verify_chain_append)
  qed
  ultimately show ?thesis by blast
qed

theorem truncation_and_unhashed_fields_verify_witness:
  "verify_chain [demo_second\<lparr>ae_decision_reason := Some ''forged'', ae_policy_ref := None, ae_token_jti := None,
     ae_source_ip := Some ''203.0.113.7'', ae_execution_result := None, ae_execution_error := None\<rparr>]"
proof -
  have "verify_chain ([demo_first] @ [demo_second])" using demo_chain(1) by simp
  from truncation_and_unhashed_fields_verify [OF this, where r = "\<lambda>_. Some ''forged''" and p = "\<lambda>_. None"
      and j = "\<lambda>_. None" and ip = "\<lambda>_. Some ''203.0.113.7''" and x = "\<lambda>_. None" and y = "\<lambda>_. None"]
  show ?thesis by simp
qed

section \<open>The consumer\<close>

text \<open>
  C30: Whatever the polls before the signal give, and whichever inserts fail: the consumer raises exactly the
  exception of the first poll that failed, and none if none did; it closes the Kafka consumer and the connection, keeps
  every row already in the table and the uniqueness of event ids, and adds only rows of valid messages of the rounds
  before that. When in addition no insert fails, the event of every valid message of those rounds is then in the
  table, and the same rounds again change no row. (A message whose insert fails is skipped.)
\<close>

theorem consumer_is_idempotent:
  assumes store: "audit_store ins rows" and run: "run_consumer validate ins polls s = (x, s1)"
  shows "x = (case find isl polls of Some (Inl e) \<Rightarrow> Inl e | _ \<Rightarrow> Inr ()) \<and>
     cs_consumer_closed s1 \<and> cs_connection_closed s1 \<and> prefix (rows (cs_database s)) (rows (cs_database s1)) \<and>
     (distinct (map row_key (rows (cs_database s))) \<longrightarrow> distinct (map row_key (rows (cs_database s1)))) \<and>
     set (rows (cs_database s1)) \<subseteq> set (rows (cs_database s)) \<union>
       {row_of e |e m. m \<in> set (concat (concat (rounds_of polls))) \<and> validate m = Some e} \<and>
     ((\<forall>r d. isl (fst (ins r d)) = False) \<longrightarrow>
       (\<forall>m\<in>set (concat (concat (rounds_of polls))). \<forall>e. validate m = Some e \<longrightarrow>
          ae_event_id e \<in> row_key ` set (rows (cs_database s1))) \<and>
       (\<exists>s2. run_consumer validate ins polls s1 = (x, s2) \<and> rows (cs_database s2) = rows (cs_database s1)))"
proof -
  let ?ms = "concat (concat (rounds_of polls))"
  let ?x = "case find isl polls of Some (Inl e) \<Rightarrow> Inl e | _ \<Rightarrow> Inr ()"
  have x: "(case dropWhile (\<lambda>x. \<not> isl x) polls of Inl e # _ \<Rightarrow> Inl e | _ \<Rightarrow> Inr ()) = ?x"
    by (induction polls) (auto split: sum.splits)
  have runs: "consume validate ins ?ms (cs_database s0) = (Inr (), cs_database s') \<and> x' = ?x \<and>
      cs_consumer_closed s' \<and> cs_connection_closed s'"
    if "run_consumer validate ins polls s0 = (x', s')" for s0 x' s'
    using run_consumer_run [of validate ins polls s0] that unfolding x by auto
  note d1 = runs [OF run]
  note keeps = audit_store.consume_keeps [OF store d1 [THEN conjunct1]]
  have again: "(\<forall>m\<in>set ?ms. \<forall>e. validate m = Some e \<longrightarrow> ae_event_id e \<in> row_key ` set (rows (cs_database s1))) \<and>
      (\<exists>s2. run_consumer validate ins polls s1 = (x, s2) \<and> rows (cs_database s2) = rows (cs_database s1))"
    if ok: "\<forall>r d. isl (fst (ins r d)) = False"
  proof
    show all: "\<forall>m\<in>set ?ms. \<forall>e. validate m = Some e \<longrightarrow> ae_event_id e \<in> row_key ` set (rows (cs_database s1))"
      using audit_store.consume_complete [OF store ok d1 [THEN conjunct1]] by blast
    obtain x2 s2 where r2: "run_consumer validate ins polls s1 = (x2, s2)" by fastforce
    with audit_store.consume_known [OF store runs [OF r2, THEN conjunct1] all] runs [OF r2] d1
    show "\<exists>s2. run_consumer validate ins polls s1 = (x, s2) \<and> rows (cs_database s2) = rows (cs_database s1)" by auto
  qed
  show ?thesis using d1 keeps again by blast
qed

theorem consumer_is_idempotent_witness:
  "\<exists>x s1 s2. run_consumer (\<lambda>_. Some (demo_event ''e1'' 0)) demo_insert [Inr [[''m''], [''m'']]]
      \<lparr>cs_database = [], cs_consumer_closed = False, cs_connection_closed = False\<rparr> = (x, s1) \<and> cs_connection_closed s1 \<and>
     run_consumer (\<lambda>_. Some (demo_event ''e1'' 0)) demo_insert [Inr [[''m''], [''m'']]] s1 = (x, s2) \<and>
     cs_database s2 = cs_database s1"
proof -
  let ?s = "\<lparr>cs_database = [], cs_consumer_closed = False, cs_connection_closed = False\<rparr> :: audit_row list consumer_state"
  obtain x s1 where run: "run_consumer (\<lambda>_. Some (demo_event ''e1'' 0)) demo_insert [Inr [[''m''], [''m'']]] ?s = (x, s1)"
    by fastforce
  have ok: "\<forall>r d. isl (fst (demo_insert r d)) = False" by (simp add: demo_insert_def)
  note all = consumer_is_idempotent [OF demo_table.audit_store_axioms run]
  have "cs_connection_closed s1" using all by blast
  moreover have "\<exists>s2. run_consumer (\<lambda>_. Some (demo_event ''e1'' 0)) demo_insert [Inr [[''m''], [''m'']]] s1 = (x, s2) \<and>
      cs_database s2 = cs_database s1" using all ok by blast
  ultimately show ?thesis using run by blast
qed

section \<open>The query API\<close>

text \<open>
  C31: The SQL text that \<open>list_events\<close> sends depends only on which filters are set, never on what
  they contain; as many placeholders are numbered as parameters are passed, the filter values in
  their order and then limit and offset.
\<close>

theorem query_text_carries_no_value:
  assumes same: "nonempty (ef_agent_id f) = None \<longleftrightarrow> nonempty (ef_agent_id g) = None"
    "nonempty (ef_action f) = None \<longleftrightarrow> nonempty (ef_action g) = None"
    "nonempty (ef_decision f) = None \<longleftrightarrow> nonempty (ef_decision g) = None"
    "ef_since f = None \<longleftrightarrow> ef_since g = None" "ef_until f = None \<longleftrightarrow> ef_until g = None"
  shows "fst (build_query f) = fst (build_query g) \<and>
    build_query f = (query_text (map fst (active_filters f)),
      map snd (active_filters f) @ [PInt (ef_limit f), PInt (ef_offset f)])"
proof -
  have "map fst (active_filters f) = map fst (active_filters g)"
    using same unfolding active_filters_append by (auto split: option.splits)
  then show ?thesis by (simp add: build_query_eq)
qed

definition demo_filter :: "string \<Rightarrow> event_filter" where
  "demo_filter a = \<lparr>ef_agent_id = Some a, ef_action = None, ef_decision = Some ''deny'',
     ef_since = None, ef_until = None, ef_limit = 100, ef_offset = 0\<rparr>"

theorem query_text_carries_no_value_witness:
  "fst (build_query (demo_filter ''agent-infra-001'')) = fst (build_query (demo_filter ''x'' ))"
  by (rule query_text_carries_no_value [THEN conjunct1]) (simp_all add: demo_filter_def nonempty_def)

text \<open>
  Further: The verification endpoint, on rows the store returned, counts the call and reports the
  verdict of \<open>verify_chain\<close> on the validated rows, counting a failure exactly when it is negative;
  a row that does not validate makes it 503.
\<close>

theorem verify_endpoint_reports:
  assumes "fetch ''SELECT * FROM audit_events WHERE agent_id = $1 ORDER BY timestamp ASC'' [PStr agent] = Inr rows"
    and "rows \<noteq> []"
  shows "if \<exists>r\<in>set rows. validate r = None
    then verify_chain_endpoint fetch validate agent a =
      (Inl (HTTPException 503 ''Verification unavailable''),
       a\<lparr>aq_chain_verifications := aq_chain_verifications a + 1\<rparr>)
    else \<exists>n. verify_chain_endpoint fetch validate agent a =
      (Inr \<lparr>ch_agent_id = agent, ch_valid = verify_chain (map (the \<circ> validate) rows),
            ch_event_count = length rows, ch_note = None\<rparr>,
       a\<lparr>aq_chain_verifications := aq_chain_verifications a + 1, aq_chain_failures := n\<rparr>) \<and>
      n = aq_chain_failures a + (if verify_chain (map (the \<circ> validate) rows) then 0 else 1)"
proof (cases "\<exists>r\<in>set rows. validate r = None")
  case True
  then have "those (map validate rows) = None"
    by (induction rows) (auto split: option.splits)
  with True assms show ?thesis by (simp add: verify_chain_endpoint_def Let_def)
next
  case False
  then have "those (map validate rows) = Some (map (the \<circ> validate) rows)"
    by (induction rows) auto
  with False assms show ?thesis by (auto simp: verify_chain_endpoint_def Let_def)
qed

definition demo_row_validate :: "audit_row \<Rightarrow> audit_event option" where
  "demo_row_validate r = (if row_execution_result r = None then Some (row_event r) else None)"

definition demo_api :: audit_api where
  "demo_api = \<lparr>aq_queries = 0, aq_chain_verifications = 0, aq_chain_failures = 0\<rparr>"

theorem verify_endpoint_reports_witness:
  "\<exists>n. verify_chain_endpoint (\<lambda>_ _. Inr [row_of demo_second]) demo_row_validate ''a'' demo_api =
     (Inr \<lparr>ch_agent_id = ''a'', ch_valid = True, ch_event_count = 1, ch_note = None\<rparr>,
      demo_api\<lparr>aq_chain_verifications := 1, aq_chain_failures := n\<rparr>)"
proof -
  have s: "ae_execution_result demo_second = None"
    by (simp add: demo_second_def seal_def Let_def demo_event_def)
  then have r: "row_event (row_of demo_second) = demo_second" "row_execution_result (row_of demo_second) = None"
    by (simp_all add: row_of_def)
  have ne: "[row_of demo_second] \<noteq> []" by simp
  have f: "(\<lambda>_ _. Inr [row_of demo_second]) ''SELECT * FROM audit_events WHERE agent_id = $1 ORDER BY timestamp ASC''
      [PStr ''a''] = (Inr [row_of demo_second] :: string + audit_row list)" by simp
  from verify_endpoint_reports [where validate = demo_row_validate and a = demo_api, OF f ne] r demo_chain(2)
  show ?thesis by (auto simp: demo_row_validate_def demo_api_def)
qed

text \<open>
  Further: When the store returns the JSON column as text, which validation refuses for a dictionary
  field, the verification endpoint answers 503 for every agent one of whose persisted events has a
  non-empty execution result, whether its chain is intact or not.
\<close>

theorem execution_results_block_verification:
  assumes json_text: "\<forall>r. row_execution_result r \<noteq> None \<longrightarrow> validate r = None"
    and rows: "fetch ''SELECT * FROM audit_events WHERE agent_id = $1 ORDER BY timestamp ASC'' [PStr agent]
      = Inr (map row_of es)"
    and e: "e \<in> set es" "ae_execution_result e = Some d" "d \<noteq> []"
  shows "fst (verify_chain_endpoint fetch validate agent a) = Inl (HTTPException 503 ''Verification unavailable'')"
proof -
  have "row_execution_result (row_of e) \<noteq> None" using e(2,3) by (simp add: row_of_def)
  then have "validate (row_of e) = None" using json_text by blast
  then have "those (map validate (map row_of es)) = None"
    using e(1) by (induction es) (auto split: option.splits)
  moreover have "es \<noteq> []" using e(1) by auto
  ultimately show ?thesis using rows by (simp add: verify_chain_endpoint_def Let_def)
qed

theorem execution_results_block_verification_witness:
  "fst (verify_chain_endpoint (\<lambda>_ _. Inr (map row_of [demo_first\<lparr>ae_execution_result := Some [(''x'', JNull)]\<rparr>]))
     demo_row_validate ''a'' demo_api) = Inl (HTTPException 503 ''Verification unavailable'')"
  by (rule execution_results_block_verification
      [where es = "[demo_first\<lparr>ae_execution_result := Some [(''x'', JNull)]\<rparr>]"
         and e = "demo_first\<lparr>ae_execution_result := Some [(''x'', JNull)]\<rparr>" and d = "[(''x'', JNull)]"])
    (simp_all add: demo_row_validate_def)

end
