(* ===== verification/Agent_Properties.thy ===== *)
theory Agent_Properties
  imports Agent_Runs Pep_Properties Audit_Properties
begin

text \<open>
  The properties of the base agent: every run ends, what it publishes, and when a tool runs. The
  witnesses run an agent whose one tool counts in the cloud, with the concrete PEP, a Keycloak that always
  answers with a token, and a Kafka topic that is a list.
\<close>

section \<open>A concrete agent\<close>

definition demo_http :: "nat http" where
  "demo_http q h = (Inr \<lparr>hr_status = 200, hr_text = '''',
     hr_json = Some (JObj [(''access_token'', JStr ''tok''), (''active'', JBool True)])\<rparr>, Suc h)"

definition demo_tokens :: "nat token_services" where
  "demo_tokens = \<lparr>tk_time = (\<lambda>h. (of_nat h, Suc h)), tk_uuid = (\<lambda>h. (''j'', Suc h)),
     tk_encode = (\<lambda>p k. Inr ''jwt''), tk_http = demo_http\<rparr>"

definition demo_token_manager :: token_manager where
  "demo_token_manager = load_key_from_string ''pem'' (token_manager_init ''agent-infra-001'' default_settings)"

definition demo_agent :: "opa_reply \<Rightarrow> (mem, string list, nat, nat) base_agent" where
  "demo_agent reply = \<lparr>ba_agent_id = ''agent-infra-001'', ba_agent_type = INFRA,
     ba_registry = registry_init [''cloud:s3:list''], ba_pep = demo_pep reply, ba_tokens = demo_tokens,
     ba_source_ip = ''10.0.1.10'', ba_dump = demo_event_dump, ba_send = demo_send True,
     ba_handlers = [(''s3_list_buckets'', \<lambda>st c. (Inr (JObj [(''count'', JInt (int c))]), Suc c))],
     ba_decision_event_id = ''d1'', ba_decision_time = 0, ba_result_event_id = ''r1'', ba_result_time = 1\<rparr>"

definition demo_agent_world :: "mem \<Rightarrow> (mem, string list, nat, nat) agent_world" where
  "demo_agent_world M = \<lparr>aw_connected = False, aw_server = M, aw_producer = producer_init True, aw_topic = [],
     aw_tokens = demo_token_manager, aw_net = 0, aw_cloud = 4\<rparr>"

definition demo_start :: agent_state where
  "demo_start = initial_state ''s3_list_buckets'' ''arn:aws:s3:::*'' ''t1'' ''staging'' None None"

abbreviation demo_allow :: opa_reply where "demo_allow \<equiv> demo_reply ''ALLOW'' (JStr ''t'')"
abbreviation demo_deny :: opa_reply where "demo_deny \<equiv> demo_reply ''DENY'' (JStr ''t'')"

lemma noted_decision: "st_decision (noted A st) = st_decision st"
  by (simp add: noted_def)

lemma demo_allowed:
  obtains st w where "checked (demo_agent demo_allow) (demo_start, demo_agent_world Map.empty) = (Inr (), (st, w))"
    "st_decision st = Some ''ALLOW''" "aw_cloud w = 4" "st_error st = None" "st_tool_key st = ''s3_list_buckets''"
proof -
  let ?c = "checked (demo_agent demo_allow) (demo_start, demo_agent_world Map.empty)"
  have "fst ?c = Inr ()" by code_simp
  note run = run_parts [OF this]
  have "st_decision (fst (snd ?c)) = Some ''ALLOW''" "aw_cloud (snd (snd ?c)) = 4"
    "st_error (fst (snd ?c)) = None" "st_tool_key (fst (snd ?c)) = ''s3_list_buckets''"
    by code_simp+
  from that [OF run this] show thesis .
qed

lemma demo_denied:
  obtains st w where "checked (demo_agent demo_deny) (demo_start, demo_agent_world Map.empty) = (Inr (), (st, w))"
    "st_decision st = Some ''PolicyDenialError''" "aw_cloud w = 4"
proof -
  let ?c = "checked (demo_agent demo_deny) (demo_start, demo_agent_world Map.empty)"
  have "fst ?c = Inr ()" by code_simp
  note run = run_parts [OF this]
  have "st_decision (fst (snd ?c)) = Some ''PolicyDenialError''" "aw_cloud (snd (snd ?c)) = 4" by code_simp+
  from that [OF run this] show thesis .
qed

section \<open>Termination\<close>

text \<open>
  C20: Every run of an agent ends, whatever the services answer: from the entry node no run has
  more than six steps (the default recursion limit of the graph library is 25), and it ends in exactly one
  configuration, the one \<open>run\<close> gives: END, or the exception that left a node.
\<close>
theorem agent_run_terminates:
  "{k. \<exists>c. (agent_step A ^^ k) (At Fetch_Token, s) c} \<subseteq> {..6} \<and>
   {c. (agent_step A)\<^sup>*\<^sup>* (At Fetch_Token, s) c \<and> (\<nexists>d. agent_step A c d)} = {outcome (invoke A Fetch_Token s)}"
proof (intro conjI equalityI subsetI)
  fix k assume "k \<in> {k. \<exists>c. (agent_step A ^^ k) (At Fetch_Token, s) c}"
  then show "k \<in> {..6}" using agent_steps_rank [where c = "(At Fetch_Token, s)" and k = k and A = A] by fastforce
next
  fix c assume "c \<in> {c. (agent_step A)\<^sup>*\<^sup>* (At Fetch_Token, s) c \<and> (\<nexists>d. agent_step A c d)}"
  then have c: "(agent_step A)\<^sup>*\<^sup>* (At Fetch_Token, s) c" "\<nexists>d. agent_step A c d" by simp_all
  from invoke_path [OF c(1)] have "c = outcome (invoke A Fetch_Token s)"
    by (cases rule: converse_rtranclpE) (use c(2) in blast)+
  then show "c \<in> {outcome (invoke A Fetch_Token s)}" by simp
next
  fix c assume "c \<in> {outcome (invoke A Fetch_Token s)}"
  then show "c \<in> {c. (agent_step A)\<^sup>*\<^sup>* (At Fetch_Token, s) c \<and> (\<nexists>d. agent_step A c d)}"
    using invoke_steps [of A Fetch_Token s] outcome_stuck [of A "invoke A Fetch_Token s"] by simp
qed

section \<open>When a tool runs\<close>

text \<open>
  C2: Whenever a run has arrived at the node that executes the tool, the cloud is still as it was, the PEP
  has allowed exactly this request (this agent, this resource, this task, the policy action of a tool the
  agent's registry holds), and the decision event with ALLOW, the task and the resource is already in the
  Kafka topic or in the producer's buffer, so a crash of the tool cannot lose it.
\<close>
theorem tool_runs_only_after_audited_allow:
  assumes kafka: "topic (ba_send A) sent"
    and at: "(agent_step A)\<^sup>*\<^sup>* (At Fetch_Token, (initial_state tool_key arn task env tags ctx, w)) (At Execute_Tool, (st, w'))"
  shows "aw_cloud w' = aw_cloud w \<and>
    (\<exists>spec p. registry_get (ba_registry A) tool_key = Inr spec \<and> pep_allows (ba_pep A) p \<and>
       agent_id (pw_request p) = ba_agent_id A \<and> action (pw_request p) = ts_action spec \<and>
       resource_arn (pw_request p) = arn \<and> task_id (pw_request p) = task) \<and>
    (\<exists>e. ae_decision e = ''ALLOW'' \<and> ae_agent_id e = ba_agent_id A \<and> ae_task_id e = task \<and>
       ae_resource_arn e = arn \<and> ae_event_id e = ba_decision_event_id A \<and>
       (ba_dump A e \<in> set (sent (aw_topic w')) \<or> e \<in> set (pr_fallback (aw_producer w'))))"
proof -
  let ?s0 = "initial_state tool_key arn task env tags ctx"
  from reached_run [OF at] obtain s1 st2 w2 where f: "node_fetch_token A (?s0, w) = (Inr (), s1)"
    and p: "node_policy_check A s1 = (Inr (), (st2, w2))" and allow: "st_decision st2 = Some ''ALLOW''"
    and w': "w' = publish_event A (decision_event A st2) w2" by auto
  obtain st1 w1 where s1: "s1 = (st1, w1)" by fastforce
  obtain c1 where st1: "st1 = ?s0\<lparr>st_context := c1\<rparr>" and same: "only_tokens w w1"
    using fetch_token_keeps [OF f [unfolded s1]] by (elim exE)
  from p [unfolded s1] have "\<exists>spec q x. registry_get (ba_registry A) (st_tool_key st1) = Inr spec \<and>
      request_of A st1 spec = Inr q \<and> enforce (ba_pep A) (pep_world_of w1 q) = (Inr (), x) \<and>
      aw_cloud w2 = aw_cloud w1 \<and> st_task_id st2 = st_task_id st1 \<and> st_resource_arn st2 = st_resource_arn st1"
  proof (cases rule: policy_check_cases)
    case (unavailable e)
    then show ?thesis using allow by simp
  next
    case (refused spec q e x c)
    then show ?thesis using allow enforce_name [OF refused(3)] pep_errors_not_allow [of "exn_name e"] by simp
  next
    case (permitted spec q x c)
    then show ?thesis by (intro exI [of _ spec] exI [of _ q] exI [of _ x]) simp
  qed simp
  then obtain spec q x where run: "registry_get (ba_registry A) (st_tool_key st1) = Inr spec"
    "request_of A st1 spec = Inr q" "enforce (ba_pep A) (pep_world_of w1 q) = (Inr (), x)"
    "aw_cloud w2 = aw_cloud w1" "st_task_id st2 = st_task_id st1" "st_resource_arn st2 = st_resource_arn st1"
    by (elim exE conjE)
  have fields: "st_tool_key st1 = tool_key" "st_task_id st1 = task" "st_resource_arn st1 = arn"
    by (simp_all add: st1 initial_state_def)
  obtain c where "pw_request x = q\<lparr>req_context := c\<rparr>"
    using enforce_request [OF run(3)] by (auto simp: pep_world_of_def)
  then have req: "agent_id (pw_request x) = ba_agent_id A" "action (pw_request x) = ts_action spec"
    "resource_arn (pw_request x) = arn" "task_id (pw_request x) = task"
    using request_of_fields [OF run(2)] fields by simp_all
  let ?e = "decision_event A st2"
  obtain e' p' k' where pub: "publish (ba_dump A) (ba_send A) ?e (aw_producer w2, aw_topic w2) = (e', (p', k'))"
    by (metis prod_cases3)
  then have world: "aw_topic w' = k'" "aw_producer w' = p'" by (simp_all add: w' publish_event_def)
  have "e' = seal (pr_last_hash (aw_producer w2)) ?e" by (rule publish_run(1) [OF pub])
  then have "ae_decision e' = ''ALLOW''" "ae_agent_id e' = ba_agent_id A" "ae_task_id e' = task"
    "ae_resource_arn e' = arn" "ae_event_id e' = ba_decision_event_id A"
    using run(5,6) fields allow by (simp_all add: decision_event_def new_event_def seal_def Let_def)
  moreover have "ba_dump A e' \<in> set (sent (aw_topic w')) \<or> e' \<in> set (pr_fallback (aw_producer w'))"
    using topic.publish_delivers(1) [OF kafka pub] unfolding world by blast
  moreover have "aw_cloud w' = aw_cloud w" using run(4) only_tokens_simps [OF same] by (simp add: w')
  ultimately show ?thesis using run(1) fields(1) enforce_sound [OF run(3)] req by metis
qed

theorem tool_runs_only_after_audited_allow_witness:
  "\<exists>st w'. (agent_step (demo_agent demo_allow))\<^sup>*\<^sup>* (At Fetch_Token, (demo_start, demo_agent_world Map.empty))
       (At Execute_Tool, (st, w')) \<and> aw_cloud w' = 4"
proof -
  obtain st w where "checked (demo_agent demo_allow) (demo_start, demo_agent_world Map.empty) = (Inr (), (st, w))"
    "st_decision st = Some ''ALLOW''" by (rule demo_allowed)
  note at = reach_execute [OF this]
  have "topic (ba_send (demo_agent demo_allow)) (\<lambda>k. k)" by (simp add: demo_agent_def demo_topic.topic_axioms)
  from tool_runs_only_after_audited_allow [OF this at [unfolded demo_start_def], THEN conjunct1]
  have "aw_cloud (publish_event (demo_agent demo_allow) (decision_event (demo_agent demo_allow) st) w) = 4"
    by (simp only: demo_agent_world_def agent_world.simps)
  with at show ?thesis by (intro exI conjI)
qed

section \<open>What a run publishes\<close>

text \<open>
  C21: A run that returns has published the decision event, with the decision and the reason of its
  state, and, after ALLOW only, a second event that refers to the first and says EXECUTED
  unless the tool left a non-empty error (a tool that fails with an empty message counts as executed).
  The two are sealed as one chain. Without ALLOW the cloud and the result are as at the start.
\<close>
theorem returned_run_is_audited:
  assumes run: "run_agent A tool_key arn task env tags ctx w = (Inr (), (st, w'))"
  shows "\<exists>es out d. publish_all (ba_dump A) (ba_send A) es (aw_producer w, aw_topic w) = (out, (aw_producer w', aw_topic w')) \<and>
     verify_chain out \<and> hd es = d \<and> ae_event_id d = ba_decision_event_id A \<and> ae_agent_id d = ba_agent_id A \<and>
     ae_task_id d = task \<and> ae_action d = tool_key \<and> ae_resource_arn d = arn \<and> st_decision st = Some (ae_decision d) \<and>
     (if ae_decision d = ''ALLOW''
      then \<exists>r. es = [d, r] \<and> ae_task_id r = task \<and> ae_event_id r = ba_result_event_id A \<and>
        ae_decision_reason r = Some (''post-execution update for '' @ ba_decision_event_id A) \<and>
        ae_execution_error r = st_error st \<and>
        (ae_decision r = ''EXECUTED'') = (st_error st = None \<or> st_error st = Some '''')
      else es = [d] \<and> ae_decision_reason d = st_error st \<and> aw_cloud w' = aw_cloud w \<and> st_result st = JNull)"
proof -
  from run obtain st2 w2 n where c: "st_decision st2 = Some n" "n \<noteq> []"
    "st_task_id st2 = task" "st_action st2 = tool_key" "st_resource_arn st2 = arn" "st_result st2 = JNull"
    "aw_producer w2 = aw_producer w" "aw_topic w2 = aw_topic w" "aw_cloud w2 = aw_cloud w"
    and rest: "if n = ''ALLOW'' then \<exists>w3. node_execute_tool A (noted A st2, publish_event A (decision_event A st2) w2) = (Inr (), (st, w3)) \<and>
        w' = publish_event A (result_event A st) w3
     else st = noted A st2 \<and> w' = publish_event A (decision_event A st2) w2"
    by (rule run_audit)
  define d where "d = decision_event A st2"
  have d: "ae_event_id d = ba_decision_event_id A" "ae_agent_id d = ba_agent_id A" "ae_task_id d = task"
    "ae_action d = tool_key" "ae_resource_arn d = arn" "ae_decision d = n" "ae_decision_reason d = st_error st2"
    using c by (simp_all add: d_def decision_event_def new_event_def)
  obtain o1 where o1: "publish_all (ba_dump A) (ba_send A) [d] (aw_producer w, aw_topic w) =
      (o1, (aw_producer (publish_event A d w2), aw_topic (publish_event A d w2)))"
    using publish_event_all [of A d w2] c by metis
  show ?thesis
  proof (cases "n = ''ALLOW''")
    case False
    with rest have w': "st = noted A st2" "w' = publish_event A d w2" by (simp_all add: d_def)
    then have "st_decision st = Some n" "ae_decision_reason d = st_error st" "aw_cloud w' = aw_cloud w" "st_result st = JNull"
      using c d by (simp_all add: noted_def)
    with o1 d publish_all_chain(1) [OF o1] False show ?thesis unfolding w'(2)
      by (intro exI [of _ "[d]"] exI [of _ o1] exI [of _ d]) simp
  next
    case True
    with rest obtain w3 where x: "node_execute_tool A (noted A st2, publish_event A d w2) = (Inr (), (st, w3))"
      and w': "w' = publish_event A (result_event A st) w3" unfolding d_def if_P [OF True] by (elim exE conjE)
    define r where "r = result_event A st"
    have kept: "aw_producer w3 = aw_producer (publish_event A d w2)" "aw_topic w3 = aw_topic (publish_event A d w2)"
      using execute_tool_keeps(2) [OF x] by (metis agent_world.select_convs agent_world.surjective agent_world.update_convs(7))+
    obtain o2 where "publish_all (ba_dump A) (ba_send A) [r] (aw_producer w3, aw_topic w3) = (o2, (aw_producer w', aw_topic w'))"
      using publish_event_all [of A r w3] unfolding w' r_def by (elim exE)
    from publish_all_append [OF o1 this [unfolded kept]]
    have all: "publish_all (ba_dump A) (ba_send A) [d, r] (aw_producer w, aw_topic w) = (o1 @ o2, (aw_producer w', aw_topic w'))"
      by simp
    have "st_decision st = Some n" "dict_get (st_context st) ''_decision_event_id'' = Some (JStr (ba_decision_event_id A))"
      using execute_tool_keeps(3,4) [OF x] c by (simp_all add: noted_def)
    moreover have "st_task_id st = task"
      using x c(3) by (auto simp: node_execute_tool_def noted_def split: option.splits prod.splits sum.splits)
    ultimately have "ae_task_id r = task" "ae_event_id r = ba_result_event_id A"
        "ae_decision_reason r = Some (''post-execution update for '' @ ba_decision_event_id A)"
        "ae_execution_error r = st_error st" "(ae_decision r = ''EXECUTED'') = (st_error st = None \<or> st_error st = Some '''')"
      by (simp_all add: r_def result_event_def new_event_def py_str_def)
    with all d publish_all_chain(1) [OF all] True \<open>st_decision st = Some n\<close> show ?thesis
      by (intro exI [of _ "[d, r]"] exI [of _ "o1 @ o2"] exI [of _ d]) simp
  qed
qed

theorem returned_run_is_audited_witness:
  "\<exists>st w'. run_agent (demo_agent demo_deny) ''s3_list_buckets'' ''arn:aws:s3:::*'' ''t1'' ''staging'' None None
       (demo_agent_world Map.empty) = (Inr (), (st, w')) \<and> aw_cloud w' = 4"
proof -
  obtain st2 w2 where chk: "checked (demo_agent demo_deny) (demo_start, demo_agent_world Map.empty) = (Inr (), (st2, w2))"
    and dec: "st_decision st2 = Some ''PolicyDenialError''" by (rule demo_denied)
  define st where "st = noted (demo_agent demo_deny) st2"
  define w' where "w' = publish_event (demo_agent demo_deny) (decision_event (demo_agent demo_deny) st2) w2"
  have "st_decision st2 \<noteq> Some ''ALLOW''" unfolding dec by code_simp
  from run_after_check [OF chk [unfolded demo_start_def] this] have run:
    "run_agent (demo_agent demo_deny) ''s3_list_buckets'' ''arn:aws:s3:::*'' ''t1'' ''staging'' None None
       (demo_agent_world Map.empty) = (Inr (), (st, w'))" unfolding st_def w'_def .
  have "st_decision st = Some ''PolicyDenialError''" unfolding st_def noted_decision by (rule dec)
  moreover have "''PolicyDenialError'' \<noteq> ''ALLOW''" by code_simp
  moreover from returned_run_is_audited [OF run] obtain es and d :: audit_event where "st_decision st = Some (ae_decision d)"
    "if ae_decision d = ''ALLOW'' then \<exists>r. es = [d, r] \<and> ae_task_id r = ''t1'' \<and>
        ae_event_id r = ba_result_event_id (demo_agent demo_deny) \<and>
        ae_decision_reason r = Some (''post-execution update for '' @ ba_decision_event_id (demo_agent demo_deny)) \<and>
        ae_execution_error r = st_error st \<and>
        (ae_decision r = ''EXECUTED'') = (st_error st = None \<or> st_error st = Some '''')
      else es = [d] \<and> ae_decision_reason d = st_error st \<and> aw_cloud w' = aw_cloud (demo_agent_world Map.empty) \<and> st_result st = JNull"
    by (elim exE conjE)
  ultimately have "aw_cloud w' = aw_cloud (demo_agent_world Map.empty)" by (metis option.inject)
  then show ?thesis using run by (intro exI conjI) (simp_all only: demo_agent_world_def agent_world.simps)
qed

text \<open>
  Further: A run that raises has left no trace: no audit event was published or buffered, the PEP's Redis was
  not asked, no tool ran. It raised what the token manager or the introspection raised, or a
  ValidationError because the introspection's answer is not a JSON object.
\<close>
theorem raising_run_leaves_no_trace:
  assumes run: "run_agent A tool_key arn task env tags ctx w = (Inl e, (st, w'))"
  shows "aw_producer w' = aw_producer w \<and> aw_topic w' = aw_topic w \<and> aw_server w' = aw_server w \<and>
     aw_cloud w' = aw_cloud w \<and> st_decision st = None \<and>
     ((\<exists>tm h. get_token (ba_tokens A) task env (ba_source_ip A) (aw_tokens w, aw_net w) = (Inl e, (tm, h))) \<or>
      (\<exists>token tm h h'. get_token (ba_tokens A) task env (ba_source_ip A) (aw_tokens w, aw_net w) = (Inr token, (tm, h)) \<and>
         introspect (ba_tokens A) tm token h = (Inl e, h')) \<or>
      e = ValidationError ''ActionRequest'')"
  using run unfolding run_agent_def
proof (cases rule: run_cases)
  case (no_token e')
  let ?s0 = "initial_state tool_key arn task env tags ctx"
  have s0: "st_task_id ?s0 = task" "st_environment ?s0 = env" "st_decision ?s0 = None" by (simp_all add: initial_state_def)
  have "st_decision st = None" using fetch_token_keeps(2) [OF no_token(1)] s0(3) by auto
  moreover have "(\<exists>tm h. get_token (ba_tokens A) task env (ba_source_ip A) (aw_tokens w, aw_net w) = (Inl e, (tm, h))) \<or>
      (\<exists>token tm h h'. get_token (ba_tokens A) task env (ba_source_ip A) (aw_tokens w, aw_net w) = (Inr token, (tm, h)) \<and>
         introspect (ba_tokens A) tm token h = (Inl e, h'))"
    using no_token unfolding node_fetch_token_def prod.case s0 by (auto split: prod.splits sum.splits)
  ultimately show ?thesis using only_tokens_simps [OF fetch_token_keeps(1) [OF no_token(1)]] by blast
next
  case (bad_claims spec e' st1)
  from run [unfolded run_agent_def invoke_fetch [OF bad_claims(1)]]
  have "st = st1" using bad_claims(2,3) by (simp add: invoke.simps [of A Policy_Check] node_policy_check_def)
  moreover have "st_decision st1 = None" using fetch_token_keeps(2) [OF bad_claims(1)] by (auto simp: initial_state_def)
  moreover have "e = ValidationError ''ActionRequest''" using bad_claims(4) request_of_raises [OF bad_claims(3)] by simp
  ultimately show ?thesis using only_tokens_simps [OF fetch_token_keeps(1) [OF bad_claims(1)]] by blast
qed simp_all

definition demo_keyless_world :: "(mem, string list, nat, nat) agent_world" where
  "demo_keyless_world = (demo_agent_world Map.empty)\<lparr>aw_tokens := token_manager_init ''agent-infra-001'' default_settings\<rparr>"

theorem raising_run_leaves_no_trace_witness:
  "\<exists>e st w'. run_agent (demo_agent demo_allow) ''s3_list_buckets'' ''arn:aws:s3:::*'' ''t1'' ''staging'' None None
       demo_keyless_world = (Inl e, (st, w')) \<and> aw_cloud w' = 4"
proof -
  let ?n = "node_fetch_token (demo_agent demo_allow) (demo_start, demo_keyless_world)"
  let ?e = "RuntimeError ''Private key not loaded. Call load_key_from_file() first.''"
  have "fst ?n = Inl ?e" by code_simp
  note run = run_parts [OF this]
  have "run_agent (demo_agent demo_allow) ''s3_list_buckets'' ''arn:aws:s3:::*'' ''t1'' ''staging'' None None
       demo_keyless_world = (Inl ?e, (fst (snd ?n), snd (snd ?n)))"
    unfolding run_agent_def demo_start_def [symmetric] by (rule invoke_from(1)) (simp only: run_node.simps, rule run)
  from raising_run_leaves_no_trace [OF this] this have "aw_cloud (snd (snd ?n)) = aw_cloud demo_keyless_world"
    by (elim conjE)
  moreover have "aw_cloud demo_keyless_world = 4" by code_simp
  ultimately show ?thesis using \<open>run_agent _ _ _ _ _ _ _ _ = _\<close> by (intro exI conjI) (assumption, simp only:)
qed

end
