(* ===== verification/Anomaly.thy ===== *)
theory Anomaly
  imports Audit_Log
begin

text \<open>
  \<open>anomaly/scorer.py\<close>, \<open>anomaly/baseline.py\<close> and \<open>anomaly/service.py\<close>: the two detectors, the
  baseline generator and the service that scores each audit event and asks the identity API to
  suspend an agent. scikit-learn's forest (\<open>fit\<close>, \<open>decision_function\<close>), numpy's \<open>exp\<close>, the HTTP
  call and the random numbers are parameters. A \<open>float\<close> is a rational number, so arithmetic is
  exact; \<open>round\<close> is Python's, to even at a tie.
\<close>

section \<open>Numbers\<close>

definition round_half_even :: "rat \<Rightarrow> int" where
  "round_half_even x =
     (let f = floor x; d = x - of_int f in
      if d < 1/2 then f else if d > 1/2 then f + 1 else if even f then f else f + 1)"

definition round4 :: "rat \<Rightarrow> rat" where
  "round4 x = of_int (round_half_even (x * 10000)) / 10000"

text \<open>\<open>f"{x:.4f}"\<close> and the \<open>repr\<close> of a number with at most four decimals, for \<open>0 \<le> x\<close>.\<close>

definition fmt4 :: "rat \<Rightarrow> string" where
  "fmt4 x = (let n = round_half_even (x * 10000) in str_int (n div 10000) @ ''.'' @ pad4 (n mod 10000))"

definition repr4 :: "rat \<Rightarrow> string" where
  "repr4 x =
     (let n = round_half_even (x * 10000);
          digits = rev (dropWhile (\<lambda>c. c = CHR ''0'') (rev (pad4 (n mod 10000))))
      in str_int (n div 10000) @ ''.'' @ (if digits = [] then ''0'' else digits))"

section \<open>Features (scorer.py)\<close>

definition ANOMALY_THRESHOLD :: rat where "ANOMALY_THRESHOLD = 95 / 100"
definition BURST_THRESHOLD :: int where "BURST_THRESHOLD = 10"
definition MIN_FIT_SAMPLES :: nat where "MIN_FIT_SAMPLES = 10"

definition DESTRUCTIVE_KEYWORDS :: "string list" where
  "DESTRUCTIVE_KEYWORDS = [''delete'', ''terminate'', ''destroy'', ''remove'', ''drop'', ''purge'']"

definition SERVICE_ENCODING :: "(string \<times> rat) list" where
  "SERVICE_ENCODING = [(''s3'', 0), (''ec2'', 1), (''iam'', 2), (''guardduty'', 3), (''securityhub'', 4)]"

definition MAX_SERVICE_IDX :: rat where "MAX_SERVICE_IDX = 5"

definition action_service :: "string \<Rightarrow> string" where
  "action_service action =
     (if CHR '':'' \<in> set action then str_lower (takeWhile (\<lambda>c. c \<noteq> CHR '':'') action) else ''other'')"

definition extract_features :: "audit_event \<Rightarrow> rat list" where
  "extract_features e =
     (let hour = of_int (dt_hour (ae_timestamp e)) / 23;
          is_deny = (if ae_decision e = ''DENY'' then 1 else 0);
          action_lower = str_lower (ae_action e);
          is_destructive = (if list_ex (\<lambda>kw. str_contains kw action_lower) DESTRUCTIVE_KEYWORDS then 1 else 0);
          arn_len = min (of_nat (length (ae_resource_arn e)) / 200) 1;
          svc = action_service (ae_action e);
          action_svc = (case dict_get SERVICE_ENCODING svc of Some x \<Rightarrow> x | None \<Rightarrow> MAX_SERVICE_IDX) / MAX_SERVICE_IDX
      in [hour, is_deny, is_destructive, arn_len, action_svc])"

section \<open>The forest scorer\<close>

record 'm forest =
  fo_fit :: "rat list list \<Rightarrow> 'm"
  fo_decision :: "'m \<Rightarrow> rat list \<Rightarrow> rat"
  fo_exp :: "rat \<Rightarrow> rat"

text \<open>An \<open>AnomalyScorer\<close> is its fitted model, once there is one.\<close>

type_synonym 'm scorer = "'m option"

definition scorer_init :: "'m scorer" where "scorer_init = None"

definition fit :: "'m forest \<Rightarrow> audit_event list \<Rightarrow> 'm scorer \<Rightarrow> 'm scorer" where
  "fit F events sc =
     (if length events < MIN_FIT_SAMPLES then sc else Some (fo_fit F (map extract_features events)))"

definition clip01 :: "rat \<Rightarrow> rat" where
  "clip01 x = max 0 (min 1 x)"

definition score :: "'m forest \<Rightarrow> 'm scorer \<Rightarrow> audit_event \<Rightarrow> rat" where
  "score F sc e = (case sc of
       None \<Rightarrow> 0
     | Some m \<Rightarrow>
         (let df = fo_decision F m (extract_features e);
              sigmoid = 1 / (1 + fo_exp F (10 * df))
          in round4 (clip01 sigmoid)))"

definition is_anomalous :: "'m forest \<Rightarrow> 'm scorer \<Rightarrow> audit_event \<Rightarrow> rat \<Rightarrow> bool" where
  "is_anomalous F sc e threshold \<longleftrightarrow> threshold \<le> score F sc e"

section \<open>The burst detector\<close>

record burst_detector =
  bd_baseline :: rat
  bd_threshold :: rat
  bd_count :: int

definition burst_init :: burst_detector where
  "burst_init = \<lparr>bd_baseline = 2, bd_threshold = 5, bd_count = 0\<rparr>"

definition record_many :: "int \<Rightarrow> burst_detector \<Rightarrow> burst_detector" where
  "record_many n b = b\<lparr>bd_count := bd_count b + n\<rparr>"

definition record_one :: "burst_detector \<Rightarrow> burst_detector" where
  "record_one b = b\<lparr>bd_count := bd_count b + 1\<rparr>"

definition is_burst :: "burst_detector \<Rightarrow> bool" where
  "is_burst b \<longleftrightarrow> of_int (bd_count b) > bd_baseline b * bd_threshold b"

definition burst_score :: "burst_detector \<Rightarrow> exn + rat" where
  "burst_score b =
     (if of_int (bd_count b) \<le> bd_baseline b then Inr 0
      else let burst_threshold = bd_baseline b * bd_threshold b in
        if burst_threshold - bd_baseline b = 0 then Inl (ZeroDivisionError ''float division by zero'')
        else Inr (round4 (min 1 (max 0
               ((of_int (bd_count b) - bd_baseline b) / (burst_threshold - bd_baseline b))))))"

definition reset :: "burst_detector \<Rightarrow> burst_detector" where
  "reset b = b\<lparr>bd_count := 0\<rparr>"

section \<open>The service (service.py)\<close>

text \<open>
  The module's dictionaries; the \<open>defaultdict\<close>s are total functions (nothing iterates over them).
  \<open>'w\<close> is the identity API's side of the world: \<open>post agent reason\<close> is the request to its suspend
  endpoint, and whether it was answered with success.
\<close>

record 'm anomaly_state =
  an_scorers :: "string \<Rightarrow> 'm scorer"
  an_bursters :: "string \<Rightarrow> burst_detector"
  an_histories :: "string \<Rightarrow> audit_event list"
  an_latest_scores :: "(string \<times> rat) list"
  an_suspended :: "string set"
  an_events_scored :: int
  an_suspensions :: int
  an_burst_detections :: int

definition anomaly_init :: "'m anomaly_state" where
  "anomaly_init = \<lparr>an_scorers = (\<lambda>_. scorer_init), an_bursters = (\<lambda>_. burst_init), an_histories = (\<lambda>_. []),
     an_latest_scores = [], an_suspended = {}, an_events_scored = 0, an_suspensions = 0, an_burst_detections = 0\<rparr>"

type_synonym 'w post = "string \<Rightarrow> string \<Rightarrow> 'w \<Rightarrow> bool \<times> 'w"

definition HISTORY_MAX :: nat where "HISTORY_MAX = 500"

definition push_history :: "audit_event \<Rightarrow> audit_event list \<Rightarrow> audit_event list" where
  "push_history e h = (let h' = h @ [e] in drop (length h' - HISTORY_MAX) h')"

definition suspend_request ::
  "'w post \<Rightarrow> string \<Rightarrow> string \<Rightarrow> 'm anomaly_state \<times> 'w \<Rightarrow> 'm anomaly_state \<times> 'w" where
  "suspend_request post agent reason = (\<lambda>(s, w).
     if agent \<in> an_suspended s then (s, w)
     else (s\<lparr>an_suspended := insert agent (an_suspended s)\<rparr>, snd (post agent reason w)))"

text \<open>The part of \<open>_process_event\<close> before the decision: history, fit, score, count.\<close>

definition score_step :: "'m forest \<Rightarrow> audit_event \<Rightarrow> 'm anomaly_state \<Rightarrow> rat \<times> 'm anomaly_state" where
  "score_step F e s =
     (let a = ae_agent_id e;
          h = push_history e (an_histories s a);
          sc = (if MIN_FIT_SAMPLES \<le> length h \<and> an_scorers s a = None then fit F h (an_scorers s a) else an_scorers s a);
          v = score F sc e
      in (v, s\<lparr>an_histories := (an_histories s)(a := h), an_scorers := (an_scorers s)(a := sc),
             an_latest_scores := dict_set (an_latest_scores s) a v,
             an_events_scored := an_events_scored s + 1,
             an_bursters := (an_bursters s)(a := record_one (an_bursters s a))\<rparr>))"

definition burst_reason :: "burst_detector \<Rightarrow> string" where
  "burst_reason b = ''Burst detection: '' @ str_int (bd_count b) @ '' events in window''"

definition score_reason :: "rat \<Rightarrow> string" where
  "score_reason v = ''Anomaly score '' @ fmt4 v @ '' >= 0.95''"

definition process_event ::
  "'m forest \<Rightarrow> 'w post \<Rightarrow> audit_event \<Rightarrow> 'm anomaly_state \<times> 'w \<Rightarrow> 'm anomaly_state \<times> 'w" where
  "process_event F post e = (\<lambda>(s, w).
     (let a = ae_agent_id e in
      case score_step F e s of (v, s1) \<Rightarrow>
        if is_burst (an_bursters s1 a)
        then (case suspend_request post a (burst_reason (an_bursters s1 a))
                     (s1\<lparr>an_burst_detections := an_burst_detections s1 + 1\<rparr>, w) of
                (s2, w') \<Rightarrow> (s2\<lparr>an_bursters := (an_bursters s2)(a := reset (an_bursters s2 a))\<rparr>, w'))
        else if is_anomalous F (an_scorers s1 a) e ANOMALY_THRESHOLD
        then suspend_request post a (score_reason v) (s1\<lparr>an_suspensions := an_suspensions s1 + 1\<rparr>, w)
        else (s1, w)))"

fun process_events ::
  "'m forest \<Rightarrow> 'w post \<Rightarrow> audit_event list \<Rightarrow> 'm anomaly_state \<times> 'w \<Rightarrow> 'm anomaly_state \<times> 'w" where
  "process_events F post [] sw = sw"
| "process_events F post (e # es) sw = process_events F post es (process_event F post e sw)"

text \<open>The endpoints.\<close>

record scores_reply =
  sc_scores :: "(string \<times> rat) list"
  sc_suspended :: "string set"
  sc_events_scored :: int

definition get_scores :: "'m anomaly_state \<Rightarrow> scores_reply" where
  "get_scores s = \<lparr>sc_scores = an_latest_scores s, sc_suspended = an_suspended s,
     sc_events_scored = an_events_scored s\<rparr>"

record score_reply =
  so_agent_id :: string
  so_anomaly_score :: rat
  so_is_anomalous :: bool
  so_is_burst :: bool
  so_burst_score :: rat

definition score_event :: "'m forest \<Rightarrow> audit_event \<Rightarrow> ('m anomaly_state, score_reply) comp" where
  "score_event F e = (\<lambda>s.
     (let a = ae_agent_id e; sc = an_scorers s a; b = record_one (an_bursters s a);
          s' = s\<lparr>an_bursters := (an_bursters s)(a := b)\<rparr>
      in case burst_score b of
           Inl err \<Rightarrow> (Inl err, s')
         | Inr bs \<Rightarrow> (Inr \<lparr>so_agent_id = a, so_anomaly_score = score F sc e,
             so_is_anomalous = is_anomalous F sc e ANOMALY_THRESHOLD, so_is_burst = is_burst b,
             so_burst_score = bs\<rparr>, s')))"

definition anomaly_metrics :: "'m anomaly_state \<Rightarrow> string" where
  "anomaly_metrics s =
     str_join [CHR 0x0A]
       ([''# HELP nhi_anomaly_events_scored_total Total audit events scored by anomaly service'',
         ''# TYPE nhi_anomaly_events_scored_total counter'',
         ''nhi_anomaly_events_scored_total '' @ str_int (an_events_scored s),
         ''# HELP nhi_suspended_identities_total Total identity suspensions triggered by anomaly service'',
         ''# TYPE nhi_suspended_identities_total counter'',
         ''nhi_suspended_identities_total '' @ str_int (an_suspensions s),
         ''# HELP nhi_burst_detections_total Total burst detection events'',
         ''# TYPE nhi_burst_detections_total counter'',
         ''nhi_burst_detections_total '' @ str_int (an_burst_detections s)] @
        map (\<lambda>(a, v). ''nhi_anomaly_score{agent_id='' @ [CHR 0x22] @ a @ [CHR 0x22] @ ''} '' @ repr4 v)
          (an_latest_scores s))
     @ [CHR 0x0A]"

text \<open>The Kafka loop: a message that does not validate is logged and skipped.\<close>

fun consume_kafka ::
  "'m forest \<Rightarrow> 'w post \<Rightarrow> ('x \<Rightarrow> audit_event option) \<Rightarrow> 'x list \<Rightarrow> 'm anomaly_state \<times> 'w \<Rightarrow> 'm anomaly_state \<times> 'w" where
  "consume_kafka F post validate [] sw = sw"
| "consume_kafka F post validate (m # ms) sw = consume_kafka F post validate ms
     (case validate m of Some e \<Rightarrow> process_event F post e sw | None \<Rightarrow> sw)"

lemma consume_kafka_events:
  "consume_kafka F post validate ms sw = process_events F post (List.map_filter validate ms) sw"
  by (induction ms arbitrary: sw) (simp_all add: List.map_filter_simps split: option.splits)

text \<open>
  \<open>_consume_kafka\<close>: without \<open>aiokafka\<close> it returns at once, and a failing start ends it before the
  try. Otherwise the stream gives a message, or the exception of the
  deserializer or of Kafka, which ends the task; then the consumer is stopped in any case.
\<close>

fun kafka_stream ::
  "'m forest \<Rightarrow> 'w post \<Rightarrow> ('x \<Rightarrow> audit_event option) \<Rightarrow> (exn + 'x) list \<Rightarrow> ('m anomaly_state \<times> 'w, unit) comp" where
  "kafka_stream F post validate [] = ret ()"
| "kafka_stream F post validate (Inl e # ms) = throw e"
| "kafka_stream F post validate (Inr m # ms) = (\<lambda>sw. kafka_stream F post validate ms
     (case validate m of Some e \<Rightarrow> process_event F post e sw | None \<Rightarrow> sw))"

record 'w consumer_task =
  ct_world :: 'w
  ct_stopped :: bool

definition run_consumer_task ::
  "bool \<Rightarrow> exn option \<Rightarrow> 'm forest \<Rightarrow> 'w post \<Rightarrow> ('x \<Rightarrow> audit_event option) \<Rightarrow> (exn + 'x) list \<Rightarrow>
    (('m anomaly_state \<times> 'w) consumer_task, unit) comp" where
  "run_consumer_task installed start_error F post validate ms = (\<lambda>t.
     if \<not> installed then (Inr (), t)
     else case start_error of
       Some e \<Rightarrow> (Inl e, t)
     | None \<Rightarrow> (case kafka_stream F post validate ms (ct_world t) of
         (x, sw) \<Rightarrow> (x, t\<lparr>ct_world := sw, ct_stopped := True\<rparr>)))"

text \<open>What comes after the first failure is never processed.\<close>

lemma kafka_stream_prefix:
  "kafka_stream F post validate ms sw =
     (case dropWhile (\<lambda>x. \<not> isl x) ms of Inl e # _ \<Rightarrow> Inl e | _ \<Rightarrow> Inr (),
      process_events F post (List.map_filter validate (map projr (takeWhile (\<lambda>x. \<not> isl x) ms))) sw)"
proof (induction ms arbitrary: sw)
  case (Cons m ms)
  then show ?case by (cases m) (simp_all add: List.map_filter_simps split: option.splits)
qed (simp add: List.map_filter_simps)

section \<open>Bounds\<close>

lemma round_half_even_le: "x \<le> of_int n \<Longrightarrow> round_half_even x \<le> n"
proof -
  assume x: "x \<le> of_int n"
  then have f: "\<lfloor>x\<rfloor> \<le> n" using floor_mono [OF x] by simp
  show ?thesis
  proof (cases "\<lfloor>x\<rfloor> = n")
    case True
    then have "of_int n \<le> x" using of_int_floor_le [of x] by simp
    with x have "x = of_int n" by simp
    then show ?thesis by (simp add: round_half_even_def)
  next
    case False
    with f show ?thesis by (auto simp: round_half_even_def Let_def)
  qed
qed

lemma round_half_even_ge: "of_int n \<le> x \<Longrightarrow> n \<le> round_half_even x"
proof -
  assume "of_int n \<le> x"
  then have "n \<le> \<lfloor>x\<rfloor>" by (simp add: le_floor_iff)
  then show ?thesis by (auto simp: round_half_even_def Let_def)
qed

lemma round4_unit: "0 \<le> x \<Longrightarrow> x \<le> 1 \<Longrightarrow> 0 \<le> round4 x \<and> round4 x \<le> 1"
proof -
  assume x: "0 \<le> x" "x \<le> 1"
  have "0 \<le> round_half_even (x * 10000)" "round_half_even (x * 10000) \<le> 10000"
    using round_half_even_ge [of 0 "x * 10000"] round_half_even_le [of "x * 10000" 10000] x by simp_all
  then have "(0::rat) \<le> of_int (round_half_even (x * 10000))"
    "of_int (round_half_even (x * 10000)) \<le> (of_int 10000 :: rat)"
    by (simp_all only: of_int_le_iff of_int_0_le_iff)
  then show ?thesis by (simp add: round4_def)
qed

lemma dt_hour_unit: "0 \<le> (of_int (dt_hour t) / 23 :: rat) \<and> (of_int (dt_hour t) / 23 :: rat) \<le> 1"
proof -
  have "0 \<le> dt_hour t" "dt_hour t \<le> 23" using instant_ranges [of t] by simp_all
  then have "(0::rat) \<le> of_int (dt_hour t)" "of_int (dt_hour t) \<le> (of_int 23 :: rat)"
    by (simp_all only: of_int_le_iff of_int_0_le_iff)
  then show ?thesis by simp
qed

lemma service_unit:
  "0 \<le> (case dict_get SERVICE_ENCODING svc of Some x \<Rightarrow> x | None \<Rightarrow> MAX_SERVICE_IDX) / MAX_SERVICE_IDX \<and>
   (case dict_get SERVICE_ENCODING svc of Some x \<Rightarrow> x | None \<Rightarrow> MAX_SERVICE_IDX) / MAX_SERVICE_IDX \<le> 1"
proof (cases "dict_get SERVICE_ENCODING svc")
  case (Some x)
  then have "x \<in> snd ` set SERVICE_ENCODING" unfolding dict_get_def by (force dest: map_of_SomeD)
  then have "x \<in> {0, 1, 2, 3, 4}" by (simp add: SERVICE_ENCODING_def)
  with Some show ?thesis by (auto simp: MAX_SERVICE_IDX_def)
qed (simp add: MAX_SERVICE_IDX_def)

lemma extract_features_unit: "length (extract_features e) = 5 \<and> (\<forall>x\<in>set (extract_features e). 0 \<le> x \<and> x \<le> 1)"
proof -
  define a :: rat where "a = of_int (dt_hour (ae_timestamp e)) / 23"
  define b :: rat where "b = (if ae_decision e = ''DENY'' then 1 else 0)"
  define c :: rat where "c = (if list_ex (\<lambda>kw. str_contains kw (str_lower (ae_action e))) DESTRUCTIVE_KEYWORDS then 1 else 0)"
  define d :: rat where "d = min (of_nat (length (ae_resource_arn e)) / 200) 1"
  define f where "f = (case dict_get SERVICE_ENCODING (action_service (ae_action e)) of
      Some x \<Rightarrow> x | None \<Rightarrow> MAX_SERVICE_IDX) / MAX_SERVICE_IDX"
  have eq: "extract_features e = [a, b, c, d, f]"
    unfolding extract_features_def Let_def a_def b_def c_def d_def f_def by (rule refl)
  have "0 \<le> a \<and> a \<le> 1" unfolding a_def by (rule dt_hour_unit)
  moreover have "0 \<le> (if P then 1 else 0 :: rat) \<and> (if P then 1 else 0 :: rat) \<le> 1" for P by simp
  then have "0 \<le> b \<and> b \<le> 1" "0 \<le> c \<and> c \<le> 1" unfolding b_def c_def by blast+
  moreover have "0 \<le> d \<and> d \<le> 1" by (simp add: d_def)
  moreover have "0 \<le> f \<and> f \<le> 1" unfolding f_def by (rule service_unit)
  ultimately show ?thesis by (simp add: eq)
qed

lemma score_unit: "0 \<le> score F sc e \<and> score F sc e \<le> 1"
proof (cases sc)
  case (Some m)
  have "0 \<le> clip01 x \<and> clip01 x \<le> 1" for x by (simp add: clip01_def)
  with Some show ?thesis using round4_unit by (simp add: score_def Let_def)
qed (simp add: score_def)

section \<open>What one event does\<close>

definition ask :: "'w post \<Rightarrow> (string \<times> string) list \<Rightarrow> 'w \<Rightarrow> 'w" where
  "ask post calls w = fold (\<lambda>(a, r) w. snd (post a r w)) calls w"

lemma score_step_simps:
  assumes "score_step F e s = (v, s1)"
  shows "an_suspended s1 = an_suspended s"
    and "an_bursters s1 = (an_bursters s)(ae_agent_id e := record_one (an_bursters s (ae_agent_id e)))"
    and "v = score F (an_scorers s1 (ae_agent_id e)) e"
  using assms by (auto simp: score_step_def Let_def)

lemma suspend_request_simps [simp]:
  "agent \<in> an_suspended s \<Longrightarrow> suspend_request post agent r (s, w) = (s, w)"
  "agent \<notin> an_suspended s \<Longrightarrow> suspend_request post agent r (s, w) =
     (s\<lparr>an_suspended := insert agent (an_suspended s)\<rparr>, snd (post agent r w))"
  by (simp_all add: suspend_request_def)

lemma suspend_request_facts:
  assumes "suspend_request post a r (s, w) = (s2, w2)"
  shows "an_suspended s2 = insert a (an_suspended s)" and "an_bursters s2 = an_bursters s"
    and "w2 = (if a \<in> an_suspended s then w else snd (post a r w))"
proof -
  have "an_suspended (fst (suspend_request post a r (s, w))) = insert a (an_suspended s)"
    "an_bursters (fst (suspend_request post a r (s, w))) = an_bursters s"
    "snd (suspend_request post a r (s, w)) = (if a \<in> an_suspended s then w else snd (post a r w))"
    by (simp_all add: suspend_request_def insert_absorb)
  then show "an_suspended s2 = insert a (an_suspended s)" "an_bursters s2 = an_bursters s"
    "w2 = (if a \<in> an_suspended s then w else snd (post a r w))"
    unfolding assms fst_conv snd_conv by blast+
qed

lemma process_event_burst:
  assumes "score_step F e s = (v, s1)" and "is_burst (an_bursters s1 (ae_agent_id e))"
    and "process_event F post e (s, w) = (s', w')"
  shows "an_suspended s' = insert (ae_agent_id e) (an_suspended s)"
    and "w' = (if ae_agent_id e \<in> an_suspended s then w
      else snd (post (ae_agent_id e) (burst_reason (an_bursters s1 (ae_agent_id e))) w))"
    and "b \<noteq> ae_agent_id e \<Longrightarrow> an_bursters s' b = an_bursters s1 b"
proof -
  have s1: "an_suspended s1 = an_suspended s" by (rule score_step_simps(1) [OF assms(1)])
  obtain s2 w2 where s2: "suspend_request post (ae_agent_id e) (burst_reason (an_bursters s1 (ae_agent_id e)))
      (s1\<lparr>an_burst_detections := an_burst_detections s1 + 1\<rparr>, w) = (s2, w2)" by fastforce
  have "process_event F post e (s, w) =
      (s2\<lparr>an_bursters := (an_bursters s2)(ae_agent_id e := reset (an_bursters s2 (ae_agent_id e)))\<rparr>, w2)"
    unfolding process_event_def Let_def assms(1) prod.case if_P [OF assms(2)] s2 by (rule refl)
  then have s': "s' = s2\<lparr>an_bursters := (an_bursters s2)(ae_agent_id e := reset (an_bursters s2 (ae_agent_id e)))\<rparr>"
    "w' = w2" using assms(3) by simp_all
  have "an_suspended s2 = insert (ae_agent_id e) (an_suspended s) \<and> an_bursters s2 = an_bursters s1 \<and>
    w2 = (if ae_agent_id e \<in> an_suspended s then w
      else snd (post (ae_agent_id e) (burst_reason (an_bursters s1 (ae_agent_id e))) w))"
    using suspend_request_facts [OF s2] s1 by simp
  then show "an_suspended s' = insert (ae_agent_id e) (an_suspended s)"
    "w' = (if ae_agent_id e \<in> an_suspended s then w
      else snd (post (ae_agent_id e) (burst_reason (an_bursters s1 (ae_agent_id e))) w))"
    "b \<noteq> ae_agent_id e \<Longrightarrow> an_bursters s' b = an_bursters s1 b"
    using s' by simp_all
qed

lemma process_event_score:
  assumes "score_step F e s = (v, s1)" and "\<not> is_burst (an_bursters s1 (ae_agent_id e))"
    and "process_event F post e (s, w) = (s', w')"
  shows "an_bursters s' = an_bursters s1"
    and "(an_suspended s' = an_suspended s \<and> w' = w) \<or>
      (ae_agent_id e \<notin> an_suspended s \<and> an_suspended s' = insert (ae_agent_id e) (an_suspended s) \<and>
        w' = snd (post (ae_agent_id e) (score_reason v) w))"
proof -
  have s1: "an_suspended s1 = an_suspended s" by (rule score_step_simps(1) [OF assms(1)])
  have run: "(if is_anomalous F (an_scorers s1 (ae_agent_id e)) e ANOMALY_THRESHOLD
        then suspend_request post (ae_agent_id e) (score_reason v) (s1\<lparr>an_suspensions := an_suspensions s1 + 1\<rparr>, w)
        else (s1, w)) = (s', w')"
    using assms(3) unfolding process_event_def Let_def assms(1) prod.case if_not_P [OF assms(2)] .
  obtain s2 w2 where s2: "suspend_request post (ae_agent_id e) (score_reason v)
      (s1\<lparr>an_suspensions := an_suspensions s1 + 1\<rparr>, w) = (s2, w2)" by fastforce
  have "an_bursters s2 = an_bursters s1 \<and> ((an_suspended s2 = an_suspended s \<and> w2 = w) \<or>
      (ae_agent_id e \<notin> an_suspended s \<and> an_suspended s2 = insert (ae_agent_id e) (an_suspended s) \<and>
        w2 = snd (post (ae_agent_id e) (score_reason v) w)))"
    using suspend_request_facts [OF s2] s1 by (simp add: insert_absorb)
  moreover have "(s', w') = (s2, w2) \<or> (s', w') = (s1, w)"
    using run s2 by presburger
  ultimately show "an_bursters s' = an_bursters s1"
    "(an_suspended s' = an_suspended s \<and> w' = w) \<or>
      (ae_agent_id e \<notin> an_suspended s \<and> an_suspended s' = insert (ae_agent_id e) (an_suspended s) \<and>
        w' = snd (post (ae_agent_id e) (score_reason v) w))"
    using s1 by auto
qed

lemma process_event_cases:
  assumes "process_event F post e (s, w) = (s', w')"
  obtains (kept) "an_suspended s' = an_suspended s" "w' = w"
  | (asked) r where "ae_agent_id e \<notin> an_suspended s" "an_suspended s' = insert (ae_agent_id e) (an_suspended s)"
      "w' = snd (post (ae_agent_id e) r w)"
proof -
  obtain v s1 where s1: "score_step F e s = (v, s1)" by fastforce
  show thesis
  proof (cases "is_burst (an_bursters s1 (ae_agent_id e))")
    case True
    with process_event_burst(1,2) [OF s1 True assms] that show thesis
      by (cases "ae_agent_id e \<in> an_suspended s") (simp_all add: insert_absorb)
  next
    case False
    from process_event_score(2) [OF s1 False assms] that show thesis by blast
  qed
qed

lemma process_events_calls:
  assumes "process_events F post es (s, w) = (s', w')"
  shows "\<exists>calls. w' = ask post calls w \<and> distinct (map fst calls) \<and>
     set (map fst calls) = an_suspended s' - an_suspended s \<and> an_suspended s \<subseteq> an_suspended s' \<and>
     set (map fst calls) \<subseteq> ae_agent_id ` set es"
  using assms
proof (induction es arbitrary: s w)
  case Nil
  then show ?case by (intro exI [of _ "[]"]) (simp add: ask_def)
next
  case (Cons e es)
  obtain s1 w1 where one: "process_event F post e (s, w) = (s1, w1)" by fastforce
  then have "process_events F post es (s1, w1) = (s', w')" using Cons.prems by simp
  from Cons.IH [OF this] obtain calls where c: "w' = ask post calls w1" "distinct (map fst calls)"
    "set (map fst calls) = an_suspended s' - an_suspended s1" "an_suspended s1 \<subseteq> an_suspended s'"
    "set (map fst calls) \<subseteq> ae_agent_id ` set es" by blast
  from one show ?case
  proof (cases rule: process_event_cases)
    case kept
    with c show ?thesis by (intro exI [of _ calls]) auto
  next
    case (asked r)
    with c show ?thesis by (intro exI [of _ "(ae_agent_id e, r) # calls"]) (auto simp: ask_def)
  qed
qed

section \<open>The burst counter of an agent\<close>

definition events_of :: "string \<Rightarrow> audit_event list \<Rightarrow> nat" where
  "events_of a es = length (filter (\<lambda>e. ae_agent_id e = a) es)"

lemma is_burst_init: "is_burst (burst_init\<lparr>bd_count := n\<rparr>) \<longleftrightarrow> n > 10"
proof -
  have "(of_int n > (10 :: rat)) \<longleftrightarrow> n > 10"
    using of_int_less_iff [of 10 n, where ?'a = rat] by simp
  then show ?thesis by (simp add: is_burst_def burst_init_def)
qed

lemma process_event_other:
  assumes "process_event F post e (s, w) = (s', w')" and "ae_agent_id e \<noteq> a"
  shows "an_bursters s' a = an_bursters s a"
proof -
  obtain v s1 where s1: "score_step F e s = (v, s1)" by fastforce
  have b: "an_bursters s1 a = an_bursters s a" using score_step_simps(2) [OF s1] assms(2) by simp
  show ?thesis
  proof (cases "is_burst (an_bursters s1 (ae_agent_id e))")
    case True
    with process_event_burst(3) [OF s1 True assms(1)] assms(2) b show ?thesis by metis
  next
    case False
    with process_event_score(1) [OF s1 False assms(1)] b show ?thesis by simp
  qed
qed

lemma process_event_counter:
  assumes "process_event F post e (s, w) = (s', w')" and "a \<notin> an_suspended s'"
    and "an_bursters s a = burst_init\<lparr>bd_count := n\<rparr>"
  shows "an_bursters s' a = burst_init\<lparr>bd_count := n + (if ae_agent_id e = a then 1 else 0)\<rparr> \<and>
    (ae_agent_id e = a \<longrightarrow> n < 10)"
proof (cases "ae_agent_id e = a")
  case True
  obtain v s1 where s1: "score_step F e s = (v, s1)" by fastforce
  have b: "an_bursters s1 a = burst_init\<lparr>bd_count := n + 1\<rparr>"
    using score_step_simps(2) [OF s1] True assms(3) by (simp add: record_one_def)
  have nb: "\<not> is_burst (an_bursters s1 (ae_agent_id e))"
    using process_event_burst(1) [OF s1 _ assms(1)] assms(2) True by blast
  then have "n < 10" unfolding True b is_burst_init by simp
  with process_event_score(1) [OF s1 nb assms(1)] b True show ?thesis by simp
next
  case False
  with process_event_other [OF assms(1) False] assms(3) show ?thesis by simp
qed

lemma process_events_counter:
  assumes "process_events F post es (s, w) = (s', w')" and "a \<notin> an_suspended s'"
    and "an_bursters s a = burst_init\<lparr>bd_count := n\<rparr>" and "n \<le> 10"
  shows "an_bursters s' a = burst_init\<lparr>bd_count := n + int (events_of a es)\<rparr> \<and> n + int (events_of a es) \<le> 10"
  using assms
proof (induction es arbitrary: s w n)
  case Nil
  then show ?case by (simp add: events_of_def)
next
  case (Cons e es)
  obtain s1 w1 where one: "process_event F post e (s, w) = (s1, w1)" by fastforce
  then have rest: "process_events F post es (s1, w1) = (s', w')" using Cons.prems by simp
  have "a \<notin> an_suspended s1" using process_events_calls [OF rest] Cons.prems(2) by blast
  from process_event_counter [OF one this Cons.prems(3)]
  have b: "an_bursters s1 a = burst_init\<lparr>bd_count := n + (if ae_agent_id e = a then 1 else 0)\<rparr>"
    "ae_agent_id e = a \<longrightarrow> n < 10" by simp_all
  then have "n + (if ae_agent_id e = a then 1 else 0) \<le> 10" using Cons.prems(4) by auto
  from Cons.IH [OF rest Cons.prems(2) b(1) this] show ?case
    by (auto simp: events_of_def algebra_simps split: if_splits)
qed

section \<open>What the service remembers of an agent\<close>

text \<open>Whatever is decided about an event, the history, the model, the score and the count of scored events
  are those of \<^const>\<open>score_step\<close>.\<close>

lemma process_event_keeps:
  assumes "score_step F e s = (v, s1)"
  shows "an_histories (fst (process_event F post e (s, w))) = an_histories s1"
    and "an_scorers (fst (process_event F post e (s, w))) = an_scorers s1"
    and "an_latest_scores (fst (process_event F post e (s, w))) = an_latest_scores s1"
    and "an_events_scored (fst (process_event F post e (s, w))) = an_events_scored s1"
  unfolding process_event_def Let_def prod.case assms
  by (simp_all add: suspend_request_def split_beta)

definition window :: "audit_event list \<Rightarrow> audit_event list" where
  "window es = drop (length es - HISTORY_MAX) es"

definition events_by :: "string \<Rightarrow> audit_event list \<Rightarrow> audit_event list" where
  "events_by a es = filter (\<lambda>e. ae_agent_id e = a) es"

definition first_model :: "'m forest \<Rightarrow> audit_event list \<Rightarrow> 'm scorer" where
  "first_model F es = (if length es < MIN_FIT_SAMPLES then None
     else Some (fo_fit F (map extract_features (take MIN_FIT_SAMPLES es))))"

lemma window_snoc: "push_history e (window es) = window (es @ [e])"
proof -
  have "length es - (length es - 500 + 499) + (length es - 500) = length es - 499" by arith
  then show ?thesis by (simp add: push_history_def window_def Let_def HISTORY_MAX_def)
qed

lemma first_model_snoc:
  "(if MIN_FIT_SAMPLES \<le> length (window (es @ [e])) \<and> first_model F es = None
    then fit F (window (es @ [e])) (first_model F es) else first_model F es) = first_model F (es @ [e])"
  by (auto simp: first_model_def fit_def window_def HISTORY_MAX_def MIN_FIT_SAMPLES_def)

text \<open>\<open>remembers F past s\<close>: the service state after the events \<open>past\<close>.\<close>

definition remembers :: "'m forest \<Rightarrow> audit_event list \<Rightarrow> 'm anomaly_state \<Rightarrow> bool" where
  "remembers F past s \<longleftrightarrow> (\<forall>a. an_histories s a = window (events_by a past) \<and>
     an_scorers s a = first_model F (events_by a past)) \<and>
     an_events_scored s = int (length past) \<and> (\<forall>x\<in>set (an_latest_scores s). 0 \<le> snd x \<and> snd x \<le> 1)"

lemma remembers_init: "remembers F [] anomaly_init"
  by (simp add: remembers_def anomaly_init_def window_def events_by_def first_model_def scorer_init_def MIN_FIT_SAMPLES_def)

lemma set_dict_set: "set (dict_set d k v) \<subseteq> insert (k, v) (set d)"
  unfolding dict_set_def by (induction d) auto

lemma remembers_step:
  assumes "remembers F past s" and "process_event F post e (s, w) = (s', w')"
  shows "remembers F (past @ [e]) s'"
proof -
  let ?a = "ae_agent_id e"
  obtain v s1 where s1: "score_step F e s = (v, s1)" by fastforce
  note kept = process_event_keeps [OF s1, where post = post and w = w, unfolded assms(2) fst_conv]
  have old: "an_histories s a = window (events_by a past)" "an_scorers s a = first_model F (events_by a past)" for a
    using assms(1) by (auto simp: remembers_def)
  have new: "an_histories s1 a = window (events_by a (past @ [e])) \<and>
      an_scorers s1 a = first_model F (events_by a (past @ [e]))" for a
    using s1 window_snoc [of e "events_by ?a past"] first_model_snoc [of "events_by ?a past" e F]
    by (auto simp: score_step_def Let_def old events_by_def)
  have "v = score F (an_scorers s1 ?a) e" by (rule score_step_simps(3) [OF s1])
  then have v: "0 \<le> v \<and> v \<le> 1" using score_unit by simp
  have "an_latest_scores s1 = dict_set (an_latest_scores s) ?a v"
    "an_events_scored s1 = an_events_scored s + 1"
    using s1 by (auto simp: score_step_def Let_def)
  then have "\<forall>x\<in>set (an_latest_scores s1). 0 \<le> snd x \<and> snd x \<le> 1" "an_events_scored s1 = int (length past) + 1"
    using set_dict_set [of "an_latest_scores s" ?a v] assms(1) v by (force simp: remembers_def)+
  with new show ?thesis unfolding remembers_def kept by simp
qed

lemma remembers_run:
  "remembers F past s \<Longrightarrow> remembers F (past @ es) (fst (process_events F post es (s, w)))"
proof (induction es arbitrary: past s w)
  case Nil
  then show ?case by simp
next
  case (Cons e es)
  obtain s1 w1 where one: "process_event F post e (s, w) = (s1, w1)" by fastforce
  from Cons.IH [OF remembers_step [OF Cons.prems one]] one show ?case by simp
qed

text \<open>Requests to \<open>POST /score\<close> advance the same counter.\<close>

fun score_requests :: "'m forest \<Rightarrow> audit_event list \<Rightarrow> 'm anomaly_state \<Rightarrow> 'm anomaly_state" where
  "score_requests F [] s = s"
| "score_requests F (e # es) s = score_requests F es (snd (score_event F e s))"

lemma score_event_state:
  "snd (score_event F e s) = s\<lparr>an_bursters := (an_bursters s)(ae_agent_id e := record_one (an_bursters s (ae_agent_id e)))\<rparr>"
  by (simp add: score_event_def Let_def split: sum.splits)

lemma score_requests_state:
  "\<exists>b. score_requests F es s = s\<lparr>an_bursters := b\<rparr> \<and>
    b a = record_many (int (events_of a es)) (an_bursters s a)"
proof (induction es arbitrary: s)
  case Nil
  then show ?case by (intro exI [of _ "an_bursters s"]) (simp add: events_of_def record_many_def)
next
  case (Cons e es)
  from Cons [of "snd (score_event F e s)"] obtain b where
    "score_requests F es (snd (score_event F e s)) = (snd (score_event F e s))\<lparr>an_bursters := b\<rparr>"
    "b a = record_many (int (events_of a es)) (an_bursters (snd (score_event F e s)) a)" by blast
  then show ?case
    by (intro exI [of _ b]) (auto simp: score_event_state events_of_def record_many_def record_one_def)
qed

end
