(* ===== verification/Anomaly_Baseline.thy ===== *)
theory Anomaly_Baseline
  imports Anomaly
begin

text \<open>
  \<open>anomaly/baseline.py\<close>: synthetic events for an agent type, and statistics over the features. The
  random numbers of one loop turn are a \<open>draw\<close>: the fractions that \<open>random()\<close> gives (\<open>uniform(a, b)\<close>
  is documented as \<open>a + (b - a) * random()\<close>), the choice, and the \<open>randint\<close>s; the UUIDs are
  parameters as well.
\<close>

section \<open>Profiles\<close>

definition INFRA_ACTIONS :: "string list" where
  "INFRA_ACTIONS = [''ec2:DescribeInstances'', ''ec2:DescribeSecurityGroups'', ''s3:ListBuckets'',
     ''s3:GetObject'', ''s3:ListObjects'']"

definition DATA_ACTIONS :: "string list" where
  "DATA_ACTIONS = [''s3:GetObject'', ''s3:PutObject'', ''s3:ListObjects'', ''s3:CopyObject'']"

definition SECOPS_ACTIONS :: "string list" where
  "SECOPS_ACTIONS = [''securityhub:GetFindings'', ''guardduty:ListFindings'', ''cloudtrail:LookupEvents'',
     ''config:GetComplianceDetailsByConfigRule'']"

definition PROVISIONER_ACTIONS :: "string list" where
  "PROVISIONER_ACTIONS = [''iam:CreateRole'', ''iam:AttachRolePolicy'', ''iam:GetRole'']"

record agent_profile =
  ap_actions :: "string list"
  ap_start_hour :: rat
  ap_end_hour :: rat
  ap_deny_rate :: rat

definition AGENT_PROFILES :: "(string \<times> agent_profile) list" where
  "AGENT_PROFILES =
     [(''InfraAgent'', \<lparr>ap_actions = INFRA_ACTIONS, ap_start_hour = 8, ap_end_hour = 20, ap_deny_rate = 5 / 100\<rparr>),
      (''DataAgent'', \<lparr>ap_actions = DATA_ACTIONS, ap_start_hour = 6, ap_end_hour = 22, ap_deny_rate = 8 / 100\<rparr>),
      (''SecOpsAgent'', \<lparr>ap_actions = SECOPS_ACTIONS, ap_start_hour = 0, ap_end_hour = 24, ap_deny_rate = 3 / 100\<rparr>),
      (''ProvisionerAgent'', \<lparr>ap_actions = PROVISIONER_ACTIONS, ap_start_hour = 9, ap_end_hour = 18, ap_deny_rate = 20 / 100\<rparr>)]"

definition profile_of :: "string \<Rightarrow> agent_profile" where
  "profile_of agent_type = (case dict_get AGENT_PROFILES agent_type of
       Some p \<Rightarrow> p
     | None \<Rightarrow> \<lparr>ap_actions = INFRA_ACTIONS, ap_start_hour = 8, ap_end_hour = 20, ap_deny_rate = 5 / 100\<rparr>)"

section \<open>Generation\<close>

record draw =
  dr_day :: rat
  dr_hour :: rat
  dr_choice :: "string list \<Rightarrow> string"
  dr_deny :: rat
  dr_task :: int
  dr_bucket :: int
  dr_event_id :: string
  dr_jti :: string

definition uniform :: "rat \<Rightarrow> rat \<Rightarrow> rat \<Rightarrow> rat" where
  "uniform a b u = a + (b - a) * u"

text \<open>\<open>f"{n:03d}"\<close> and \<open>f"{n:02d}"\<close>.\<close>

definition zero_pad :: "nat \<Rightarrow> int \<Rightarrow> string" where
  "zero_pad w n = replicate (w - length (str_int n)) (CHR ''0'') @ str_int n"

text \<open>\<open>now - timedelta(days=day_offset, hours=(now.hour - hour))\<close>, to the microsecond.\<close>

definition baseline_time :: "instant \<Rightarrow> rat \<Rightarrow> rat \<Rightarrow> instant" where
  "baseline_time now day_offset hour =
     now - round_half_even (day_offset * of_int us_per_day + (of_int (dt_hour now) - hour) * of_int us_per_hour)"

definition baseline_event :: "instant \<Rightarrow> string \<Rightarrow> string \<Rightarrow> rat \<Rightarrow> draw \<Rightarrow> audit_event" where
  "baseline_event now agent_id agent_type days_back d =
     (let profile = profile_of agent_type;
          day_offset = uniform 0 days_back (dr_day d);
          hour = uniform (ap_start_hour profile) (min (ap_end_hour profile) 23) (dr_hour d);
          decision = (if dr_deny d < ap_deny_rate profile then ''DENY'' else ''ALLOW'')
      in \<lparr>ae_event_id = dr_event_id d, ae_schema_version = ''1.0'',
          ae_timestamp = baseline_time now day_offset hour, ae_agent_id = agent_id,
          ae_agent_type = agent_type, ae_task_id = ''task-baseline-'' @ zero_pad 3 (dr_task d),
          ae_action = dr_choice d (ap_actions profile),
          ae_resource_arn = ''arn:aws:s3:::data-pipeline-'' @ zero_pad 2 (dr_bucket d),
          ae_decision = decision,
          ae_decision_reason = (if decision = ''ALLOW'' then None else Some ''scope_check''),
          ae_policy_ref = (if decision = ''DENY'' then Some ''nhi.agent.authorization'' else None),
          ae_policy_version = None, ae_token_jti = Some (dr_jti d), ae_source_ip = Some ''10.0.1.1'',
          ae_environment = Some ''staging'', ae_execution_result = None, ae_execution_error = None,
          ae_anomaly_score = None, ae_previous_event_hash = GENESIS_HASH, ae_event_hash = ''''\<rparr>)"

definition generate_baseline_events ::
  "instant \<Rightarrow> string \<Rightarrow> string \<Rightarrow> rat \<Rightarrow> draw list \<Rightarrow> audit_event list" where
  "generate_baseline_events now agent_id agent_type days_back draws =
     sort_key ae_timestamp (map (baseline_event now agent_id agent_type days_back) draws)"

section \<open>Statistics\<close>

record feature_stats =
  fs_mean :: rat
  fs_min :: rat
  fs_max :: rat

definition feature_names :: "string list" where
  "feature_names = [''hour_norm'', ''is_deny'', ''is_destructive'', ''arn_len_norm'', ''action_svc'']"

definition column :: "nat \<Rightarrow> rat list list \<Rightarrow> rat list" where
  "column i fs = map (\<lambda>f. f ! i) fs"

definition column_stats :: "rat list \<Rightarrow> feature_stats" where
  "column_stats col = \<lparr>fs_mean = sum_list col / of_nat (length col),
     fs_min = fold min (tl col) (hd col), fs_max = fold max (tl col) (hd col)\<rparr>"

fun count_actions :: "audit_event list \<Rightarrow> (string \<times> nat) list \<Rightarrow> (string \<times> nat) list" where
  "count_actions [] c = c"
| "count_actions (e # es) c = count_actions es (dict_set c (ae_action e)
     ((case dict_get c (ae_action e) of Some n \<Rightarrow> n | None \<Rightarrow> 0) + 1))"

record statistics =
  ss_event_count :: nat
  ss_features :: "(string \<times> feature_stats) list"
  ss_top_actions :: "(string \<times> nat) list"

text \<open>No events give an empty dictionary: \<^const>\<open>None\<close>.\<close>

definition compute_feature_statistics :: "audit_event list \<Rightarrow> statistics option" where
  "compute_feature_statistics events =
     (if events = [] then None
      else let features = map extract_features events in
        Some \<lparr>ss_event_count = length features,
          ss_features = map (\<lambda>i. (feature_names ! i, column_stats (column i features))) [0..<length feature_names],
          ss_top_actions = take 5 (sort_key (\<lambda>x. - int (snd x)) (count_actions events []))\<rparr>)"

section \<open>Facts\<close>

lemma fold_min_bounds: "(\<forall>x\<in>set (y # ys). fold min ys y \<le> x) \<and> fold min ys y \<in> set (y # ys)"
  for y :: rat
proof (induction ys arbitrary: y)
  case Nil
  then show ?case by simp
next
  case (Cons z ys)
  from Cons [of "min z y"] show ?case by (auto simp: min_def split: if_splits)
qed

lemma fold_max_bounds: "(\<forall>x\<in>set (y # ys). x \<le> fold max ys y) \<and> fold max ys y \<in> set (y # ys)"
  for y :: rat
proof (induction ys arbitrary: y)
  case Nil
  then show ?case by simp
next
  case (Cons z ys)
  from Cons [of "max z y"] show ?case by (auto simp: max_def split: if_splits)
qed

lemma sum_list_bounds:
  fixes xs :: "rat list"
  assumes "\<forall>x\<in>set xs. a \<le> x \<and> x \<le> b"
  shows "of_nat (length xs) * a \<le> sum_list xs \<and> sum_list xs \<le> of_nat (length xs) * b"
  using assms by (induction xs) (auto simp: algebra_simps)

lemma column_stats_bounds:
  assumes "col \<noteq> []"
  shows "fs_min (column_stats col) \<le> fs_mean (column_stats col) \<and> fs_mean (column_stats col) \<le> fs_max (column_stats col) \<and>
    fs_min (column_stats col) \<in> set col \<and> fs_max (column_stats col) \<in> set col"
proof -
  obtain y ys where col: "col = y # ys" using assms by (cases col) auto
  have n: "(0::rat) < of_nat (length col)" using assms by simp
  have "\<forall>x\<in>set col. fs_min (column_stats col) \<le> x \<and> x \<le> fs_max (column_stats col)"
    using fold_min_bounds [where y = y and ys = ys] fold_max_bounds [where y = y and ys = ys]
    by (simp add: col column_stats_def)
  from sum_list_bounds [OF this] n
  have "fs_min (column_stats col) \<le> sum_list col / of_nat (length col)"
    "sum_list col / of_nat (length col) \<le> fs_max (column_stats col)"
    by (simp_all add: pos_le_divide_eq pos_divide_le_eq mult.commute)
  then show ?thesis
    using fold_min_bounds [where y = y and ys = ys] fold_max_bounds [where y = y and ys = ys]
    by (simp add: column_stats_def col)
qed

lemma sum_dict_set:
  "(\<Sum>x\<leftarrow>dict_set c k v. snd x) + (case dict_get c k of Some n \<Rightarrow> n | None \<Rightarrow> 0) = (\<Sum>x\<leftarrow>c. snd x) + (v :: nat)"
  unfolding dict_set_def dict_get_def by (induction c) (auto split: option.splits)

lemma count_actions_sum: "(\<Sum>x\<leftarrow>count_actions es c. snd x) = (\<Sum>x\<leftarrow>c. snd x) + length es"
proof (induction es arbitrary: c)
  case Nil
  then show ?case by simp
next
  case (Cons e es)
  show ?case using sum_dict_set [of c "ae_action e" "(case dict_get c (ae_action e) of Some n \<Rightarrow> n | None \<Rightarrow> 0) + 1"]
    by (simp add: Cons)
qed

lemma count_actions_get:
  "dict_get (count_actions es c) k = (if k \<in> ae_action ` set es
     then Some ((case dict_get c k of Some n \<Rightarrow> n | None \<Rightarrow> 0) + length (filter (\<lambda>e. ae_action e = k) es))
     else dict_get c k)"
proof (induction es arbitrary: c)
  case Nil
  then show ?case by simp
next
  case (Cons e es)
  have none: "k \<notin> ae_action ` set es \<Longrightarrow> filter (\<lambda>e. ae_action e = k) es = []"
    by (auto simp: filter_empty_conv)
  show ?case by (cases "ae_action e = k") (auto simp: Cons none split: option.splits)
qed

lemma count_actions_distinct: "distinct (map fst c) \<Longrightarrow> distinct (map fst (count_actions es c))"
  by (induction es arbitrary: c) (simp_all add: dict_set_def distinct_update)

lemma stats_features:
  assumes "compute_feature_statistics es = Some ss" and "x \<in> set (ss_features ss)"
  shows "0 \<le> fs_min (snd x) \<and> fs_min (snd x) \<le> fs_mean (snd x) \<and>
    fs_mean (snd x) \<le> fs_max (snd x) \<and> fs_max (snd x) \<le> 1"
proof -
  have es: "es \<noteq> []" using assms(1) by (auto simp: compute_feature_statistics_def)
  then have "ss = \<lparr>ss_event_count = length (map extract_features es),
      ss_features = map (\<lambda>i. (feature_names ! i, column_stats (column i (map extract_features es)))) [0..<length feature_names],
      ss_top_actions = take 5 (sort_key (\<lambda>x. - int (snd x)) (count_actions es []))\<rparr>"
    using assms(1) unfolding compute_feature_statistics_def Let_def if_not_P [OF es] option.inject by simp
  with assms(2) obtain i where i: "i < length feature_names" "snd x = column_stats (column i (map extract_features es))"
    by auto
  define col where "col = column i (map extract_features es)"
  have ne: "col \<noteq> []" using es by (simp add: col_def column_def)
  have unit: "\<forall>y\<in>set col. 0 \<le> y \<and> y \<le> 1"
  proof
    fix y assume "y \<in> set col"
    then obtain e where "y = extract_features e ! i" by (auto simp: col_def column_def)
    moreover have "i < length (extract_features e)" using i(1) extract_features_unit [of e] by (simp add: feature_names_def)
    ultimately have "y \<in> set (extract_features e)" by simp
    then show "0 \<le> y \<and> y \<le> 1" using extract_features_unit [of e] by blast
  qed
  show ?thesis using column_stats_bounds [OF ne] unit unfolding i(2) col_def [symmetric] by blast
qed

lemma sort_key_desc: "sorted_wrt (\<lambda>x y. snd y \<le> snd x) (sort_key (\<lambda>x. - int (snd x)) (xs :: (string \<times> nat) list))"
proof -
  have "sorted (map (\<lambda>x. - int (snd x)) (sort_key (\<lambda>x. - int (snd x)) xs))" by simp
  then show ?thesis unfolding sorted_map by (rule sorted_wrt_mono_rel [rotated]) simp
qed

lemma count_actions_count:
  assumes "(k, n) \<in> set (count_actions es [])"
  shows "n = length (filter (\<lambda>e. ae_action e = k) es) \<and> 0 < n"
proof -
  have "dict_get (count_actions es []) k = Some n"
    unfolding dict_get_def using assms count_actions_distinct [of "[]" es] by (intro map_of_is_SomeI) simp_all
  then have "k \<in> ae_action ` set es" "n = length (filter (\<lambda>e. ae_action e = k) es)"
    unfolding count_actions_get by (auto simp: dict_get_def split: if_splits)
  then show ?thesis by (auto simp: filter_empty_conv)
qed

text \<open>The fields of a generated event, and its time.\<close>

lemma profile_actions_nonempty: "ap_actions (profile_of t) \<noteq> []"
proof -
  have "dict_get AGENT_PROFILES t = Some p \<Longrightarrow> ap_actions p \<noteq> []" for p
  proof -
    assume "dict_get AGENT_PROFILES t = Some p"
    then have "p \<in> snd ` set AGENT_PROFILES" unfolding dict_get_def by (force dest: map_of_SomeD)
    then show ?thesis
      by (auto simp: AGENT_PROFILES_def INFRA_ACTIONS_def DATA_ACTIONS_def SECOPS_ACTIONS_def PROVISIONER_ACTIONS_def)
  qed
  then show ?thesis by (auto simp: profile_of_def INFRA_ACTIONS_def split: option.splits)
qed

lemma round_half_even_upper: "of_int (round_half_even x) \<le> x + 1"
proof -
  have "of_int (round_half_even x) \<le> (of_int (\<lfloor>x\<rfloor> + 1) :: rat)"
    unfolding of_int_le_iff by (simp add: round_half_even_def Let_def)
  also have "\<dots> \<le> x + 1" by simp
  finally show ?thesis .
qed

lemma uniform_between: "0 \<le> u \<Longrightarrow> u \<le> 1 \<Longrightarrow> a \<le> b \<Longrightarrow> a \<le> uniform a b u \<and> uniform a b u \<le> b"
proof -
  assume "0 \<le> u" "u \<le> 1" "a \<le> b"
  then have "0 \<le> (b - a) * u" "(b - a) * u \<le> b - a" using mult_left_le [of u "b - a"] by simp_all
  then show ?thesis by (simp add: uniform_def)
qed

lemma profile_hours: "0 \<le> ap_start_hour (profile_of t) \<and> ap_start_hour (profile_of t) \<le> min (ap_end_hour (profile_of t)) 23"
proof -
  have "dict_get AGENT_PROFILES t = Some p \<Longrightarrow> 0 \<le> ap_start_hour p \<and> ap_start_hour p \<le> min (ap_end_hour p) 23" for p
  proof -
    assume "dict_get AGENT_PROFILES t = Some p"
    then have "p \<in> snd ` set AGENT_PROFILES" unfolding dict_get_def by (force dest: map_of_SomeD)
    then show ?thesis by (auto simp: AGENT_PROFILES_def)
  qed
  then show ?thesis by (auto simp: profile_of_def split: option.splits)
qed

lemma baseline_time_bounds:
  assumes "0 \<le> off" "off \<le> days" "0 \<le> hour" "hour \<le> 23"
  shows "baseline_time now off hour \<le> now + us_per_day"
    and "of_int (now - us_per_day) - days * of_int us_per_day \<le> (of_int (baseline_time now off hour) :: rat)"
proof -
  define x where "x = off * of_int us_per_day + (of_int (dt_hour now) - hour) * of_int us_per_hour"
  have h: "(0 :: rat) \<le> of_int (dt_hour now)" "of_int (dt_hour now) \<le> (23 :: rat)"
    using instant_ranges [of now] of_int_le_iff [of "dt_hour now" 23, where ?'a = rat] by simp_all
  have t: "baseline_time now off hour = now - round_half_even x" by (simp add: baseline_time_def x_def)
  have off: "0 \<le> off * of_int us_per_day" "off * of_int us_per_day \<le> days * of_int us_per_day"
    using assms(1,2) by (simp_all add: us_per_day_def)
  have "(-23) * of_int us_per_hour \<le> (of_int (dt_hour now) - hour) * of_int us_per_hour"
    "(of_int (dt_hour now) - hour) * of_int us_per_hour \<le> 23 * of_int us_per_hour"
    using h assms(3,4) by (simp_all add: us_per_hour_def)
  with off have x: "of_int (- us_per_day) \<le> x" "x + 1 \<le> days * of_int us_per_day + of_int us_per_day"
    by (simp_all add: x_def us_per_day_def us_per_hour_def)
  show "baseline_time now off hour \<le> now + us_per_day"
    unfolding t using round_half_even_ge [OF x(1)] by simp
  show "of_int (now - us_per_day) - days * of_int us_per_day \<le> (of_int (baseline_time now off hour) :: rat)"
    unfolding t using order_trans [OF round_half_even_upper x(2)] by simp
qed

end
