(* ===== verification/Anomaly_Service.thy ===== *)
theory Anomaly_Service
  imports Anomaly
begin

text \<open>
  The running service of \<open>anomaly/service.py\<close>: one consumer task on the event loop, which gives up control while
  it awaits the answer of the identity API, and requests to \<open>POST /score\<close>, which are answered at any time, also
  in that pause. \<open>begin_event\<close> and \<open>end_event\<close> are the two parts of \<open>_process_event\<close>; one after the other they are
  \<^const>\<open>process_event\<close>.
\<close>

section \<open>The two parts of an event\<close>

text \<open>A task that waits: the agent, the reason it sent, and whether the counter is to be reset after the answer.\<close>

record waiting =
  wt_agent :: string
  wt_reason :: string
  wt_burst :: bool

text \<open>\<open>_suspend_identity\<close> returns without a request, and without giving up control, for an agent it knows.\<close>

definition begin_suspend ::
  "string \<Rightarrow> string \<Rightarrow> bool \<Rightarrow> 'm anomaly_state \<Rightarrow> 'm anomaly_state \<times> waiting option" where
  "begin_suspend a reason burst s =
     (if a \<in> an_suspended s
      then (if burst then s\<lparr>an_bursters := (an_bursters s)(a := reset (an_bursters s a))\<rparr> else s, None)
      else (s\<lparr>an_suspended := insert a (an_suspended s)\<rparr>, Some \<lparr>wt_agent = a, wt_reason = reason, wt_burst = burst\<rparr>))"

definition begin_event :: "'m forest \<Rightarrow> audit_event \<Rightarrow> 'm anomaly_state \<Rightarrow> 'm anomaly_state \<times> waiting option" where
  "begin_event F e s =
     (let a = ae_agent_id e in
      case score_step F e s of (v, s1) \<Rightarrow>
        if is_burst (an_bursters s1 a)
        then begin_suspend a (burst_reason (an_bursters s1 a)) True (s1\<lparr>an_burst_detections := an_burst_detections s1 + 1\<rparr>)
        else if is_anomalous F (an_scorers s1 a) e ANOMALY_THRESHOLD
        then begin_suspend a (score_reason v) False (s1\<lparr>an_suspensions := an_suspensions s1 + 1\<rparr>)
        else (s1, None))"

definition end_event :: "'w post \<Rightarrow> waiting \<Rightarrow> 'm anomaly_state \<times> 'w \<Rightarrow> 'm anomaly_state \<times> 'w" where
  "end_event post t = (\<lambda>(s, w).
     (if wt_burst t then s\<lparr>an_bursters := (an_bursters s)(wt_agent t := reset (an_bursters s (wt_agent t)))\<rparr> else s,
      snd (post (wt_agent t) (wt_reason t) w)))"

lemma process_event_parts:
  "process_event F post e (s, w) = (case begin_event F e s of
     (s', None) \<Rightarrow> (s', w) | (s', Some t) \<Rightarrow> end_event post t (s', w))"
  by (simp add: process_event_def begin_event_def begin_suspend_def end_event_def suspend_request_def Let_def split_beta)

section \<open>The service as a step relation\<close>

record ('m, 'w) service =
  sv_state :: "'m anomaly_state"
  sv_waiting :: "waiting option"
  sv_world :: 'w

definition startup :: "'w \<Rightarrow> ('m, 'w) service" where
  "startup w = \<lparr>sv_state = anomaly_init, sv_waiting = None, sv_world = w\<rparr>"

datatype input = Message audit_event | Answer | Score_Request audit_event

inductive service_step ::
  "'m forest \<Rightarrow> 'w post \<Rightarrow> ('m, 'w) service \<Rightarrow> input \<Rightarrow> ('m, 'w) service \<Rightarrow> bool" for F post where
  message: "sv_waiting c = None \<Longrightarrow> begin_event F e (sv_state c) = (s', t) \<Longrightarrow>
    service_step F post c (Message e) (c\<lparr>sv_state := s', sv_waiting := t\<rparr>)"
| answer: "sv_waiting c = Some t \<Longrightarrow> end_event post t (sv_state c, sv_world c) = (s', w') \<Longrightarrow>
    service_step F post c Answer (c\<lparr>sv_state := s', sv_waiting := None, sv_world := w'\<rparr>)"
| score_request: "score_event F e (sv_state c) = (reply, s') \<Longrightarrow>
    service_step F post c (Score_Request e) (c\<lparr>sv_state := s'\<rparr>)"

inductive_cases message_step: "service_step F post c (Message e) c'"
inductive_cases answer_step: "service_step F post c Answer c'"
inductive_cases score_request_step: "service_step F post c (Score_Request e) c'"

inductive service_run ::
  "'m forest \<Rightarrow> 'w post \<Rightarrow> ('m, 'w) service \<Rightarrow> input list \<Rightarrow> ('m, 'w) service \<Rightarrow> bool" for F post c where
  start: "service_run F post c [] c"
| more: "service_run F post c is d \<Longrightarrow> service_step F post d i d' \<Longrightarrow> service_run F post c (is @ [i]) d'"

inductive_cases service_run_snoc: "service_run F post c (is @ [i]) d"

lemma service_run_append:
  "service_run F post c (is @ js) d \<Longrightarrow> \<exists>b. service_run F post c is b \<and> service_run F post b js d"
proof (induction js arbitrary: d rule: rev_induct)
  case Nil
  then show ?case using service_run.start by fastforce
next
  case (snoc j js)
  then obtain d1 where "service_run F post c (is @ js) d1" "service_step F post d1 j d"
    by (metis append_assoc service_run_snoc)
  with snoc.IH service_run.more show ?case by metis
qed

text \<open>A message and its answer are one \<^const>\<open>process_event\<close>, and the service is never stuck.\<close>

lemma message_answer:
  assumes "sv_waiting c = None" and "process_event F post e (sv_state c, sv_world c) = (s', w')"
  shows "\<exists>is. service_run F post c (Message e # is) (c\<lparr>sv_state := s', sv_world := w'\<rparr>) \<and> set is \<subseteq> {Answer}"
proof -
  obtain s1 t where b: "begin_event F e (sv_state c) = (s1, t)" by fastforce
  let ?d = "c\<lparr>sv_state := s1, sv_waiting := t\<rparr>"
  have one: "service_run F post c [Message e] ?d"
    using service_run.more [OF service_run.start service_step.message [OF assms(1) b]] by simp
  show ?thesis
  proof (cases t)
    case None
    with b assms one have "service_run F post c [Message e] (c\<lparr>sv_state := s', sv_world := w'\<rparr>)"
      by (cases c) (simp add: process_event_parts)
    then show ?thesis by (intro exI [of _ "[]"]) simp
  next
    case (Some t1)
    with b assms(2) have "end_event post t1 (sv_state ?d, sv_world ?d) = (s', w')" by (simp add: process_event_parts)
    from service_run.more [OF one service_step.answer [OF _ this]] Some assms(1)
    have "service_run F post c [Message e, Answer] (c\<lparr>sv_state := s', sv_world := w'\<rparr>)" by (cases c) simp
    then show ?thesis by (intro exI [of _ "[Answer]"]) simp
  qed
qed

section \<open>What every step keeps\<close>

text \<open>The agents an input names, and the counter a message or a request advances.\<close>

fun counts :: "string \<Rightarrow> input \<Rightarrow> bool" where
  "counts a (Message e) = (ae_agent_id e = a)"
| "counts a (Score_Request e) = (ae_agent_id e = a)"
| "counts a Answer = False"

definition counted :: "string \<Rightarrow> input list \<Rightarrow> nat" where
  "counted a is = length (filter (counts a) is)"

definition message_agents :: "input list \<Rightarrow> string set" where
  "message_agents is = {ae_agent_id e |e. Message e \<in> set is}"

lemma begin_suspend_cases:
  assumes "begin_suspend a r b s = (s', t)"
  obtains (known) "a \<in> an_suspended s" "t = None" "an_suspended s' = an_suspended s"
  | (new) "a \<notin> an_suspended s" "t = Some \<lparr>wt_agent = a, wt_reason = r, wt_burst = b\<rparr>"
      "an_suspended s' = insert a (an_suspended s)" "an_bursters s' = an_bursters s"
  using assms by (auto simp: begin_suspend_def split: if_splits)

lemma begin_event_cases:
  assumes "begin_event F e s = (s', t)"
  obtains (quiet) "t = None" "an_suspended s' = an_suspended s"
  | (asks) r b where "ae_agent_id e \<notin> an_suspended s" "t = Some \<lparr>wt_agent = ae_agent_id e, wt_reason = r, wt_burst = b\<rparr>"
      "an_suspended s' = insert (ae_agent_id e) (an_suspended s)"
proof -
  obtain v s1 where s1: "score_step F e s = (v, s1)" by fastforce
  have keep: "an_suspended s1 = an_suspended s" by (rule score_step_simps(1) [OF s1])
  have run: "(if is_burst (an_bursters s1 (ae_agent_id e))
        then begin_suspend (ae_agent_id e) (burst_reason (an_bursters s1 (ae_agent_id e))) True
          (s1\<lparr>an_burst_detections := an_burst_detections s1 + 1\<rparr>)
        else if is_anomalous F (an_scorers s1 (ae_agent_id e)) e ANOMALY_THRESHOLD
        then begin_suspend (ae_agent_id e) (score_reason v) False (s1\<lparr>an_suspensions := an_suspensions s1 + 1\<rparr>)
        else (s1, None)) = (s', t)"
    using assms unfolding begin_event_def Let_def s1 prod.case .
  have suspend: thesis if "begin_suspend (ae_agent_id e) r b s2 = (s', t)" "an_suspended s2 = an_suspended s1" for r b s2
    using that(1) by (cases rule: begin_suspend_cases) (use that(2) keep quiet asks in simp_all)
  show thesis
  proof (cases "is_burst (an_bursters s1 (ae_agent_id e)) \<or> is_anomalous F (an_scorers s1 (ae_agent_id e)) e ANOMALY_THRESHOLD")
    case True
    then show thesis using run suspend by (cases "is_burst (an_bursters s1 (ae_agent_id e))") simp_all
  next
    case False
    then show thesis using run keep quiet by simp
  qed
qed

lemma end_event_keeps:
  assumes "end_event post t (s, w) = (s', w')"
  shows "an_suspended s' = an_suspended s" "w' = snd (post (wt_agent t) (wt_reason t) w)"
    "b \<noteq> wt_agent t \<Longrightarrow> an_bursters s' b = an_bursters s b"
  using assms by (auto simp: end_event_def split: if_splits)

lemma score_event_keeps: "score_event F e s = (reply, s') \<Longrightarrow> an_suspended s' = an_suspended s"
  using score_event_state [of F e s] by simp

text \<open>The requests sent so far, and the one being answered.\<close>

definition requested :: "'w post \<Rightarrow> 'w \<Rightarrow> ('m, 'w) service \<Rightarrow> (string \<times> string) list \<Rightarrow> bool" where
  "requested post w0 c calls \<longleftrightarrow> sv_world c = ask post calls w0 \<and> distinct (map fst calls) \<and>
     (case sv_waiting c of
        None \<Rightarrow> set (map fst calls) = an_suspended (sv_state c)
      | Some t \<Rightarrow> wt_agent t \<notin> set (map fst calls) \<and>
          insert (wt_agent t) (set (map fst calls)) = an_suspended (sv_state c))"

lemma ask_snoc: "ask post (calls @ [(a, r)]) w = snd (post a r (ask post calls w))"
  by (simp add: ask_def)

lemma step_requested:
  assumes "service_step F post c i c'" and "requested post w0 c calls"
  shows "\<exists>calls'. requested post w0 c' calls'"
  using assms(1)
proof cases
  case (message e s' t)
  have "set (map fst calls) = an_suspended (sv_state c)" using assms(2) message(3) by (simp add: requested_def)
  moreover from message(4) show ?thesis
    by (cases rule: begin_event_cases)
      (use assms(2) message(2,3) in \<open>auto simp: requested_def intro!: exI [of _ calls]\<close>)
next
  case (answer t s' w')
  then have "wt_agent t \<notin> set (map fst calls)" "insert (wt_agent t) (set (map fst calls)) = an_suspended (sv_state c)"
    using assms(2) by (simp_all add: requested_def)
  with answer end_event_keeps(1,2) [OF answer(4)] assms(2) show ?thesis
    by (intro exI [of _ "calls @ [(wt_agent t, wt_reason t)]"]) (simp add: requested_def ask_snoc)
next
  case (score_request e reply s')
  with assms(2) score_event_keeps [OF score_request(3)] show ?thesis
    by (intro exI [of _ calls]) (simp add: requested_def split: option.splits)
qed

lemma run_requested: "service_run F post (startup w0) is c \<Longrightarrow> \<exists>calls. requested post w0 c calls"
proof (induction rule: service_run.induct)
  case start
  then show ?case by (intro exI [of _ "[]"]) (simp add: requested_def startup_def anomaly_init_def ask_def)
next
  case (more "is" d i d')
  from more(3) obtain calls where "requested post w0 d calls" by (elim exE)
  then show ?case by (rule step_requested [OF more(2)])
qed

lemma step_suspended:
  assumes "service_step F post c i c'"
  shows "an_suspended (sv_state c) \<subseteq> an_suspended (sv_state c')"
    and "an_suspended (sv_state c') \<subseteq> an_suspended (sv_state c) \<union> message_agents [i]"
proof -
  have "an_suspended (sv_state c) \<subseteq> an_suspended (sv_state c') \<and>
    an_suspended (sv_state c') \<subseteq> an_suspended (sv_state c) \<union> message_agents [i]"
    using assms
  proof cases
    case (message e s' t)
    from message(4) show ?thesis
      by (cases rule: begin_event_cases) (use message in \<open>auto simp: message_agents_def\<close>)
  next
    case (answer t s' w')
    from end_event_keeps(1) [OF answer(4)] answer(2) show ?thesis by simp
  next
    case (score_request e reply s')
    from score_event_keeps [OF score_request(3)] score_request(2) show ?thesis by simp
  qed
  then show "an_suspended (sv_state c) \<subseteq> an_suspended (sv_state c')"
    "an_suspended (sv_state c') \<subseteq> an_suspended (sv_state c) \<union> message_agents [i]" by blast+
qed

lemma run_suspended:
  "service_run F post c is d \<Longrightarrow> an_suspended (sv_state c) \<subseteq> an_suspended (sv_state d) \<and>
     an_suspended (sv_state d) \<subseteq> an_suspended (sv_state c) \<union> message_agents is"
proof (induction rule: service_run.induct)
  case (more "is" d i d')
  have "message_agents (is @ [i]) = message_agents is \<union> message_agents [i]" by (auto simp: message_agents_def)
  with step_suspended [OF more(2)] more(3) show ?case by blast
qed (simp add: message_agents_def)

text \<open>While an agent is not suspended its counter is the number of its messages and of the requests that name it.\<close>

lemma begin_event_counter:
  assumes "begin_event F e s = (s', t)" and "a \<notin> an_suspended s'" and "an_bursters s a = burst_init\<lparr>bd_count := n\<rparr>"
  shows "an_bursters s' a = burst_init\<lparr>bd_count := n + (if ae_agent_id e = a then 1 else 0)\<rparr> \<and>
    (ae_agent_id e = a \<longrightarrow> n < 10)"
proof -
  let ?post = "\<lambda>_ _ (w :: unit). (True, w)"
  obtain s2 w2 where run: "process_event F ?post e (s, ()) = (s2, w2)" by (rule prod.exhaust)
  have "an_suspended s2 = an_suspended s' \<and> an_bursters s2 a = an_bursters s' a"
  proof (cases t)
    case None
    then show ?thesis using run assms(1) by (simp add: process_event_parts)
  next
    case (Some t1)
    from assms(1) have "wt_agent t1 \<in> an_suspended s'" by (cases rule: begin_event_cases) (use Some in auto)
    with assms(2) have "a \<noteq> wt_agent t1" by blast
    moreover have "end_event ?post t1 (s', ()) = (s2, w2)" using run assms(1) Some by (simp add: process_event_parts)
    ultimately show ?thesis using end_event_keeps(1,3) by metis
  qed
  with process_event_counter [OF run _ assms(3)] assms(2) show ?thesis by simp
qed

lemma step_counter:
  assumes "service_step F post c i c'" and "a \<notin> an_suspended (sv_state c')" and "requested post w0 c calls"
    and "an_bursters (sv_state c) a = burst_init\<lparr>bd_count := n\<rparr>"
  shows "an_bursters (sv_state c') a = burst_init\<lparr>bd_count := n + (if counts a i then 1 else 0)\<rparr> \<and>
    (\<forall>e. i = Message e \<and> ae_agent_id e = a \<longrightarrow> n < 10)"
  using assms(1)
proof cases
  case (message e s' t)
  with begin_event_counter [OF message(4) _ assms(4)] assms(2) show ?thesis by simp
next
  case (answer t s' w')
  have "wt_agent t \<in> an_suspended (sv_state c)" using assms(3) answer(3) by (auto simp: requested_def)
  then have "wt_agent t \<noteq> a" using step_suspended(1) [OF assms(1)] assms(2) by blast
  with answer end_event_keeps(3) [OF answer(4)] assms(4) show ?thesis by auto
next
  case (score_request e reply s')
  with score_event_state [of F e "sv_state c"] assms(4) show ?thesis by (auto simp: record_one_def)
qed

lemma run_counter:
  "service_run F post (startup w0) is c \<Longrightarrow> a \<notin> an_suspended (sv_state c) \<Longrightarrow>
     an_bursters (sv_state c) a = burst_init\<lparr>bd_count := int (counted a is)\<rparr>"
proof (induction rule: service_run.induct)
  case start
  then show ?case by (simp add: startup_def anomaly_init_def burst_init_def counted_def)
next
  case (more "is" d i d')
  obtain calls where "requested post w0 d calls" using run_requested [OF more(1)] by (elim exE)
  moreover have "a \<notin> an_suspended (sv_state d)" using step_suspended(1) [OF more(2)] more(4) by blast
  ultimately have "an_bursters (sv_state d') a = burst_init\<lparr>bd_count := int (counted a is) + (if counts a i then 1 else 0)\<rparr>"
    using step_counter [OF more(2,4)] more(3) by blast
  then show ?case by (simp add: counted_def)
qed

lemma message_suspends:
  assumes run: "service_run F post (startup w0) (is @ Message e # js) c"
    and agent: "ae_agent_id e = a" and many: "10 \<le> counted a is"
  shows "a \<in> an_suspended (sv_state c)"
proof (rule ccontr)
  assume no: "a \<notin> an_suspended (sv_state c)"
  from run have "service_run F post (startup w0) ((is @ [Message e]) @ js) c" by simp
  then obtain b where b: "service_run F post (startup w0) (is @ [Message e]) b" "service_run F post b js c"
    using service_run_append by blast
  then have nb: "a \<notin> an_suspended (sv_state b)" using run_suspended [OF b(2)] no by blast
  from b(1) obtain d where d: "service_run F post (startup w0) is d" "service_step F post d (Message e) b"
    by (rule service_run_snoc)
  obtain calls where calls: "requested post w0 d calls" using run_requested [OF d(1)] by (elim exE)
  have "a \<notin> an_suspended (sv_state d)" using step_suspended(1) [OF d(2)] nb by blast
  from step_counter [OF d(2) nb calls run_counter [OF d(1) this]] agent many show False by auto
qed

text \<open>Scoring requests are always answered, and a message is taken whenever the task does not wait.\<close>

lemma score_requests_run:
  "\<exists>d. service_run F post c (map Score_Request es) d \<and> sv_waiting d = sv_waiting c"
proof (induction es rule: rev_induct)
  case Nil
  then show ?case by (intro exI [of _ c]) (simp add: service_run.start)
next
  case (snoc e es)
  then obtain d where d: "service_run F post c (map Score_Request es) d" "sv_waiting d = sv_waiting c" by (elim exE conjE)
  obtain reply s' where "score_event F e (sv_state d) = (reply, s')" by fastforce
  from service_run.more [OF d(1) service_step.score_request [OF this]] d(2) show ?case
    by (intro exI [of _ "d\<lparr>sv_state := s'\<rparr>"]) simp
qed

lemma message_run:
  assumes "service_run F post c is d" and "sv_waiting d = None"
  shows "\<exists>d'. service_run F post c (is @ [Message e]) d'"
proof -
  obtain s' t where "begin_event F e (sv_state d) = (s', t)" by fastforce
  from service_run.more [OF assms(1) service_step.message [OF assms(2) this]] show ?thesis by blast
qed

end
