(* ===== verification/Anomaly_Properties.thy ===== *)
theory Anomaly_Properties
  imports Anomaly_Baseline Anomaly_Service Audit_Properties
begin

text \<open>
  The properties of the detectors, of the anomaly service and of the baseline generator. The witnesses
  use a forest that keeps the number of samples and calls a destructive action an outlier, and an
  identity API whose world is the list of the requests it got.
\<close>

section \<open>The witnesses' services\<close>

definition demo_forest :: "nat forest" where
  "demo_forest = \<lparr>fo_fit = length, fo_decision = (\<lambda>_ f. if f ! 2 = 1 then - 1 else 1),
     fo_exp = (\<lambda>x. if x < 0 then 0 else 1 + x)\<rparr>"

definition demo_post :: "(string \<times> string) list post" where
  "demo_post a r w = (True, w @ [(a, r)])"

text \<open>The API answers every request with an error, and the agent of the events was asked for before.\<close>

definition demo_post_down :: "(string \<times> string) list post" where
  "demo_post_down a r w = (False, w @ [(a, r)])"

definition demo_asked :: "nat anomaly_state" where
  "demo_asked = anomaly_init\<lparr>an_suspended := {''agent-infra-001''}\<rparr>"

definition demo_burst :: "audit_event list" where
  "demo_burst = replicate 11 (demo_event ''e1'' 0)"

lemma distinct_filter_fst:
  "distinct (map fst cs) \<Longrightarrow> a \<in> set (map fst cs) \<Longrightarrow> length (filter (\<lambda>c. fst c = a) cs) = 1"
proof (induction cs)
  case (Cons c cs)
  then show ?case by (cases "fst c = a") (force simp: filter_empty_conv image_iff)+
qed simp

lemma demo_asked_suspended: "an_suspended demo_asked = {''agent-infra-001''}"
  by (simp add: demo_asked_def)

lemma demo_event_agent: "ae_agent_id (demo_event i t) = ''agent-infra-001''"
  unfolding demo_event_def audit_event.simps by (rule refl)

lemma demo_burst_agents: "ae_agent_id ` set demo_burst = {''agent-infra-001''}"
proof -
  have "set demo_burst = {demo_event ''e1'' 0}" unfolding demo_burst_def by (rule set_replicate) simp
  then show ?thesis by (simp only: image_insert image_empty demo_event_agent)
qed

lemma demo_burst_events: "events_of ''agent-infra-001'' demo_burst = 11"
  by (simp add: events_of_def demo_burst_def demo_event_def)

section \<open>The detectors\<close>

lemma burst_score_init:
  "burst_score (burst_init\<lparr>bd_count := n\<rparr>) =
     Inr (if n \<le> 2 then 0 else if 10 \<le> n then 1 else round4 ((of_int n - 2) / 8))"
proof -
  have cmp: "(of_int n \<le> (2 :: rat)) = (n \<le> 2)" "(10 \<le> (of_int n :: rat)) = (10 \<le> n)"
    using of_int_le_iff [of n 2, where ?'a = rat] of_int_le_iff [of 10 n, where ?'a = rat] by simp_all
  have one: "round4 1 = 1" by code_simp
  have "10 \<le> n \<Longrightarrow> min (1 :: rat) (max 0 ((of_int n - 2) / 8)) = 1"
    using cmp(2) by (simp add: min_def max_def)
  moreover have "\<not> 10 \<le> n \<Longrightarrow> \<not> n \<le> 2 \<Longrightarrow> min (1 :: rat) (max 0 ((of_int n - 2) / 8)) = (of_int n - 2) / 8"
    using cmp by (simp add: min_def max_def)
  ultimately show ?thesis by (simp add: burst_score_def burst_init_def Let_def cmp one)
qed

text \<open>
  C33: Every feature of an event lies in [0, 1] and there are five; the forest score lies in [0, 1],
  is 0 before fitting, and an event is anomalous at the threshold only after fitting; the burst score of a
  detector of any rate lies in [0, 1], except that a detector whose threshold equals its
  baseline rate raises ZeroDivisionError above the baseline. With the rates of the code the burst
  score is 1 from ten events on, and the detector fires one event later.
\<close>
theorem scores_are_normalised:
  "length (extract_features e) = 5 \<and> list_all (\<lambda>x. 0 \<le> x \<and> x \<le> 1) (extract_features e) \<and>
   0 \<le> score F sc e \<and> score F sc e \<le> 1 \<and> score F None e = 0 \<and> \<not> is_anomalous F None e ANOMALY_THRESHOLD \<and>
   (case burst_score b of
      Inr v \<Rightarrow> 0 \<le> v \<and> v \<le> 1
    | Inl err \<Rightarrow> err = ZeroDivisionError ''float division by zero'' \<and> bd_baseline b * bd_threshold b = bd_baseline b \<and>
        bd_baseline b < of_int (bd_count b)) \<and>
   burst_score (burst_init\<lparr>bd_count := 10\<rparr>) = Inr 1 \<and> \<not> is_burst (burst_init\<lparr>bd_count := 10\<rparr>) \<and>
   is_burst (burst_init\<lparr>bd_count := n\<rparr>) = (10 < n)"
proof -
  have "0 \<le> min 1 (max 0 x) \<and> min 1 (max 0 x) \<le> 1" for x :: rat by (simp add: min_def max_def)
  then have "case burst_score b of
      Inr v \<Rightarrow> 0 \<le> v \<and> v \<le> 1
    | Inl err \<Rightarrow> err = ZeroDivisionError ''float division by zero'' \<and> bd_baseline b * bd_threshold b = bd_baseline b \<and>
        bd_baseline b < of_int (bd_count b)"
    using round4_unit by (simp add: burst_score_def Let_def)
  then show ?thesis
    using extract_features_unit [of e] score_unit [of F sc e] is_burst_init [of 10] is_burst_init [of n]
      burst_score_init [of 10]
    by (simp add: list_all_iff score_def is_anomalous_def ANOMALY_THRESHOLD_def)
qed

section \<open>The service\<close>

text \<open>
  C34: After any sequence of events from start-up, the service holds for each agent exactly its last
  500 events, its forest is the one fitted on the first ten events of the agent (never
  refitted, and absent before the tenth), the counter counts every event, and every published score
  is in [0, 1].
\<close>
theorem service_state_after_events:
  assumes "process_events F post es (anomaly_init, w) = (s', w')"
  shows "an_histories s' a = drop (length (events_by a es) - 500) (events_by a es) \<and>
    an_scorers s' a = (if length (events_by a es) < 10 then None
      else Some (fo_fit F (map extract_features (take 10 (events_by a es))))) \<and>
    an_events_scored s' = int (length es) \<and> list_all (\<lambda>x. 0 \<le> snd x \<and> snd x \<le> 1) (sc_scores (get_scores s'))"
  using remembers_run [OF remembers_init, where F = F and post = post and es = es and w = w] unfolding assms
  by (simp add: remembers_def window_def first_model_def HISTORY_MAX_def MIN_FIT_SAMPLES_def get_scores_def list_all_iff)

theorem service_state_after_events_witness:
  "an_scorers (fst (process_events demo_forest demo_post demo_burst (anomaly_init, []))) ''agent-infra-001'' = Some 10"
proof -
  obtain s' w' where run: "process_events demo_forest demo_post demo_burst (anomaly_init, []) = (s', w')" by fastforce
  have "length (events_by ''agent-infra-001'' demo_burst) = 11"
    by (simp add: events_by_def demo_burst_def demo_event_def)
  with service_state_after_events [OF run, of "''agent-infra-001''"] run show ?thesis
    by (simp add: demo_forest_def)
qed

text \<open>
  Further: Whatever events arrive, in any state, the requests the service makes to the identity API are
  for pairwise different agents, each an agent of one of the events and not yet in the suspended set,
  and that set only grows by exactly them. So an agent is never asked for twice: not after the request
  failed, and not after the identity was reinstated.
\<close>
theorem at_most_one_suspension_request:
  assumes "process_events F post es (s, w) = (s', w')"
  shows "\<exists>calls. w' = ask post calls w \<and> distinct (map fst calls) \<and>
     set (map fst calls) \<union> an_suspended s = an_suspended s' \<and> set (map fst calls) \<inter> an_suspended s = {} \<and>
     set (map fst calls) \<subseteq> ae_agent_id ` set es"
proof -
  from process_events_calls [OF assms] obtain calls where "w' = ask post calls w" "distinct (map fst calls)"
    "set (map fst calls) = an_suspended s' - an_suspended s" "an_suspended s \<subseteq> an_suspended s'"
    "set (map fst calls) \<subseteq> ae_agent_id ` set es" by (elim exE conjE)
  then show ?thesis by (intro exI [of _ calls] conjI) auto
qed

theorem at_most_one_suspension_request_witness:
  "snd (process_events demo_forest demo_post_down demo_burst (demo_asked, [])) = []"
proof -
  obtain s' w' where run: "process_events demo_forest demo_post_down demo_burst (demo_asked, []) = (s', w')" by fastforce
  from at_most_one_suspension_request [OF run] obtain calls where c: "w' = ask demo_post_down calls []"
    "set (map fst calls) \<inter> an_suspended demo_asked = {}" "set (map fst calls) \<subseteq> ae_agent_id ` set demo_burst"
    by (elim exE conjE)
  have "set (map fst calls) = {}"
    using Int_absorb2 [OF c(3)] c(2) unfolding demo_burst_agents demo_asked_suspended by (rule trans [OF sym])
  then have "calls = []" by simp
  then show ?thesis unfolding run snd_conv c(1) by (simp add: ask_def)
qed

text \<open>
  Further: The burst counter is reset only by a suspension, never by time: an agent is suspended, by
  exactly one request to the identity API, as soon as eleven of its events have been processed since
  start-up, however many months lie between their timestamps and whatever the forest says.
\<close>
theorem eleventh_event_suspends:
  assumes run: "process_events F post es (anomaly_init, w) = (s', w')" and many: "10 < events_of a es"
  shows "a \<in> an_suspended s' \<and>
    (\<exists>calls. w' = ask post calls w \<and> length (filter (\<lambda>c. fst c = a) calls) = 1)"
proof -
  have in_set: "a \<in> an_suspended s'"
  proof (rule ccontr)
    assume "a \<notin> an_suspended s'"
    from process_events_counter [OF run this, of 0] many show False
      by (simp add: anomaly_init_def burst_init_def)
  qed
  from process_events_calls [OF run] obtain calls where calls: "w' = ask post calls w"
    "distinct (map fst calls)" "set (map fst calls) = an_suspended s' - an_suspended (anomaly_init :: 'a anomaly_state)"
    by (elim exE conjE)
  have "a \<in> set (map fst calls)" unfolding calls(3) using in_set by (simp add: anomaly_init_def)
  then have "length (filter (\<lambda>c. fst c = a) calls) = 1"
    using calls(2) by (simp add: distinct_filter_fst)
  with in_set calls(1) show ?thesis by (intro conjI exI [of _ calls])
qed

theorem eleventh_event_suspends_witness:
  "''agent-infra-001'' \<in> an_suspended (fst (process_events demo_forest demo_post demo_burst (anomaly_init, [])))"
proof -
  obtain s' w' where run: "process_events demo_forest demo_post demo_burst (anomaly_init, []) = (s', w')" by fastforce
  have "10 < events_of ''agent-infra-001'' demo_burst" by (simp add: demo_burst_events)
  from eleventh_event_suspends [OF run this, THEN conjunct1] run show ?thesis by simp
qed

text \<open>
  Further: A request to POST /score, meant for tests, records an event in the burst detector of the agent it
  names and changes nothing else. After ten such requests the next genuine event of the
  agent suspends it, whatever that event is.
\<close>
theorem score_requests_count_as_events:
  assumes state: "an_bursters s a = burst_init\<lparr>bd_count := n\<rparr>" "0 \<le> n" "a \<notin> an_suspended s"
    and requests: "10 \<le> events_of a es" and genuine: "ae_agent_id e = a"
    and run: "process_event F post e (score_requests F es s, w) = (s', w')"
  shows "a \<in> an_suspended s' \<and>
    w' = snd (post a (''Burst detection: '' @ str_int (n + int (events_of a es) + 1) @ '' events in window'') w)"
proof -
  let ?n = "n + int (events_of a es)"
  from score_requests_state [of F es s a] obtain b where b: "score_requests F es s = s\<lparr>an_bursters := b\<rparr>"
    "b a = record_many (int (events_of a es)) (an_bursters s a)" by (elim exE conjE)
  obtain v s1 where s1: "score_step F e (score_requests F es s) = (v, s1)" by fastforce
  have count: "an_bursters s1 (ae_agent_id e) = burst_init\<lparr>bd_count := ?n + 1\<rparr>"
    using score_step_simps(2) [OF s1] b genuine state(1) by (simp add: record_one_def record_many_def)
  have fires: "is_burst (an_bursters s1 (ae_agent_id e))"
    unfolding count is_burst_init using requests state(2) by simp
  have old: "ae_agent_id e \<notin> an_suspended (score_requests F es s)" using state(3) genuine b(1) by simp
  show ?thesis
    using process_event_burst(1,2) [OF s1 fires run] old count genuine by (simp add: burst_reason_def)
qed

theorem score_requests_count_as_events_witness:
  "''agent-infra-001'' \<in> an_suspended (fst (process_event demo_forest demo_post (demo_event ''e2'' 5)
     (score_requests demo_forest demo_burst anomaly_init, [])))"
proof -
  obtain s' w' where run: "process_event demo_forest demo_post (demo_event ''e2'' 5)
     (score_requests demo_forest demo_burst anomaly_init, []) = (s', w')" by fastforce
  have init: "an_bursters (anomaly_init :: nat anomaly_state) ''agent-infra-001'' = burst_init\<lparr>bd_count := 0\<rparr>"
    "''agent-infra-001'' \<notin> an_suspended (anomaly_init :: nat anomaly_state)"
    "10 \<le> events_of ''agent-infra-001'' demo_burst" "ae_agent_id (demo_event ''e2'' 5) = ''agent-infra-001''"
    by (simp_all add: anomaly_init_def burst_init_def demo_burst_events demo_event_def)
  have "(0 :: int) \<le> 0" by simp
  from score_requests_count_as_events [OF init(1) this init(2,3,4) run, THEN conjunct1] run show ?thesis by simp
qed

section \<open>The running service\<close>

text \<open>
  C22: However messages, answers of the identity API and scoring requests interleave since the start of the service,
  the requests it has sent are for pairwise different agents, each the agent of a message it took; the suspended set
  is exactly those agents and the one whose answer is awaited. So no agent is ever asked for twice, also
  not by a message that arrives while a request is on its way, nor after the request failed or the identity was
  reinstated, and scoring requests alone suspend nobody.
\<close>
theorem one_request_per_agent_in_every_interleaving:
  assumes "service_run F post (startup w0) is c"
  shows "\<exists>calls. sv_world c = ask post calls w0 \<and> distinct (map fst calls) \<and>
     (case sv_waiting c of
        None \<Rightarrow> an_suspended (sv_state c) = set (map fst calls)
      | Some t \<Rightarrow> wt_agent t \<notin> set (map fst calls) \<and> an_suspended (sv_state c) = insert (wt_agent t) (set (map fst calls))) \<and>
     an_suspended (sv_state c) \<subseteq> message_agents is"
proof -
  from run_requested [OF assms] obtain calls where calls: "requested post w0 c calls" by (elim exE)
  have "an_suspended (sv_state c) \<subseteq> message_agents is"
    using run_suspended [OF assms] by (simp add: startup_def anomaly_init_def)
  with calls show ?thesis by (intro exI [of _ calls]) (auto simp: requested_def split: option.splits)
qed

text \<open>Ten scoring requests and a message.\<close>

definition demo_inputs :: "input list" where
  "demo_inputs = map Score_Request (replicate 10 (demo_event ''e1'' 0)) @ [Message (demo_event ''e2'' 5)]"

lemma demo_inputs_run: "\<exists>c. service_run demo_forest post (startup w0) demo_inputs c"
proof -
  obtain d where "service_run demo_forest post (startup w0) (map Score_Request (replicate 10 (demo_event ''e1'' 0))) d"
    "sv_waiting d = sv_waiting (startup w0 :: (nat, 'a) service)"
    using score_requests_run by blast
  then show ?thesis unfolding demo_inputs_def using message_run by (simp add: startup_def)
qed

lemma demo_inputs_agents: "message_agents demo_inputs = {''agent-infra-001''}"
  by (auto simp: message_agents_def demo_inputs_def demo_event_agent)

theorem one_request_per_agent_in_every_interleaving_witness:
  "\<exists>c calls. service_run demo_forest demo_post (startup []) demo_inputs c \<and> sv_world c = ask demo_post calls [] \<and>
     length calls \<le> 1"
proof -
  obtain c where run: "service_run demo_forest demo_post (startup []) demo_inputs c" using demo_inputs_run [of demo_post "[]"] by (elim exE)
  from one_request_per_agent_in_every_interleaving [OF run] obtain calls where
    calls: "sv_world c = ask demo_post calls []" "distinct (map fst calls)" "set (map fst calls) \<subseteq> {''agent-infra-001''}"
    unfolding demo_inputs_agents by (force split: option.splits)
  have "length (map fst calls) = card (set (map fst calls))" by (rule distinct_card [OF calls(2), symmetric])
  also have "\<dots> \<le> card {''agent-infra-001''}" by (rule card_mono [OF _ calls(3)]) simp
  finally have "length calls \<le> 1" by simp
  with run calls(1) show ?thesis by blast
qed

text \<open>
  C23: The counter of an agent is reset only by its suspension, never by time, and anyone can advance it: in every
  interleaving, a message of an agent that was named by ten messages and scoring requests before suspends it, however
  long ago those came and whatever the forest says; then exactly one request for it has been sent or is on its way.
\<close>
theorem eleventh_mention_suspends:
  assumes run: "service_run F post (startup w0) (is @ Message e # js) c" and many: "10 \<le> counted (ae_agent_id e) is"
  shows "ae_agent_id e \<in> an_suspended (sv_state c) \<and>
     (\<exists>calls. sv_world c = ask post calls w0 \<and> distinct (map fst calls) \<and>
        (ae_agent_id e \<in> set (map fst calls) \<longleftrightarrow> \<not> (\<exists>t. sv_waiting c = Some t \<and> wt_agent t = ae_agent_id e)))"
proof -
  have susp: "ae_agent_id e \<in> an_suspended (sv_state c)" by (rule message_suspends [OF run refl many])
  from run_requested [OF run] obtain calls where calls: "requested post w0 c calls" by (elim exE)
  have "ae_agent_id e \<in> set (map fst calls) \<longleftrightarrow> \<not> (\<exists>t. sv_waiting c = Some t \<and> wt_agent t = ae_agent_id e)"
    using susp calls unfolding requested_def
    by (cases "sv_waiting c") (simp, simp only: option.case option.inject, metis insert_iff)
  with susp calls show ?thesis by (intro conjI exI [of _ calls]) (simp_all add: requested_def)
qed

theorem eleventh_mention_suspends_witness:
  "\<exists>c. service_run demo_forest demo_post (startup []) demo_inputs c \<and> ''agent-infra-001'' \<in> an_suspended (sv_state c)"
proof -
  obtain c where run: "service_run demo_forest demo_post (startup []) demo_inputs c" using demo_inputs_run [of demo_post "[]"] by (elim exE)
  have "10 \<le> counted (ae_agent_id (demo_event ''e2'' 5)) (map Score_Request (replicate 10 (demo_event ''e1'' 0)))"
    by (simp add: counted_def demo_event_agent)
  from eleventh_mention_suspends [OF run [unfolded demo_inputs_def] this, THEN conjunct1] run show ?thesis
    unfolding demo_event_agent by blast
qed

section \<open>The baseline\<close>

text \<open>
  Further: The statistics of a non-empty list of events: the event count is the length; for each of the five
  features 0 \<le> min \<le> mean \<le> max \<le> 1; at most five top actions, most frequent first, each different
  and with the number of events that have it. An empty list has no statistics.
\<close>
theorem feature_statistics_consistent:
  "case compute_feature_statistics es of
     None \<Rightarrow> es = []
   | Some ss \<Rightarrow> ss_event_count ss = length es \<and> map fst (ss_features ss) = feature_names \<and>
       list_all (\<lambda>x. 0 \<le> fs_min (snd x) \<and> fs_min (snd x) \<le> fs_mean (snd x) \<and>
         fs_mean (snd x) \<le> fs_max (snd x) \<and> fs_max (snd x) \<le> 1) (ss_features ss) \<and>
       length (ss_top_actions ss) \<le> 5 \<and> sorted_wrt (\<lambda>x y. snd y \<le> snd x) (ss_top_actions ss) \<and>
       distinct (map fst (ss_top_actions ss)) \<and>
       list_all (\<lambda>x. snd x = length (filter (\<lambda>e. ae_action e = fst x) es) \<and> 0 < snd x) (ss_top_actions ss)"
proof (cases "compute_feature_statistics es")
  case None
  then show ?thesis by (auto simp: compute_feature_statistics_def Let_def split: if_splits)
next
  case (Some ss)
  let ?sorted = "sort_key (\<lambda>x. - int (snd x)) (count_actions es [])"
  have ss: "ss_event_count ss = length es" "map fst (ss_features ss) = map ((!) feature_names) [0..<length feature_names]"
    "ss_top_actions ss = take 5 ?sorted"
    using Some by (auto simp: compute_feature_statistics_def Let_def split: if_splits)
  have names: "map fst (ss_features ss) = feature_names" unfolding ss(2) by (rule map_nth)
  have "distinct (map fst ?sorted)"
  proof -
    have "distinct (map fst (count_actions es []))" by (rule count_actions_distinct) simp
    then show ?thesis by (simp add: distinct_map)
  qed
  then have top: "distinct (map fst (ss_top_actions ss))" unfolding ss(3) take_map [symmetric] by (rule distinct_take)
  have "list_all (\<lambda>x. snd x = length (filter (\<lambda>e. ae_action e = fst x) es) \<and> 0 < snd x) ?sorted"
    using count_actions_count [of _ _ es] by (force simp: list_all_iff)
  then have counts: "list_all (\<lambda>x. snd x = length (filter (\<lambda>e. ae_action e = fst x) es) \<and> 0 < snd x) (ss_top_actions ss)"
    unfolding ss(3) list_all_iff by (blast dest: in_set_takeD)
  have "sorted_wrt (\<lambda>x y. snd y \<le> snd x) (ss_top_actions ss)"
    unfolding ss(3) by (rule sorted_wrt_take [OF sort_key_desc])
  moreover have "length (ss_top_actions ss) \<le> 5" unfolding ss(3) by simp
  ultimately show ?thesis unfolding Some option.case
    using ss(1) names stats_features [OF Some] top counts by (simp only: list_all_iff simp_thms) blast
qed

text \<open>
  Further: Generation gives one event per random draw, sorted by time, all of the requested agent,
  each with an action of the profile of its agent type (InfraAgent's for an unknown one), a reason
  exactly when it is denied, and a time not in the future of the given instant by more than a day and not
  older than the requested days by more than a day.
\<close>
theorem baseline_events_fit_the_profile:
  assumes random: "\<forall>d\<in>set draws. 0 \<le> dr_day d \<and> dr_day d \<le> 1 \<and> 0 \<le> dr_hour d \<and> dr_hour d \<le> 1 \<and>
      (\<forall>xs. xs \<noteq> [] \<longrightarrow> dr_choice d xs \<in> set xs)"
    and days: "0 \<le> days_back" and es: "es = generate_baseline_events now agent agent_type days_back draws"
  shows "length es = length draws \<and> sorted (map ae_timestamp es) \<and>
    list_all (\<lambda>e. ae_agent_id e = agent \<and> ae_action e \<in> set (ap_actions (profile_of agent_type)) \<and>
      ae_decision e \<in> {''ALLOW'', ''DENY''} \<and> (ae_decision_reason e = None) = (ae_decision e = ''ALLOW'') \<and>
      ae_timestamp e \<le> now + us_per_day \<and>
      of_int (now - us_per_day) - days_back * of_int us_per_day \<le> (of_int (ae_timestamp e) :: rat)) es"
proof -
  have one: "ae_agent_id e = agent \<and> ae_action e \<in> set (ap_actions (profile_of agent_type)) \<and>
      ae_decision e \<in> {''ALLOW'', ''DENY''} \<and> (ae_decision_reason e = None) = (ae_decision e = ''ALLOW'') \<and>
      ae_timestamp e \<le> now + us_per_day \<and>
      of_int (now - us_per_day) - days_back * of_int us_per_day \<le> (of_int (ae_timestamp e) :: rat)"
    if d: "d \<in> set draws" and e: "e = baseline_event now agent agent_type days_back d" for d e
  proof -
    have r: "0 \<le> dr_day d" "dr_day d \<le> 1" "0 \<le> dr_hour d" "dr_hour d \<le> 1"
      "dr_choice d (ap_actions (profile_of agent_type)) \<in> set (ap_actions (profile_of agent_type))"
      using random d profile_actions_nonempty by blast+
    let ?hour = "uniform (ap_start_hour (profile_of agent_type)) (min (ap_end_hour (profile_of agent_type)) 23) (dr_hour d)"
    have off: "0 \<le> uniform 0 days_back (dr_day d)" "uniform 0 days_back (dr_day d) \<le> days_back"
      using uniform_between [OF r(1,2) days] by blast+
    have "0 \<le> ?hour" "?hour \<le> 23"
      using uniform_between [OF r(3,4), of "ap_start_hour (profile_of agent_type)" "min (ap_end_hour (profile_of agent_type)) 23"]
        profile_hours [of agent_type] by simp_all
    note times = baseline_time_bounds [OF off this, of now]
    have "ae_timestamp e = baseline_time now (uniform 0 days_back (dr_day d)) ?hour"
      "ae_agent_id e = agent" "ae_action e = dr_choice d (ap_actions (profile_of agent_type))"
      unfolding e by (simp_all add: baseline_event_def Let_def)
    moreover have "ae_decision e \<in> {''ALLOW'', ''DENY''}" "(ae_decision_reason e = None) = (ae_decision e = ''ALLOW'')"
      unfolding e by (simp_all add: baseline_event_def Let_def)
    ultimately show ?thesis using times r(5) by simp
  qed
  have "set es = baseline_event now agent agent_type days_back ` set draws"
    "length es = length draws" "sorted (map ae_timestamp es)"
    by (simp_all add: es generate_baseline_events_def)
  with one show ?thesis unfolding list_all_iff by blast
qed

definition demo_draw :: draw where
  "demo_draw = \<lparr>dr_day = 1 / 14, dr_hour = 0, dr_choice = hd, dr_deny = 1 / 2, dr_task = 3, dr_bucket = 2,
     dr_event_id = ''e'', dr_jti = ''j''\<rparr>"

theorem baseline_events_fit_the_profile_witness:
  "list_all (\<lambda>e. ae_action e \<in> set PROVISIONER_ACTIONS)
     (generate_baseline_events 1700038800000000 ''agent-prov-001'' ''ProvisionerAgent'' 7 [demo_draw])"
proof -
  have random: "\<forall>d\<in>set [demo_draw]. 0 \<le> dr_day d \<and> dr_day d \<le> 1 \<and> 0 \<le> dr_hour d \<and> dr_hour d \<le> 1 \<and>
      (\<forall>xs. xs \<noteq> [] \<longrightarrow> dr_choice d xs \<in> set xs)"
    by (simp add: demo_draw_def)
  have profile: "ap_actions (profile_of ''ProvisionerAgent'') = PROVISIONER_ACTIONS" by code_simp
  have "(0 :: rat) \<le> 7" by simp
  from baseline_events_fit_the_profile [OF random this refl, of 1700038800000000 "''agent-prov-001''" "''ProvisionerAgent''"]
  show ?thesis unfolding profile list_all_iff by blast
qed

text \<open>
  \<open>day_offset\<close> is a fraction, so subtracting it moves the hour: the comment in the loop promises a time
  within the active hours, 9 to 18 for a ProvisionerAgent, and this draw gives 21.
\<close>

lemma baseline_leaves_active_hours:
  "dt_hour (ae_timestamp (baseline_event 1700038800000000 ''a'' ''ProvisionerAgent'' 7 demo_draw)) = 21"
  by code_simp

end
