(* ===== verification/Approval.thy ===== *)
theory Approval
  imports Redis_Client Py_Datetime Py_Json Interfaces
begin

text \<open>
  \<open>approval/models.py\<close>, \<open>approval/queue.py\<close> and \<open>approval/api.py\<close>: the human approval queue. A
  request is a Redis string under \<open>approval:<id>\<close> with a time to live, and its id is a member of the
  set \<open>approval:pending\<close> while nobody has resolved it. pydantic's \<open>model_dump_json\<close> and
  \<open>model_validate_json\<close> are the fields \<open>q_dump\<close> and \<open>q_validate\<close> of the queue; that the second
  takes back what the first writes is the locale \<open>codec\<close>. UUIDs are their text, the aware UTC
  datetimes \<^typ>\<open>instant\<close>s.
\<close>

section \<open>Data (models.py)\<close>

datatype approval_status = PENDING | APPROVED | DENIED | EXPIRED

datatype approval_risk = LOW | MEDIUM | HIGH

record approval_request =
  ar_request_id :: string
  ar_agent_id :: string
  ar_action :: string
  ar_resource_arn :: string
  ar_task_id :: string
  ar_policy_ref :: string
  ar_risk_level :: approval_risk
  ar_requested_at :: instant
  ar_expires_at :: instant
  ar_requesting_token_jti :: string
  ar_context :: pydict
  ar_status :: approval_status
  ar_approver_identity :: "string option"
  ar_resolved_at :: "instant option"

record approval_resolution =
  rs_request_id :: string
  rs_action :: string
  rs_approver_identity :: string
  rs_reason :: "string option"

section \<open>The queue (queue.py)\<close>

record 'r queue =
  q_redis :: "'r redis"
  q_dump :: "approval_request \<Rightarrow> string"
  q_validate :: "string \<Rightarrow> approval_request option"

definition KEY_PREFIX :: string where "KEY_PREFIX = ''approval:''"
definition PENDING_SET :: string where "PENDING_SET = ''approval:pending''"
definition DEFAULT_TTL_SECONDS :: int where "DEFAULT_TTL_SECONDS = 14400"

definition approval_key :: "string \<Rightarrow> string" where
  "approval_key rid = KEY_PREFIX @ rid"

text \<open>The caller's arguments of \<open>enqueue\<close>.\<close>

record approval_args =
  aa_agent_id :: string
  aa_action :: string
  aa_resource_arn :: string
  aa_task_id :: string
  aa_policy_ref :: string
  aa_risk_level :: approval_risk
  aa_token_jti :: string
  aa_context :: "pydict option"
  aa_ttl_seconds :: int

definition new_request :: "instant \<Rightarrow> string \<Rightarrow> approval_args \<Rightarrow> approval_request" where
  "new_request now uuid a =
     \<lparr>ar_request_id = uuid, ar_agent_id = aa_agent_id a, ar_action = aa_action a,
      ar_resource_arn = aa_resource_arn a, ar_task_id = aa_task_id a,
      ar_policy_ref = aa_policy_ref a, ar_risk_level = aa_risk_level a,
      ar_requested_at = now, ar_expires_at = now + aa_ttl_seconds a * us_per_second,
      ar_requesting_token_jti = aa_token_jti a,
      ar_context = (case aa_context a of Some d \<Rightarrow> d | None \<Rightarrow> []),
      ar_status = PENDING, ar_approver_identity = None, ar_resolved_at = None\<rparr>"

text \<open>\<open>now + timedelta(seconds=ttl)\<close> raises when the sum is no date.\<close>

definition enqueue :: "'r queue \<Rightarrow> instant \<Rightarrow> string \<Rightarrow> approval_args \<Rightarrow> ('r, approval_request) comp" where
  "enqueue Q now uuid a =
     (if \<not> valid_instant (now + aa_ttl_seconds a * us_per_second)
      then throw (OtherError ''OverflowError'' ''date value out of range'')
      else let request = new_request now uuid a in
        seq (redis_call (r_setex (q_redis Q) (approval_key (ar_request_id request))
               (aa_ttl_seconds a) (q_dump Q request))) (\<lambda>_.
        seq (redis_call (r_sadd (q_redis Q) PENDING_SET (ar_request_id request))) (\<lambda>_.
        ret request)))"

text \<open>\<open>if not raw\<close>: no key, or an empty value.\<close>

definition not_found :: "string \<Rightarrow> exn" where
  "not_found rid = ApprovalNotFoundError (''Approval request '' @ rid @ '' not found or expired'')"

definition get :: "'r queue \<Rightarrow> string \<Rightarrow> ('r, approval_request) comp" where
  "get Q rid = seq (redis_call (r_get (q_redis Q) (approval_key rid))) (\<lambda>raw.
     case raw of
       None \<Rightarrow> throw (not_found rid)
     | Some t \<Rightarrow>
         (if t = [] then throw (not_found rid)
          else case q_validate Q t of
                 None \<Rightarrow> throw (ValidationError ''ApprovalRequest'')
               | Some r \<Rightarrow> ret r))"

text \<open>\<open>str\<close> of an enum member mixed with \<open>str\<close> is \<open>Class.NAME\<close> (Python 3.12).\<close>

fun status_str :: "approval_status \<Rightarrow> string" where
  "status_str PENDING = ''ApprovalStatus.PENDING''"
| "status_str APPROVED = ''ApprovalStatus.APPROVED''"
| "status_str DENIED = ''ApprovalStatus.DENIED''"
| "status_str EXPIRED = ''ApprovalStatus.EXPIRED''"

text \<open>
  \<open>resolve\<close> reads, checks, then writes; nothing holds a lock between the two halves, so they are
  two operations here and \<open>resolve\<close> their sequence.
\<close>

definition resolve_check :: "approval_resolution \<Rightarrow> approval_request \<Rightarrow> exn option" where
  "resolve_check res request =
     (if ar_status request \<noteq> PENDING
      then Some (ApprovalAlreadyResolvedError (''Request '' @ rs_request_id res @ '' is already '' @
             status_str (ar_status request)))
      else if rs_approver_identity res = ar_agent_id request
      then Some (SelfApprovalError (''Agent '' @ ar_agent_id request @ '' cannot approve its own requests''))
      else None)"

definition resolve_read :: "'r queue \<Rightarrow> approval_resolution \<Rightarrow> ('r, approval_request) comp" where
  "resolve_read Q res = seq (get Q (rs_request_id res)) (\<lambda>request.
     case resolve_check res request of Some e \<Rightarrow> throw e | None \<Rightarrow> ret request)"

definition resolved :: "instant \<Rightarrow> approval_resolution \<Rightarrow> approval_request \<Rightarrow> approval_request" where
  "resolved now res request = request
     \<lparr>ar_status := (if rs_action res = ''approve'' then APPROVED else DENIED),
      ar_approver_identity := Some (rs_approver_identity res),
      ar_resolved_at := Some now\<rparr>"

definition resolve_write ::
  "'r queue \<Rightarrow> instant \<Rightarrow> approval_resolution \<Rightarrow> approval_request \<Rightarrow> ('r, approval_request) comp" where
  "resolve_write Q now res request =
     (let request' = resolved now res request in
      seq (redis_call (r_setex (q_redis Q) (approval_key (rs_request_id res)) 3600 (q_dump Q request'))) (\<lambda>_.
      seq (redis_call (r_srem (q_redis Q) PENDING_SET (rs_request_id res))) (\<lambda>_.
      ret request')))"

definition resolve :: "'r queue \<Rightarrow> instant \<Rightarrow> approval_resolution \<Rightarrow> ('r, approval_request) comp" where
  "resolve Q now res = seq (resolve_read Q res) (resolve_write Q now res)"

text \<open>The loop of \<open>list_pending\<close>: only \<open>ApprovalNotFoundError\<close> is caught.\<close>

fun collect :: "'r queue \<Rightarrow> string list \<Rightarrow> ('r, approval_request list) comp" where
  "collect Q [] = ret []"
| "collect Q (rid # rids) = (\<lambda>s. case get Q rid s of
       (Inr r, s') \<Rightarrow> seq (collect Q rids) (\<lambda>rs. ret (r # rs)) s'
     | (Inl (ApprovalNotFoundError m), s') \<Rightarrow>
         seq (redis_call (r_srem (q_redis Q) PENDING_SET rid)) (\<lambda>_. collect Q rids) s'
     | (Inl e, s') \<Rightarrow> (Inl e, s'))"

definition list_pending :: "'r queue \<Rightarrow> ('r, approval_request list) comp" where
  "list_pending Q = seq (redis_call (r_smembers (q_redis Q) PENDING_SET)) (collect Q)"

section \<open>The REST API (api.py)\<close>

definition as_http :: "exn \<Rightarrow> exn" where
  "as_http e = (case e of
       ApprovalNotFoundError m \<Rightarrow> HTTPException 404 m
     | ApprovalAlreadyResolvedError m \<Rightarrow> HTTPException 409 m
     | SelfApprovalError m \<Rightarrow> HTTPException 403 m
     | _ \<Rightarrow> e)"

definition get_approval :: "'r queue \<Rightarrow> string \<Rightarrow> ('r, approval_request) comp" where
  "get_approval Q request_id = try_except (get Q request_id) (\<lambda>e. case e of
       ApprovalNotFoundError m \<Rightarrow> throw (HTTPException 404 m)
     | _ \<Rightarrow> throw e)"

definition api_list_pending :: "'r queue \<Rightarrow> ('r, approval_request list) comp" where
  "api_list_pending Q = list_pending Q"

record resolve_request =
  rr_action :: string
  rr_approver_identity :: string
  rr_reason :: "string option"

definition resolve_approval ::
  "'r queue \<Rightarrow> instant \<Rightarrow> string \<Rightarrow> resolve_request \<Rightarrow> ('r, approval_request) comp" where
  "resolve_approval Q now request_id body =
     (if rr_action body \<notin> {''approve'', ''deny''}
      then throw (HTTPException 422 (''action must be '' @ repr_str ''approve'' @ '' or '' @ repr_str ''deny''))
      else try_except
        (resolve Q now \<lparr>rs_request_id = request_id, rs_action = rr_action body,
           rs_approver_identity = rr_approver_identity body, rs_reason = rr_reason body\<rparr>)
        (\<lambda>e. throw (as_http e)))"

section \<open>The abstract queue\<close>

text \<open>What the keys stand for: the request stored under an id, and the ids listed as pending.\<close>

definition entry :: "'r queue \<Rightarrow> rview \<Rightarrow> string \<Rightarrow> approval_request option" where
  "entry Q V rid = Option.bind (str_at V (approval_key rid)) (q_validate Q)"

definition pending_ids :: "rview \<Rightarrow> string set" where
  "pending_ids V = set_at V PENDING_SET"

lemma approval_key_inject [simp]: "approval_key a = approval_key b \<longleftrightarrow> a = b"
  by (simp add: approval_key_def)

lemma approval_key_pending [simp]:
  "approval_key rid = PENDING_SET \<longleftrightarrow> rid = ''pending''"
  "PENDING_SET = approval_key rid \<longleftrightarrow> rid = ''pending''"
  by (auto simp: approval_key_def PENDING_SET_def KEY_PREFIX_def)

lemma entry_put_set [simp]:
  "entry Q (put_set PENDING_SET S V) rid = (if rid = ''pending'' then None else entry Q V rid)"
  by (simp add: entry_def)

lemma resolved_fields [simp]:
  "ar_status (resolved now res r) = (if rs_action res = ''approve'' then APPROVED else DENIED)"
  "ar_approver_identity (resolved now res r) = Some (rs_approver_identity res)"
  "ar_agent_id (resolved now res r) = ar_agent_id r"
  "ar_action (resolved now res r) = ar_action r"
  "ar_resource_arn (resolved now res r) = ar_resource_arn r"
  "ar_request_id (resolved now res r) = ar_request_id r"
  by (simp_all add: resolved_def)

lemma resolve_check_None:
  "resolve_check res r = None \<longleftrightarrow> ar_status r = PENDING \<and> rs_approver_identity res \<noteq> ar_agent_id r"
  by (simp add: resolve_check_def)

locale approval_store = redis_service "q_redis Q" view elapse + codec "q_dump Q" "q_validate Q"
  for Q :: "'r queue" and view :: "'r \<Rightarrow> rview" and elapse :: "int \<Rightarrow> 'r \<Rightarrow> 'r"
begin

lemma entry_put_str [simp]:
  "entry Q (put_str (approval_key rid) (q_dump Q r) t V) rid' = (if rid' = rid then Some r else entry Q V rid')"
  by (simp add: entry_def parse_dump)

lemma get_run:
  assumes "get Q rid s = (x, s')"
  shows "view s' = view s"
    and "x = Inr r \<Longrightarrow> entry Q (view s) rid = Some r"
    and "x = Inl (ApprovalNotFoundError m) \<Longrightarrow> entry Q (view s) rid = None"
proof -
  obtain v s1 where g: "r_get (q_redis Q) (approval_key rid) s = (v, s1)" by fastforce
  have s1: "view s1 = view s" by (rule view_get [OF g])
  show "view s' = view s"
    using assms g s1
    by (cases v) (auto simp: get_def seq_def redis_call_def split: option.splits if_splits)
  {
    assume x: "x = Inr r"
    then obtain t where "v = Inr (Some t)" "t \<noteq> []" "q_validate Q t = Some r"
      using assms g
      by (cases v) (auto simp: get_def seq_def redis_call_def split: option.splits if_splits)
    moreover from this have "str_at (view s) (approval_key rid) = Some t"
      using get_val [of "approval_key rid" s "Some t" s1] g by simp
    ultimately show "entry Q (view s) rid = Some r" by (simp add: entry_def)
  next
    assume x: "x = Inl (ApprovalNotFoundError m)"
    then have "v = Inr None \<or> v = Inr (Some [])"
      using assms g
      by (cases v) (auto simp: get_def seq_def redis_call_def not_found_def split: option.splits if_splits)
    then have "str_at (view s) (approval_key rid) = None \<or> str_at (view s) (approval_key rid) = Some []"
      using get_val [of "approval_key rid" s _ s1] g by metis
    then show "entry Q (view s) rid = None"
      using parse_nil by (auto simp: entry_def)
  }
qed

text \<open>What a write may have done to the requests, whether its reply came or not.\<close>

lemma setex_entries:
  assumes "redis_call (r_setex (q_redis Q) (approval_key rid) t (q_dump Q r)) s = (x, s')"
  shows "entry Q (view s') k = entry Q (view s) k \<or> k = rid \<and> entry Q (view s') k = Some r"
  using assms
  by (auto simp: redis_call_def split: prod.splits sum.splits if_splits dest!: setex_ok setex_fail)

lemma put_set_entries: "entry Q (put_set PENDING_SET S V) k = entry Q V k \<or> entry Q (put_set PENDING_SET S V) k = None"
  by simp

lemma sadd_entries:
  assumes "redis_call (r_sadd (q_redis Q) PENDING_SET rid) s = (x, s')"
  shows "entry Q (view s') k = entry Q (view s) k \<or> entry Q (view s') k = None"
  using assms
  by (auto simp: redis_call_def split: prod.splits sum.splits if_splits dest!: sadd_ok sadd_fail)

lemma srem_entries:
  assumes "redis_call (r_srem (q_redis Q) PENDING_SET rid) s = (x, s')"
  shows "entry Q (view s') k = entry Q (view s) k \<or> entry Q (view s') k = None"
  using assms
  by (auto simp: redis_call_def split: prod.splits sum.splits if_splits dest!: srem_ok srem_fail)

lemma enqueue_entries:
  assumes "enqueue Q now uuid a s = (x, s')"
  shows "entry Q (view s') k \<in> {None, entry Q (view s) k} \<or>
    k = uuid \<and> entry Q (view s') k = Some (new_request now uuid a)"
proof (cases "valid_instant (now + aa_ttl_seconds a * us_per_second)")
  case False
  with assms show ?thesis by (simp add: enqueue_def)
next
  case True
  note run = assms [unfolded enqueue_def Let_def]
  from True run show ?thesis
    apply (simp add: new_request_def [THEN arg_cong [where f = ar_request_id]])
    apply (erule seq_cases)
    subgoal by (drule setex_entries [where k = k]) auto
    subgoal
      apply (erule seq_cases)
      subgoal by (drule setex_entries [where k = k], drule sadd_entries [where k = k]) auto
      subgoal by (drule setex_entries [where k = k], drule sadd_entries [where k = k]) auto
      done
    done
qed

lemma resolve_read_run:
  assumes "resolve_read Q res s = (x, s')"
  shows "view s' = view s"
    and "x = Inr r \<Longrightarrow> entry Q (view s) (rs_request_id res) = Some r \<and> resolve_check res r = None"
  using assms
  by (auto simp: resolve_read_def elim!: seq_cases split: option.splits dest: get_run)

lemma resolve_write_entries:
  assumes "resolve_write Q now res r s = (x, s')"
  shows "entry Q (view s') k \<in> {None, entry Q (view s) k} \<or>
    k = rs_request_id res \<and> entry Q (view s') k = Some (resolved now res r)"
  using assms unfolding resolve_write_def Let_def
  apply -
  apply (erule seq_cases)
  subgoal by (drule setex_entries [where k = k]) auto
  subgoal
    apply (erule seq_cases)
    subgoal by (drule setex_entries [where k = k], drule srem_entries [where k = k]) auto
    subgoal by (drule setex_entries [where k = k], drule srem_entries [where k = k]) auto
    done
  done

end

section \<open>The queue on a server that answers\<close>

context approval_store
begin

lemma collect_entries:
  "collect Q rids s = (x, s') \<Longrightarrow> entry Q (view s') k \<in> {None, entry Q (view s) k}"
proof (induction rids arbitrary: s x s')
  case Nil
  then show ?case by simp
next
  case (Cons rid rids)
  obtain y s1 where g: "get Q rid s = (y, s1)" by fastforce
  have s1: "view s1 = view s" by (rule get_run(1) [OF g])
  show ?case
  proof (cases y)
    case (Inr r)
    with Cons.prems g obtain z where "collect Q rids s1 = (z, s')"
      by (auto simp: seq_def split: prod.splits sum.splits)
    with Cons.IH s1 show ?thesis by fastforce
  next
    case (Inl e)
    show ?thesis
    proof (cases "\<exists>m. e = ApprovalNotFoundError m")
      case True
      then have "seq (redis_call (r_srem (q_redis Q) PENDING_SET rid)) (\<lambda>_. collect Q rids) s1 = (x, s')"
        using Cons.prems g Inl by auto
      then show ?thesis
      proof (cases rule: seq_cases)
        case (raises e)
        then show ?thesis using srem_entries [where k = k] s1 by fastforce
      next
        case (runs n s2)
        then have "entry Q (view s2) k \<in> {None, entry Q (view s) k}"
          using srem_entries [where k = k] s1 by fastforce
        with Cons.IH [OF runs(2)] show ?thesis by auto
      qed
    next
      case False
      then have "s' = s1" using Cons.prems g Inl by (cases e) auto
      with s1 show ?thesis by simp
    qed
  qed
qed

lemma list_pending_entries:
  assumes "list_pending Q s = (x, s')"
  shows "entry Q (view s') k \<in> {None, entry Q (view s) k}"
  using assms unfolding list_pending_def
proof (cases rule: seq_cases)
  case (raises e)
  then show ?thesis by (auto dest: view_smembers)
next
  case (runs rids s1)
  then have "view s1 = view s" by (auto dest: view_smembers)
  with collect_entries [OF runs(2)] show ?thesis by simp
qed

lemma str_at_entry: "entry Q V rid = Some r \<Longrightarrow> \<exists>t. str_at V (approval_key rid) = Some t \<and> q_validate Q t = Some r \<and> t \<noteq> []"
  using parse_nil by (auto simp: entry_def Option.bind_eq_Some_conv)

lemma str_no_set: "str_at V k \<noteq> None \<Longrightarrow> no_set V k"
  by (auto simp: no_set_def set_at_def str_at_def split: option.splits rvalue.splits)

lemma get_found:
  assumes "redis_reliable (q_redis Q) view" and "entry Q (view s) rid = Some r"
  obtains s' where "get Q rid s = (Inr r, s')" and "view s' = view s"
proof -
  obtain t where t: "str_at (view s) (approval_key rid) = Some t" "q_validate Q t = Some r" "t \<noteq> []"
    using str_at_entry [OF assms(2)] by blast
  then obtain v s' where g: "r_get (q_redis Q) (approval_key rid) s = (Inr v, s')"
    using reliable_calls(2) [OF assms(1) str_no_set] by (metis option.distinct(1))
  with t have "get Q rid s = (Inr r, s')"
    using get_val [OF g] by (simp add: get_def seq_def redis_call_def)
  then show thesis using that view_get [OF g] by blast
qed

lemma get_missing:
  assumes "redis_reliable (q_redis Q) view"
    and "str_at (view s) (approval_key rid) = None" and "no_set (view s) (approval_key rid)"
  obtains s' where "get Q rid s = (Inl (not_found rid), s')" and "view s' = view s"
proof -
  obtain v s' where g: "r_get (q_redis Q) (approval_key rid) s = (Inr v, s')"
    using reliable_calls(2) [OF assms(1,3)] by metis
  then have "get Q rid s = (Inl (not_found rid), s')"
    using get_val [OF g] assms(2) by (simp add: get_def seq_def redis_call_def)
  then show thesis using that view_get [OF g] by blast
qed

lemma enqueue_ok:
  assumes rel: "redis_reliable (q_redis Q) view" and ttl: "0 < aa_ttl_seconds a"
    and date: "valid_instant (now + aa_ttl_seconds a * us_per_second)"
    and key: "no_str (view s) PENDING_SET" "uuid \<noteq> ''pending''"
  obtains s' where "enqueue Q now uuid a s = (Inr (new_request now uuid a), s')"
    and "view s' = put_set PENDING_SET (insert uuid (pending_ids (view s)))
           (put_str (approval_key uuid) (q_dump Q (new_request now uuid a)) (Some (aa_ttl_seconds a)) (view s))"
proof -
  obtain s1 where s1: "r_setex (q_redis Q) (approval_key uuid) (aa_ttl_seconds a)
      (q_dump Q (new_request now uuid a)) s = (Inr (), s1)"
    using reliable_calls(4) [OF rel ttl] by metis
  have v1: "view s1 = put_str (approval_key uuid) (q_dump Q (new_request now uuid a))
      (Some (aa_ttl_seconds a)) (view s)" by (rule setex_ok [OF s1])
  have n1: "no_str (view s1) PENDING_SET"
    using key by (simp add: v1 no_str_def)
  obtain n s2 where s2: "r_sadd (q_redis Q) PENDING_SET uuid s1 = (Inr n, s2)"
    using reliable_calls(6) [OF rel n1] by metis
  have "view s2 = put_set PENDING_SET (insert uuid (set_at (view s1) PENDING_SET)) (view s1)"
    using sadd_ok [OF s2] by blast
  moreover have "set_at (view s1) PENDING_SET = pending_ids (view s)"
    using key by (simp add: v1 pending_ids_def)
  moreover have "ar_request_id (new_request now uuid a) = uuid" by (simp add: new_request_def)
  ultimately show thesis
    using that date s1 s2 v1 by (simp add: enqueue_def seq_def redis_call_def Let_def)
qed

lemma resolve_read_found:
  assumes rel: "redis_reliable (q_redis Q) view" and found: "entry Q (view s) (rs_request_id res) = Some r"
  obtains s' where "resolve_read Q res s =
      (case resolve_check res r of Some e \<Rightarrow> Inl e | None \<Rightarrow> Inr r, s')" and "view s' = view s"
proof -
  obtain s1 where "get Q (rs_request_id res) s = (Inr r, s1)" "view s1 = view s"
    using get_found [OF rel found] by blast
  then show thesis using that [of s1] by (simp add: resolve_read_def seq_def split: option.splits)
qed

lemma resolve_write_ok:
  assumes rel: "redis_reliable (q_redis Q) view" and key: "no_str (view s) PENDING_SET" "rs_request_id res \<noteq> ''pending''"
  obtains s' where "resolve_write Q now res r s = (Inr (resolved now res r), s')"
    and "view s' = put_set PENDING_SET (pending_ids (view s) - {rs_request_id res})
           (put_str (approval_key (rs_request_id res)) (q_dump Q (resolved now res r)) (Some 3600) (view s))"
proof -
  obtain s1 where s1: "r_setex (q_redis Q) (approval_key (rs_request_id res)) 3600
      (q_dump Q (resolved now res r)) s = (Inr (), s1)"
    using reliable_calls(4) [OF rel] by (metis zero_less_numeral)
  have v1: "view s1 = put_str (approval_key (rs_request_id res)) (q_dump Q (resolved now res r))
      (Some 3600) (view s)" by (rule setex_ok [OF s1])
  have n1: "no_str (view s1) PENDING_SET" using key by (simp add: v1 no_str_def)
  obtain n s2 where s2: "r_srem (q_redis Q) PENDING_SET (rs_request_id res) s1 = (Inr n, s2)"
    using reliable_calls(7) [OF rel n1] by metis
  have "view s2 = put_set PENDING_SET (set_at (view s1) PENDING_SET - {rs_request_id res}) (view s1)"
    using srem_ok [OF s2] by blast
  moreover have "set_at (view s1) PENDING_SET = pending_ids (view s)"
    using key by (simp add: v1 pending_ids_def)
  ultimately show thesis
    using that s1 s2 v1 by (simp add: resolve_write_def seq_def redis_call_def Let_def)
qed

end

section \<open>Every interleaving of the operations\<close>

text \<open>
  The state of the workflow: the server, the resolutions that have been read and checked but not
  yet written, and (for the specification only) every request ever enqueued. A step is one
  operation of the queue by any client, an operation's half, or anything else that other code does
  to the server, as long as it leaves no approval record of its own there.
\<close>

record 'r workflow =
  wf_server :: 'r
  wf_inflight :: "(approval_resolution \<times> approval_request) list"
  wf_enqueued :: "approval_request list"

inductive workflow_step :: "'r queue \<Rightarrow> ('r \<Rightarrow> rview) \<Rightarrow> 'r workflow \<Rightarrow> 'r workflow \<Rightarrow> bool"
  for Q :: "'r queue" and view :: "'r \<Rightarrow> rview" where
  Enqueue: "enqueue Q now uuid a (wf_server w) = (x, s') \<Longrightarrow>
     workflow_step Q view w (w\<lparr>wf_server := s', wf_enqueued := new_request now uuid a # wf_enqueued w\<rparr>)"
| Read: "resolve_read Q res (wf_server w) = (Inr r, s') \<Longrightarrow>
     workflow_step Q view w (w\<lparr>wf_server := s', wf_inflight := (res, r) # wf_inflight w\<rparr>)"
| Refuse: "resolve_read Q res (wf_server w) = (Inl e, s') \<Longrightarrow>
     workflow_step Q view w (w\<lparr>wf_server := s'\<rparr>)"
| Write: "(res, r) \<in> set (wf_inflight w) \<Longrightarrow> resolve_write Q now res r (wf_server w) = (x, s') \<Longrightarrow>
     workflow_step Q view w (w\<lparr>wf_server := s', wf_inflight := remove1 (res, r) (wf_inflight w)\<rparr>)"
| Get: "get Q rid (wf_server w) = (x, s') \<Longrightarrow> workflow_step Q view w (w\<lparr>wf_server := s'\<rparr>)"
| List: "list_pending Q (wf_server w) = (y, s') \<Longrightarrow> workflow_step Q view w (w\<lparr>wf_server := s'\<rparr>)"
| Other: "\<forall>rid. entry Q (view s') rid \<in> {None, entry Q (view (wf_server w)) rid} \<Longrightarrow>
     workflow_step Q view w (w\<lparr>wf_server := s'\<rparr>)"

inductive_cases workflow_stepE: "workflow_step Q view w w'"

text \<open>Where a stored request comes from: an enqueued one, as it was or resolved by someone else.\<close>

definition comes_from :: "approval_request list \<Rightarrow> string \<Rightarrow> approval_request \<Rightarrow> bool" where
  "comes_from E rid r \<longleftrightarrow> (\<exists>r0\<in>set E. ar_request_id r0 = rid \<and> ar_status r0 = PENDING \<and>
     (r = r0 \<or> (\<exists>now res. rs_approver_identity res \<noteq> ar_agent_id r0 \<and> r = resolved now res r0)))"

definition workflow_ok :: "'r queue \<Rightarrow> ('r \<Rightarrow> rview) \<Rightarrow> 'r workflow \<Rightarrow> bool" where
  "workflow_ok Q view w \<longleftrightarrow>
     (\<forall>rid r. entry Q (view (wf_server w)) rid = Some r \<longrightarrow> comes_from (wf_enqueued w) rid r)
   \<and> (\<forall>(res, r)\<in>set (wf_inflight w). r \<in> set (wf_enqueued w) \<and>
        ar_request_id r = rs_request_id res \<and> resolve_check res r = None)"

definition workflow_start :: "'r queue \<Rightarrow> ('r \<Rightarrow> rview) \<Rightarrow> 'r \<Rightarrow> bool" where
  "workflow_start Q view s \<longleftrightarrow> (\<forall>rid. entry Q (view s) rid = None)"

lemma comes_from_pending:
  "comes_from E rid r \<Longrightarrow> ar_status r = PENDING \<Longrightarrow> r \<in> set E \<and> ar_request_id r = rid"
  by (auto simp: comes_from_def split: if_splits)

lemma comes_from_mono: "comes_from E rid r \<Longrightarrow> comes_from (r' # E) rid r"
  by (auto simp: comes_from_def)

lemma comes_from_new: "comes_from (new_request now uuid a # E) uuid (new_request now uuid a)"
  by (auto simp: comes_from_def new_request_def)

lemma comes_from_resolved:
  "r \<in> set E \<Longrightarrow> resolve_check res r = None \<Longrightarrow> comes_from E (ar_request_id r) (resolved now res r)"
  by (auto simp: comes_from_def resolve_check_None)

context approval_store
begin

lemma workflow_ok_other:
  assumes "workflow_ok Q view w" and "\<forall>k. entry Q (view s') k \<in> {None, entry Q (view (wf_server w)) k}"
  shows "workflow_ok Q view (w\<lparr>wf_server := s'\<rparr>)"
proof -
  have "comes_from (wf_enqueued w) rid r" if "entry Q (view s') rid = Some r" for rid r
  proof -
    from assms(2) have "entry Q (view s') rid \<in> {None, entry Q (view (wf_server w)) rid}" by blast
    with that have "entry Q (view (wf_server w)) rid = Some r" by auto
    with assms(1) show ?thesis by (simp add: workflow_ok_def)
  qed
  with assms(1) show ?thesis by (simp add: workflow_ok_def)
qed

lemma workflow_ok_step:
  assumes "workflow_step Q view w w'" and ok: "workflow_ok Q view w"
  shows "workflow_ok Q view w'"
  using assms(1)
proof cases
  case (Enqueue now uuid a x s')
  have "comes_from (new_request now uuid a # wf_enqueued w) rid r" if "entry Q (view s') rid = Some r" for rid r
    using enqueue_entries [OF Enqueue(2), of rid] that ok
    by (auto simp: workflow_ok_def intro: comes_from_mono comes_from_new)
  with ok Enqueue(1) show ?thesis by (auto simp: workflow_ok_def)
next
  case (Read res r s')
  have v: "view s' = view (wf_server w)" and r: "entry Q (view (wf_server w)) (rs_request_id res) = Some r"
    "resolve_check res r = None" using resolve_read_run [OF Read(2)] by auto
  have "comes_from (wf_enqueued w) (rs_request_id res) r" using ok r by (simp add: workflow_ok_def)
  then have "r \<in> set (wf_enqueued w)" "ar_request_id r = rs_request_id res"
    using r(2) by (auto simp: resolve_check_None dest: comes_from_pending)
  with ok v r Read(1) show ?thesis by (auto simp: workflow_ok_def)
next
  case (Refuse res e s')
  then show ?thesis using workflow_ok_other [OF ok] resolve_read_run(1) [OF Refuse(2)] by simp
next
  case (Write res r now x s')
  have r: "r \<in> set (wf_enqueued w)" "resolve_check res r = None" "ar_request_id r = rs_request_id res"
    using ok Write(2) by (auto simp: workflow_ok_def)
  have "comes_from (wf_enqueued w) rid r'" if "entry Q (view s') rid = Some r'" for rid r'
    using resolve_write_entries [OF Write(3), of rid] that ok comes_from_resolved [OF r(1,2)] r(3)
    by (auto simp: workflow_ok_def)
  moreover have "set (remove1 (res, r) (wf_inflight w)) \<subseteq> set (wf_inflight w)" by (rule set_remove1_subset)
  ultimately show ?thesis using ok Write(1) by (auto simp: workflow_ok_def)
next
  case (Get rid x s')
  then show ?thesis using workflow_ok_other [OF ok] get_run(1) [OF Get(2)] by simp
next
  case (List y s')
  then show ?thesis using workflow_ok_other [OF ok] list_pending_entries [OF List(2)] by blast
next
  case (Other s')
  then show ?thesis using workflow_ok_other [OF ok] by blast
qed

lemma workflow_ok_reachable:
  assumes "(workflow_step Q view)\<^sup>*\<^sup>* \<lparr>wf_server = s0, wf_inflight = [], wf_enqueued = []\<rparr> w"
    and "workflow_start Q view s0"
  shows "workflow_ok Q view w"
  using assms(1)
proof (induction rule: rtranclp_induct)
  case base
  with assms(2) show ?case by (simp add: workflow_ok_def workflow_start_def)
next
  case (step w w')
  then show ?case using workflow_ok_step by blast
qed

end

context approval_store
begin

lemma resolve_pending:
  assumes rel: "redis_reliable (q_redis Q) view" and found: "entry Q (view s) (rs_request_id res) = Some r"
    and key: "no_str (view s) PENDING_SET" "rs_request_id res \<noteq> ''pending''"
    and ok: "resolve_check res r = None"
  obtains s' where "resolve Q now res s = (Inr (resolved now res r), s')"
    and "view s' = put_set PENDING_SET (pending_ids (view s) - {rs_request_id res})
           (put_str (approval_key (rs_request_id res)) (q_dump Q (resolved now res r)) (Some 3600) (view s))"
proof -
  obtain s1 where r: "resolve_read Q res s = (Inr r, s1)" and s1: "view s1 = view s"
    by (rule resolve_read_found [OF rel found]) (simp add: ok)
  obtain s' where "resolve_write Q now res r s1 = (Inr (resolved now res r), s')"
    and "view s' = put_set PENDING_SET (pending_ids (view s) - {rs_request_id res})
           (put_str (approval_key (rs_request_id res)) (q_dump Q (resolved now res r)) (Some 3600) (view s))"
    using resolve_write_ok [OF rel, of s1 res now r] key s1 by metis
  with r show thesis using that by (simp add: resolve_def seq_def)
qed

lemma resolve_refused:
  assumes rel: "redis_reliable (q_redis Q) view" and found: "entry Q (view s) (rs_request_id res) = Some r"
    and no: "resolve_check res r = Some e"
  obtains s' where "resolve Q now res s = (Inl e, s')" and "view s' = view s"
proof -
  obtain s1 where "resolve_read Q res s = (Inl e, s1)" and "view s1 = view s"
    by (rule resolve_read_found [OF rel found]) (simp add: no)
  then show thesis using that by (simp add: resolve_def seq_def)
qed

lemma resolve_missing:
  assumes "redis_reliable (q_redis Q) view" and "str_at (view s) (approval_key (rs_request_id res)) = None"
    and "no_set (view s) (approval_key (rs_request_id res))"
  obtains s' where "resolve Q now res s = (Inl (not_found (rs_request_id res)), s')" and "view s' = view s"
proof -
  obtain s1 where g: "get Q (rs_request_id res) s = (Inl (not_found (rs_request_id res)), s1)" and
    v: "view s1 = view s"
    using get_missing [OF assms] by blast
  have "resolve Q now res s = (Inl (not_found (rs_request_id res)), s1)"
    by (simp add: resolve_def resolve_read_def seq_def g)
  then show thesis using v by (rule that)
qed

text \<open>A call that returned wrote the record and took the id out of the set.\<close>

lemma resolve_returned:
  assumes "resolve Q now res s = (Inr r', s')"
  obtains r where "entry Q (view s) (rs_request_id res) = Some r" "resolve_check res r = None"
    "r' = resolved now res r"
    "view s' = put_set PENDING_SET (set_at (put_str (approval_key (rs_request_id res)) (q_dump Q r')
        (Some 3600) (view s)) PENDING_SET - {rs_request_id res})
      (put_str (approval_key (rs_request_id res)) (q_dump Q r') (Some 3600) (view s))"
proof -
  obtain r s1 where r: "resolve_read Q res s = (Inr r, s1)" and w: "resolve_write Q now res r s1 = (Inr r', s')"
    using assms unfolding resolve_def by (rule seq_returns)
  have s1: "view s1 = view s" and e: "entry Q (view s) (rs_request_id res) = Some r" "resolve_check res r = None"
    using resolve_read_run [OF r] by auto
  obtain u s2 where set: "r_setex (q_redis Q) (approval_key (rs_request_id res)) 3600 (q_dump Q (resolved now res r)) s1
      = (Inr u, s2)" and rest: "seq (redis_call (r_srem (q_redis Q) PENDING_SET (rs_request_id res)))
      (\<lambda>_. ret (resolved now res r)) s2 = (Inr r', s')"
    using w unfolding resolve_write_def Let_def redis_call_Inr [symmetric] by (rule seq_returns)
  obtain n where rem: "r_srem (q_redis Q) PENDING_SET (rs_request_id res) s2 = (Inr n, s')"
    and r': "r' = resolved now res r"
    using rest unfolding redis_call_Inr [symmetric] by (rule seq_returns) simp
  show thesis
    by (rule that [OF e r']) (use setex_ok [OF set] srem_ok [OF rem] s1 r' in simp)
qed

end

section \<open>The life of a request\<close>

context approval_store
begin

lemma enqueued_lives:
  assumes rel: "redis_reliable (q_redis Q) view"
    and ttl: "0 < aa_ttl_seconds a" and date: "valid_instant (now + aa_ttl_seconds a * us_per_second)"
    and key: "no_str (view s) PENDING_SET" "uuid \<noteq> ''pending''"
  shows "\<exists>s'. enqueue Q now uuid a s = (Inr (new_request now uuid a), s') \<and> uuid \<in> pending_ids (view s') \<and>
     (\<forall>d. 0 \<le> d \<and> d < aa_ttl_seconds a \<longrightarrow>
        (\<exists>s2. get_approval Q uuid (elapse d s') = (Inr (new_request now uuid a), s2))) \<and>
     (\<forall>d \<ge> aa_ttl_seconds a. \<exists>s2. get_approval Q uuid (elapse d s') =
        (Inl (HTTPException 404 (''Approval request '' @ uuid @ '' not found or expired'')), s2))"
proof -
  let ?r = "new_request now uuid a" and ?k = "approval_key uuid"
  obtain s' where run: "enqueue Q now uuid a s = (Inr ?r, s')"
    and v: "view s' = put_set PENDING_SET (insert uuid (pending_ids (view s)))
           (put_str ?k (q_dump Q ?r) (Some (aa_ttl_seconds a)) (view s))"
    by (rule enqueue_ok [OF rel ttl date key])
  have at: "view s' ?k = Some (RStr (q_dump Q ?r), Some (aa_ttl_seconds a))"
    using key by (simp add: v put_set_def put_str_def)
  have live: "\<exists>s2. get_approval Q uuid (elapse d s') = (Inr ?r, s2)" if "0 \<le> d" "d < aa_ttl_seconds a" for d
  proof -
    have "entry Q (view (elapse d s')) uuid = Some ?r"
      using that at by (simp add: entry_def str_at_def age_def view_elapse parse_dump)
    then obtain s2 where "get Q uuid (elapse d s') = (Inr ?r, s2)" by (rule get_found [OF rel])
    then show ?thesis by (simp add: get_approval_def try_except_def)
  qed
  have dead: "\<exists>s2. get_approval Q uuid (elapse d s') =
        (Inl (HTTPException 404 (''Approval request '' @ uuid @ '' not found or expired'')), s2)"
    if "aa_ttl_seconds a \<le> d" for d
  proof -
    have "view (elapse d s') ?k = None" using that ttl at by (simp add: view_elapse age_def)
    then have "str_at (view (elapse d s')) ?k = None" "no_set (view (elapse d s')) ?k"
      by (simp_all add: str_at_def no_set_def set_at_def)
    then obtain s2 where "get Q uuid (elapse d s') = (Inl (not_found uuid), s2)" by (rule get_missing [OF rel])
    then show ?thesis by (simp add: get_approval_def try_except_def not_found_def)
  qed
  have "uuid \<in> pending_ids (view s')" by (simp add: v pending_ids_def)
  with run live dead show ?thesis by blast
qed

lemma resolve_outcomes:
  assumes rel: "redis_reliable (q_redis Q) view" and found: "entry Q (view s) (rs_request_id res) = Some r"
    and key: "no_str (view s) PENDING_SET" "rs_request_id res \<noteq> ''pending''"
  shows "\<exists>s'. resolve Q now res s =
      (if ar_status r \<noteq> PENDING
       then Inl (ApprovalAlreadyResolvedError (''Request '' @ rs_request_id res @ '' is already '' @ status_str (ar_status r)))
       else if rs_approver_identity res = ar_agent_id r
       then Inl (SelfApprovalError (''Agent '' @ ar_agent_id r @ '' cannot approve its own requests''))
       else Inr (resolved now res r), s') \<and>
      (if ar_status r = PENDING \<and> rs_approver_identity res \<noteq> ar_agent_id r
       then entry Q (view s') (rs_request_id res) = Some (resolved now res r) \<and>
            ttl_at (view s') (approval_key (rs_request_id res)) = Some 3600 \<and>
            pending_ids (view s') = pending_ids (view s) - {rs_request_id res} \<and>
            (\<forall>k. k \<noteq> approval_key (rs_request_id res) \<and> k \<noteq> PENDING_SET \<longrightarrow> view s' k = view s k)
       else view s' = view s)"
proof (cases "resolve_check res r")
  case None
  obtain s' where "resolve Q now res s = (Inr (resolved now res r), s')"
    and v: "view s' = put_set PENDING_SET (pending_ids (view s) - {rs_request_id res})
           (put_str (approval_key (rs_request_id res)) (q_dump Q (resolved now res r)) (Some 3600) (view s))"
    by (rule resolve_pending [OF rel found key None])
  moreover have "ttl_at (view s') (approval_key (rs_request_id res)) = Some 3600"
    using key by (simp add: v)
  moreover have "entry Q (view s') (rs_request_id res) = Some (resolved now res r)"
    using key by (simp add: v)
  moreover have "pending_ids (view s') = pending_ids (view s) - {rs_request_id res}"
    by (simp add: v pending_ids_def)
  moreover have "\<forall>k. k \<noteq> approval_key (rs_request_id res) \<and> k \<noteq> PENDING_SET \<longrightarrow> view s' k = view s k"
    by (simp add: v put_set_def put_str_def)
  ultimately show ?thesis using None unfolding resolve_check_None by (intro exI [of _ s']) simp
next
  case (Some e)
  then obtain s' where "resolve Q now res s = (Inl e, s')" "view s' = view s"
    using resolve_refused [OF rel found] by blast
  with Some show ?thesis
    by (intro exI [of _ s']) (auto simp: resolve_check_def split: if_splits)
qed

lemma resolved_stays:
  assumes rel: "redis_reliable (q_redis Q) view"
    and run: "resolve Q now res s = (Inr r', s')" and key: "rs_request_id res \<noteq> ''pending''"
    and again: "rs_request_id res2 = rs_request_id res" and time: "0 \<le> d" "d < 3600"
  shows "\<exists>s2. resolve Q now2 res2 (elapse d s') = (Inl (ApprovalAlreadyResolvedError
      (''Request '' @ rs_request_id res2 @ '' is already '' @ status_str (ar_status r'))), s2)"
proof -
  obtain r where r': "r' = resolved now res r"
    and v: "view s' = put_set PENDING_SET (set_at (put_str (approval_key (rs_request_id res)) (q_dump Q r')
        (Some 3600) (view s)) PENDING_SET - {rs_request_id res})
      (put_str (approval_key (rs_request_id res)) (q_dump Q r') (Some 3600) (view s))"
    by (rule resolve_returned [OF run])
  have "view s' (approval_key (rs_request_id res)) = Some (RStr (q_dump Q r'), Some 3600)"
    using key by (simp add: v put_set_def put_str_def)
  then have "entry Q (view (elapse d s')) (rs_request_id res2) = Some r'"
    using time again by (simp add: entry_def str_at_def age_def view_elapse parse_dump)
  moreover have "resolve_check res2 r' = Some (ApprovalAlreadyResolvedError
      (''Request '' @ rs_request_id res2 @ '' is already '' @ status_str (ar_status r')))"
    by (simp add: resolve_check_def r')
  ultimately show ?thesis using resolve_refused [OF rel] by blast
qed

lemma resolve_race:
  assumes rel: "redis_reliable (q_redis Q) view" and found: "entry Q (view s) i = Some r"
    and key: "no_str (view s) PENDING_SET" "i \<noteq> ''pending''"
    and res: "rs_request_id res1 = i" "rs_request_id res2 = i"
    and ok: "resolve_check res1 r = None" "resolve_check res2 r = None"
  shows "\<exists>s1 s2 s3 s4. resolve_read Q res1 s = (Inr r, s1) \<and> resolve_read Q res2 s1 = (Inr r, s2) \<and>
     resolve_write Q now1 res1 r s2 = (Inr (resolved now1 res1 r), s3) \<and>
     resolve_write Q now2 res2 r s3 = (Inr (resolved now2 res2 r), s4) \<and>
     entry Q (view s4) i = Some (resolved now2 res2 r)"
proof -
  obtain s1 where s1: "resolve_read Q res1 s = (Inr r, s1)" "view s1 = view s"
    by (rule resolve_read_found [OF rel, where res = res1 and s = s and r = r]) (simp_all add: res ok found)
  obtain s2 where s2: "resolve_read Q res2 s1 = (Inr r, s2)" "view s2 = view s1"
    by (rule resolve_read_found [OF rel, where res = res2 and s = s1 and r = r]) (simp_all add: res ok found s1)
  have "no_str (view s2) PENDING_SET" "rs_request_id res1 \<noteq> ''pending''" using key res s1 s2 by simp_all
  then obtain s3 where s3: "resolve_write Q now1 res1 r s2 = (Inr (resolved now1 res1 r), s3)"
    and v3: "view s3 = put_set PENDING_SET (pending_ids (view s2) - {rs_request_id res1})
           (put_str (approval_key (rs_request_id res1)) (q_dump Q (resolved now1 res1 r)) (Some 3600) (view s2))"
    by (rule resolve_write_ok [OF rel])
  have "no_str (view s3) PENDING_SET" "rs_request_id res2 \<noteq> ''pending''"
    using key res by (simp_all add: v3 no_str_def)
  then obtain s4 where s4: "resolve_write Q now2 res2 r s3 = (Inr (resolved now2 res2 r), s4)"
    and v4: "view s4 = put_set PENDING_SET (pending_ids (view s3) - {rs_request_id res2})
           (put_str (approval_key (rs_request_id res2)) (q_dump Q (resolved now2 res2 r)) (Some 3600) (view s3))"
    by (rule resolve_write_ok [OF rel])
  have "entry Q (view s4) i = Some (resolved now2 res2 r)"
    using key res by (simp add: v4)
  with s1(1) s2(1) s3 s4 show ?thesis by blast
qed

end

section \<open>Listing\<close>

text \<open>An id that is listed as pending stands for a valid request, or for nothing any more.\<close>

definition listable :: "'r queue \<Rightarrow> rview \<Rightarrow> string \<Rightarrow> bool" where
  "listable Q V rid \<longleftrightarrow> rid \<noteq> ''pending'' \<and> (V (approval_key rid) = None \<or> entry Q V rid \<noteq> None)"

lemma entry_cong: "V (approval_key rid) = W (approval_key rid) \<Longrightarrow> entry Q V rid = entry Q W rid"
  by (simp add: entry_def str_at_def)

context approval_store
begin

lemma collect_ok:
  assumes rel: "redis_reliable (q_redis Q) view"
  shows "no_str (view s) PENDING_SET \<Longrightarrow> \<forall>rid\<in>set rids. listable Q (view s) rid \<Longrightarrow>
    \<exists>s'. collect Q rids s = (Inr (List.map_filter (entry Q (view s)) rids), s') \<and>
      pending_ids (view s') = pending_ids (view s) - {rid \<in> set rids. entry Q (view s) rid = None} \<and>
      (\<forall>k. k \<noteq> PENDING_SET \<longrightarrow> view s' k = view s k)"
proof (induction rids arbitrary: s)
  case Nil
  then show ?case by simp
next
  case (Cons rid rids)
  have l: "listable Q (view s) rid" using Cons.prems(2) by simp
  show ?case
  proof (cases "entry Q (view s) rid")
    case (Some r)
    then obtain s1 where g: "get Q rid s = (Inr r, s1)" and s1: "view s1 = view s"
      by (rule get_found [OF rel])
    obtain s' where "collect Q rids s1 = (Inr (List.map_filter (entry Q (view s)) rids), s')"
      "pending_ids (view s') = pending_ids (view s) - {rid \<in> set rids. entry Q (view s) rid = None}"
      "\<forall>k. k \<noteq> PENDING_SET \<longrightarrow> view s' k = view s k"
      using Cons.IH [of s1] Cons.prems s1 by auto
    with g Some show ?thesis
      by (intro exI [of _ s']) (auto simp: seq_def List.map_filter_simps)
  next
    case None
    with l have n: "view s (approval_key rid) = None" by (simp add: listable_def)
    then have "str_at (view s) (approval_key rid) = None" "no_set (view s) (approval_key rid)"
      by (simp_all add: str_at_def no_set_def set_at_def)
    then obtain s1 where g: "get Q rid s = (Inl (not_found rid), s1)" and s1: "view s1 = view s"
      by (rule get_missing [OF rel])
    have "no_str (view s1) PENDING_SET" using Cons.prems s1 by simp
    then obtain m s2 where r: "r_srem (q_redis Q) PENDING_SET rid s1 = (Inr m, s2)"
      using reliable_calls(7) [OF rel] by blast
    have v2: "view s2 = put_set PENDING_SET (pending_ids (view s) - {rid}) (view s)"
      using srem_ok [OF r] s1 by (simp add: pending_ids_def)
    have same: "view s2 k = view s k" if "k \<noteq> PENDING_SET" for k
      using that by (simp add: v2 put_set_def)
    have e2: "entry Q (view s2) i = entry Q (view s) i" if "i \<noteq> ''pending''" for i
      using that by (intro entry_cong same) simp
    have "listable Q (view s2) i" if "i \<in> set rids" for i
      using Cons.prems(2) that same e2 by (simp add: listable_def)
    moreover have "no_str (view s2) PENDING_SET" by (simp add: v2 no_str_def)
    ultimately obtain s' where c: "collect Q rids s2 = (Inr (List.map_filter (entry Q (view s2)) rids), s')"
      "pending_ids (view s') = pending_ids (view s2) - {rid \<in> set rids. entry Q (view s2) rid = None}"
      "\<forall>k. k \<noteq> PENDING_SET \<longrightarrow> view s' k = view s2 k"
      using Cons.IH [of s2] by blast
    have np: "\<forall>i\<in>set rids. i \<noteq> ''pending''" using Cons.prems(2) by (simp add: listable_def)
    then have mf: "List.map_filter (entry Q (view s2)) rids = List.map_filter (entry Q (view s)) rids"
      by (induction rids) (simp_all add: List.map_filter_simps e2 split: option.splits)
    have "pending_ids (view s') = pending_ids (view s) - {i \<in> set (rid # rids). entry Q (view s) i = None}"
      using c(2) np e2 None by (auto simp: v2 pending_ids_def)
    with c g r None s1 mf same show ?thesis
      by (intro exI [of _ s']) (simp add: not_found_def seq_def redis_call_def List.map_filter_simps)
  qed
qed

lemma list_pending_ok:
  assumes rel: "redis_reliable (q_redis Q) view"
    and key: "no_str (view s) PENDING_SET" and all: "\<forall>rid\<in>pending_ids (view s). listable Q (view s) rid"
  shows "\<exists>rs rids s'. list_pending Q s = (Inr rs, s') \<and> set rids = pending_ids (view s) \<and> distinct rids \<and>
     rs = List.map_filter (entry Q (view s)) rids \<and>
     pending_ids (view s') = {rid \<in> pending_ids (view s). entry Q (view s) rid \<noteq> None} \<and>
     (\<forall>k. k \<noteq> PENDING_SET \<longrightarrow> view s' k = view s k)"
proof -
  obtain rids s1 where m: "r_smembers (q_redis Q) PENDING_SET s = (Inr rids, s1)"
    using reliable_calls(9) [OF rel key] by blast
  have rids: "distinct rids" "set rids = pending_ids (view s)" and s1: "view s1 = view s"
    using smembers_val [OF m] view_smembers [OF m] by (simp_all add: pending_ids_def)
  obtain s' where "collect Q rids s1 = (Inr (List.map_filter (entry Q (view s)) rids), s')"
      "pending_ids (view s') = pending_ids (view s) - {rid \<in> set rids. entry Q (view s) rid = None}"
      "\<forall>k. k \<noteq> PENDING_SET \<longrightarrow> view s' k = view s k"
    using collect_ok [OF rel, of s1 rids] key all rids s1 by auto
  with m rids show ?thesis
    by (intro exI conjI) (auto simp: list_pending_def seq_def redis_call_def)
qed

end

end
