(* ===== verification/Approval_Properties.thy ===== *)
theory Approval_Properties
  imports Approval
begin

text \<open>
  The properties of the approval queue and its API, with the concrete queue of the witnesses: the
  server in memory, and requests written as JSON objects.
\<close>

section \<open>A concrete queue\<close>

fun status_name :: "approval_status \<Rightarrow> string" where
  "status_name PENDING = ''PENDING''"
| "status_name APPROVED = ''APPROVED''"
| "status_name DENIED = ''DENIED''"
| "status_name EXPIRED = ''EXPIRED''"

fun risk_name :: "approval_risk \<Rightarrow> string" where
  "risk_name LOW = ''low''"
| "risk_name MEDIUM = ''medium''"
| "risk_name HIGH = ''high''"

definition demo_fields :: "approval_request \<Rightarrow> json" where
  "demo_fields r = JList [JStr (ar_request_id r), JStr (ar_agent_id r), JStr (ar_action r),
     JStr (ar_resource_arn r), JStr (ar_task_id r), JStr (ar_policy_ref r),
     JStr (risk_name (ar_risk_level r)), JInt (ar_requested_at r), JInt (ar_expires_at r),
     JStr (ar_requesting_token_jti r), JObj (ar_context r), JStr (status_name (ar_status r)),
     (case ar_approver_identity r of None \<Rightarrow> JNull | Some a \<Rightarrow> JStr a),
     (case ar_resolved_at r of None \<Rightarrow> JNull | Some t \<Rightarrow> JInt t)]"

definition demo_dump :: "approval_request \<Rightarrow> string" where
  "demo_dump r = dumps_compact (demo_fields r)"

definition demo_unfields :: "json \<Rightarrow> approval_request option" where
  "demo_unfields v = (case v of
       JList [JStr i, JStr a, JStr ac, JStr ra, JStr ta, JStr p, JStr rl, JInt t1, JInt t2, JStr j,
              JObj c, JStr st, ap, rt] \<Rightarrow>
         Some \<lparr>ar_request_id = i, ar_agent_id = a, ar_action = ac, ar_resource_arn = ra,
           ar_task_id = ta, ar_policy_ref = p,
           ar_risk_level = (if rl = ''low'' then LOW else if rl = ''medium'' then MEDIUM else HIGH),
           ar_requested_at = t1, ar_expires_at = t2, ar_requesting_token_jti = j, ar_context = c,
           ar_status = (if st = ''PENDING'' then PENDING else if st = ''APPROVED'' then APPROVED
                        else if st = ''DENIED'' then DENIED else EXPIRED),
           ar_approver_identity = (case ap of JStr x \<Rightarrow> Some x | _ \<Rightarrow> None),
           ar_resolved_at = (case rt of JInt t \<Rightarrow> Some t | _ \<Rightarrow> None)\<rparr>
     | _ \<Rightarrow> None)"

definition demo_validate :: "string \<Rightarrow> approval_request option" where
  "demo_validate t = Option.bind (json_read t) demo_unfields"

definition demo_queue :: "mem queue" where
  "demo_queue = \<lparr>q_redis = mem_redis, q_dump = demo_dump, q_validate = demo_validate\<rparr>"

lemma demo_unfields [simp]: "demo_unfields (demo_fields r) = Some r"
  by (cases r; cases "ar_risk_level r"; cases "ar_status r")
    (simp_all add: demo_unfields_def demo_fields_def split: option.splits)

interpretation demo: codec demo_dump demo_validate
  by unfold_locales (simp_all add: demo_dump_def demo_validate_def)

interpretation queue: approval_store demo_queue mem_view mem_elapse
  by (simp add: approval_store_def demo_queue_def mem.redis_service_axioms demo.codec_axioms)

section \<open>Who can approve\<close>

text \<open>
  C3: Whatever the interleaving of enqueue, the halves of resolve, get, list_pending and other
  code, with commands failing at any point, an approved request stored in Redis was enqueued with
  the same agent, action and resource, and was approved by an identity other than that agent.
\<close>

theorem approvals_are_never_self_granted:
  assumes svc: "approval_store Q view el"
    and start: "workflow_start Q view s0"
    and steps: "(workflow_step Q view)\<^sup>*\<^sup>* \<lparr>wf_server = s0, wf_inflight = [], wf_enqueued = []\<rparr> w"
    and stored: "entry Q (view (wf_server w)) rid = Some r" "ar_status r = APPROVED"
  shows "\<exists>r0\<in>set (wf_enqueued w). ar_request_id r0 = rid \<and> ar_agent_id r = ar_agent_id r0 \<and>
     ar_action r = ar_action r0 \<and> ar_resource_arn r = ar_resource_arn r0 \<and>
     (\<exists>who. ar_approver_identity r = Some who \<and> who \<noteq> ar_agent_id r0)"
proof -
  have "comes_from (wf_enqueued w) rid r"
    using approval_store.workflow_ok_reachable [OF svc steps start] stored by (simp add: workflow_ok_def)
  with stored(2) show ?thesis by (auto simp: comes_from_def)
qed

definition demo_args :: approval_args where
  "demo_args = \<lparr>aa_agent_id = ''agent-infra-001'', aa_action = ''ec2:TerminateInstances'',
     aa_resource_arn = ''arn:aws:ec2:us-east-1:*:instance/i-1'', aa_task_id = ''t1'',
     aa_policy_ref = ''nhi.destructive_gate'', aa_risk_level = HIGH, aa_token_jti = ''j1'',
     aa_context = None, aa_ttl_seconds = 14400\<rparr>"

definition demo_resolution :: "string \<Rightarrow> string \<Rightarrow> approval_resolution" where
  "demo_resolution act who = \<lparr>rs_request_id = ''id-1'', rs_action = act,
     rs_approver_identity = who, rs_reason = None\<rparr>"

lemma demo_args_simps [simp]:
  "0 < aa_ttl_seconds demo_args" "aa_ttl_seconds demo_args = 14400"
  "aa_agent_id demo_args = ''agent-infra-001''"
  by (simp_all add: demo_args_def)

lemma demo_date: "valid_instant (0 + aa_ttl_seconds demo_args * us_per_second)"
  by code_simp

lemma demo_queue_reliable: "redis_reliable (q_redis demo_queue) mem_view"
  by (simp add: demo_queue_def mem_reliable)

lemma demo_empty [simp]: "entry demo_queue (mem_view Map.empty) rid = None"
  "pending_ids (mem_view Map.empty) = {}" "no_str (mem_view Map.empty) k" "no_set (mem_view Map.empty) k"
  "str_at (mem_view Map.empty) k = None"
  by (simp_all add: entry_def pending_ids_def no_str_def no_set_def mem_at)

text \<open>The server after one request is enqueued; after it is resolved.\<close>

lemma demo_enqueued:
  obtains s where "enqueue demo_queue 0 ''id-1'' demo_args Map.empty = (Inr (new_request 0 ''id-1'' demo_args), s)"
    and "mem_view s = put_set PENDING_SET {''id-1''} (put_str (approval_key ''id-1'')
      (demo_dump (new_request 0 ''id-1'' demo_args)) (Some 14400) (mem_view Map.empty))"
  using queue.enqueue_ok [OF demo_queue_reliable demo_args_simps(1) demo_date,
      where s = Map.empty and uuid = "''id-1''"]
  by (auto simp: demo_queue_def)

theorem approvals_are_never_self_granted_witness:
  "\<exists>w r. (workflow_step demo_queue mem_view)\<^sup>*\<^sup>*
       \<lparr>wf_server = Map.empty, wf_inflight = [], wf_enqueued = []\<rparr> w \<and>
     entry demo_queue (mem_view (wf_server w)) ''id-1'' = Some r \<and> ar_status r = APPROVED \<and>
     ar_approver_identity r \<noteq> Some (ar_agent_id r)"
proof -
  let ?w0 = "\<lparr>wf_server = Map.empty, wf_inflight = [], wf_enqueued = []\<rparr> :: mem workflow"
  let ?r = "new_request 0 ''id-1'' demo_args"
  let ?res = "demo_resolution ''approve'' ''secops@example.org''"
  obtain s1 where s1: "enqueue demo_queue 0 ''id-1'' demo_args Map.empty = (Inr ?r, s1)"
    and v1: "mem_view s1 = put_set PENDING_SET {''id-1''} (put_str (approval_key ''id-1'')
      (demo_dump ?r) (Some 14400) (mem_view Map.empty))" by (rule demo_enqueued)
  have f: "entry demo_queue (mem_view s1) (rs_request_id ?res) = Some ?r"
    using queue.entry_put_str [of "''id-1''" ?r] by (simp add: v1 demo_resolution_def demo_queue_def)
  have ok: "resolve_check ?res ?r = None"
    by (simp add: resolve_check_None demo_resolution_def new_request_def)
  obtain s2 where s2: "resolve_read demo_queue ?res s1 = (Inr ?r, s2)" and v2: "mem_view s2 = mem_view s1"
    by (rule queue.resolve_read_found [OF demo_queue_reliable f]) (simp add: ok)
  have key: "no_str (mem_view s2) PENDING_SET" "rs_request_id ?res \<noteq> ''pending''"
    by (simp_all add: v2 v1 no_str_def demo_resolution_def)
  obtain s3 where s3: "resolve_write demo_queue 5 ?res ?r s2 = (Inr (resolved 5 ?res ?r), s3)"
    and v3: "mem_view s3 = put_set PENDING_SET (pending_ids (mem_view s2) - {rs_request_id ?res})
       (put_str (approval_key (rs_request_id ?res)) (q_dump demo_queue (resolved 5 ?res ?r)) (Some 3600) (mem_view s2))"
    by (rule queue.resolve_write_ok [OF demo_queue_reliable key])
  let ?w1 = "?w0\<lparr>wf_server := s1, wf_enqueued := [?r]\<rparr>"
  let ?w2 = "?w1\<lparr>wf_server := s2, wf_inflight := [(?res, ?r)]\<rparr>"
  let ?w3 = "?w2\<lparr>wf_server := s3, wf_inflight := []\<rparr>"
  have "workflow_step demo_queue mem_view ?w0 ?w1" using workflow_step.Enqueue [of demo_queue 0 "''id-1''" demo_args ?w0] s1 by simp
  moreover have "workflow_step demo_queue mem_view ?w1 ?w2" using workflow_step.Read [of demo_queue ?res ?w1] s2 by simp
  moreover have "workflow_step demo_queue mem_view ?w2 ?w3"
    using workflow_step.Write [of ?res ?r ?w2 demo_queue 5] s3 by simp
  ultimately have steps: "(workflow_step demo_queue mem_view)\<^sup>*\<^sup>* ?w0 ?w3"
    by (meson converse_rtranclp_into_rtranclp rtranclp.rtrancl_refl)
  have e: "entry demo_queue (mem_view (wf_server ?w3)) ''id-1'' = Some (resolved 5 ?res ?r)"
    using v3 queue.entry_put_str [of "''id-1''" "resolved 5 ?res ?r"] by (simp add: demo_resolution_def)
  have a: "ar_status (resolved 5 ?res ?r) = APPROVED" by (simp add: demo_resolution_def)
  have "workflow_start demo_queue mem_view Map.empty" by (simp add: workflow_start_def)
  from approvals_are_never_self_granted [OF queue.approval_store_axioms this steps e a]
  show ?thesis using steps e a by (intro exI [of _ ?w3] exI [of _ "resolved 5 ?res ?r"]) auto
qed


section \<open>The life of a request\<close>

text \<open>
  C27: On a server that answers, an enqueued request is returned and listed as pending, can be read
  back unchanged until its time to live is over, and from then on is answered with 404.
\<close>

theorem enqueued_request_expires:
  assumes svc: "approval_store Q view el" and rel: "redis_reliable (q_redis Q) view"
    and ttl: "0 < aa_ttl_seconds a" and date: "valid_instant (now + aa_ttl_seconds a * us_per_second)"
    and key: "no_str (view s) PENDING_SET" "uuid \<noteq> ''pending''"
  shows "\<exists>s'. enqueue Q now uuid a s = (Inr (new_request now uuid a), s') \<and> uuid \<in> pending_ids (view s') \<and>
     (\<forall>d. 0 \<le> d \<and> d < aa_ttl_seconds a \<longrightarrow>
        (\<exists>s2. get_approval Q uuid (el d s') = (Inr (new_request now uuid a), s2))) \<and>
     (\<forall>d \<ge> aa_ttl_seconds a. \<exists>s2. get_approval Q uuid (el d s') =
        (Inl (HTTPException 404 (''Approval request '' @ uuid @ '' not found or expired'')), s2))"
  by (rule approval_store.enqueued_lives [OF svc rel ttl date key])

theorem enqueued_request_expires_witness:
  "\<exists>s' s1 s2. enqueue demo_queue 0 ''id-1'' demo_args Map.empty = (Inr (new_request 0 ''id-1'' demo_args), s') \<and>
     get_approval demo_queue ''id-1'' (mem_elapse 14399 s') = (Inr (new_request 0 ''id-1'' demo_args), s1) \<and>
     get_approval demo_queue ''id-1'' (mem_elapse 14400 s') =
       (Inl (HTTPException 404 (''Approval request '' @ ''id-1'' @ '' not found or expired'')), s2)"
proof -
  have key: "no_str (mem_view Map.empty) PENDING_SET" "''id-1'' \<noteq> ''pending''" by simp_all
  obtain s' where a: "enqueue demo_queue 0 ''id-1'' demo_args Map.empty = (Inr (new_request 0 ''id-1'' demo_args), s')"
    and b: "\<forall>d. 0 \<le> d \<and> d < aa_ttl_seconds demo_args \<longrightarrow>
        (\<exists>s2. get_approval demo_queue ''id-1'' (mem_elapse d s') = (Inr (new_request 0 ''id-1'' demo_args), s2))"
    and c: "\<forall>d \<ge> aa_ttl_seconds demo_args. \<exists>s2. get_approval demo_queue ''id-1'' (mem_elapse d s') =
        (Inl (HTTPException 404 (''Approval request '' @ ''id-1'' @ '' not found or expired'')), s2)"
    using enqueued_request_expires [where view = mem_view, OF queue.approval_store_axioms demo_queue_reliable
        demo_args_simps(1) demo_date key] by blast
  have "\<exists>s2. get_approval demo_queue ''id-1'' (mem_elapse 14399 s') = (Inr (new_request 0 ''id-1'' demo_args), s2)"
    by (rule b [rule_format]) simp
  moreover have "\<exists>s2. get_approval demo_queue ''id-1'' (mem_elapse 14400 s') =
        (Inl (HTTPException 404 (''Approval request '' @ ''id-1'' @ '' not found or expired'')), s2)"
    by (rule c [rule_format]) simp
  ultimately show ?thesis using a by blast
qed

text \<open>
  C24: \<open>resolve\<close> on a stored request: one that is no longer pending is refused as already resolved,
  one that its own agent resolves is refused, and neither changes the server; any other becomes
  approved for the action "approve" and denied for every other action, with the approver and the time and no other
  change, is kept for an hour and leaves the pending set, and no other key changes. The only approver
  that is refused is the requesting agent itself: its owner, and any other agent, is accepted.
\<close>

theorem resolve_on_stored_request:
  assumes svc: "approval_store Q view el" and rel: "redis_reliable (q_redis Q) view"
    and found: "entry Q (view s) (rs_request_id res) = Some r"
    and key: "no_str (view s) PENDING_SET" "rs_request_id res \<noteq> ''pending''"
  shows "\<exists>s'. resolve Q now res s =
      (if ar_status r \<noteq> PENDING
       then Inl (ApprovalAlreadyResolvedError (''Request '' @ rs_request_id res @ '' is already '' @ status_str (ar_status r)))
       else if rs_approver_identity res = ar_agent_id r
       then Inl (SelfApprovalError (''Agent '' @ ar_agent_id r @ '' cannot approve its own requests''))
       else Inr (r\<lparr>ar_status := if rs_action res = ''approve'' then APPROVED else DENIED,
              ar_approver_identity := Some (rs_approver_identity res), ar_resolved_at := Some now\<rparr>), s') \<and>
      (if ar_status r = PENDING \<and> rs_approver_identity res \<noteq> ar_agent_id r
       then entry Q (view s') (rs_request_id res) = Some (r\<lparr>ar_status := if rs_action res = ''approve'' then APPROVED else DENIED,
              ar_approver_identity := Some (rs_approver_identity res), ar_resolved_at := Some now\<rparr>) \<and>
            ttl_at (view s') (approval_key (rs_request_id res)) = Some 3600 \<and>
            pending_ids (view s') = pending_ids (view s) - {rs_request_id res} \<and>
            (\<forall>k. k \<noteq> approval_key (rs_request_id res) \<and> k \<noteq> PENDING_SET \<longrightarrow> view s' k = view s k)
       else view s' = view s)"
  using approval_store.resolve_outcomes [OF svc rel found key, of now] unfolding resolved_def .

definition demo_server :: mem where
  "demo_server = [approval_key ''id-1'' \<mapsto> (MStr (demo_dump (new_request 0 ''id-1'' demo_args)), Some 100),
                  PENDING_SET \<mapsto> (MSet [''id-1''], None)]"

lemma demo_server_at:
  "entry demo_queue (mem_view demo_server) ''id-1'' = Some (new_request 0 ''id-1'' demo_args)"
  "no_str (mem_view demo_server) PENDING_SET" "pending_ids (mem_view demo_server) = {''id-1''}"
  by (simp_all add: entry_def demo_server_def mem_at no_str_def pending_ids_def demo_queue_def
      demo.parse_dump)

theorem resolve_on_stored_request_witness:
  "(\<exists>s'. resolve demo_queue 5 (demo_resolution ''approve'' ''agent-infra-001'') demo_server
     = (Inl (SelfApprovalError ''Agent agent-infra-001 cannot approve its own requests''), s')) \<and>
   (\<exists>r s'. resolve demo_queue 5 (demo_resolution ''approve'' ''agent-data-001'') demo_server = (Inr r, s') \<and> ar_status r = APPROVED)"
proof -
  have found: "entry demo_queue (mem_view demo_server) (rs_request_id (demo_resolution act who)) = Some (new_request 0 ''id-1'' demo_args)"
    and key: "rs_request_id (demo_resolution act who) \<noteq> ''pending''" for act who
    using demo_server_at(1) by (simp_all add: demo_resolution_def)
  note outcome = resolve_on_stored_request [where view = mem_view, OF queue.approval_store_axioms demo_queue_reliable found
      demo_server_at(2) key, of 5]
  from outcome [of "''approve''" "''agent-infra-001''"]
  have self: "\<exists>s'. resolve demo_queue 5 (demo_resolution ''approve'' ''agent-infra-001'') demo_server
     = (Inl (SelfApprovalError ''Agent agent-infra-001 cannot approve its own requests''), s')"
    by (elim exE) (simp add: demo_resolution_def new_request_def demo_args_def)
  from outcome [of "''approve''" "''agent-data-001''"]
  have "\<exists>r s'. resolve demo_queue 5 (demo_resolution ''approve'' ''agent-data-001'') demo_server = (Inr r, s') \<and> ar_status r = APPROVED"
    by (elim exE conjE) (simp add: demo_resolution_def new_request_def demo_args_def)
  with self show ?thesis ..
qed

text \<open>
  C25: A resolution that returned is final for the hour its record is kept: every later \<open>resolve\<close> of
  the same request, by anyone, is refused as already resolved.
\<close>

theorem resolution_is_final:
  assumes svc: "approval_store Q view el" and rel: "redis_reliable (q_redis Q) view"
    and run: "resolve Q now res s = (Inr r', s')" and key: "rs_request_id res \<noteq> ''pending''"
    and again: "rs_request_id res2 = rs_request_id res" and time: "0 \<le> d" "d < 3600"
  shows "\<exists>s2. resolve Q now2 res2 (el d s') = (Inl (ApprovalAlreadyResolvedError
      (''Request '' @ rs_request_id res2 @ '' is already '' @ status_str (ar_status r'))), s2)"
  by (rule approval_store.resolved_stays [OF svc rel run key again time])

lemma demo_resolved:
  obtains s' where "resolve demo_queue 5 (demo_resolution act ''ciso'') demo_server
    = (Inr (resolved 5 (demo_resolution act ''ciso'') (new_request 0 ''id-1'' demo_args)), s')"
proof -
  have e: "entry demo_queue (mem_view demo_server) (rs_request_id (demo_resolution act ''ciso'')) =
      Some (new_request 0 ''id-1'' demo_args)"
    and k: "rs_request_id (demo_resolution act ''ciso'') \<noteq> ''pending''"
    and c: "resolve_check (demo_resolution act ''ciso'') (new_request 0 ''id-1'' demo_args) = None"
    using demo_server_at(1) by (simp_all add: demo_resolution_def resolve_check_None new_request_def)
  show thesis
    by (rule queue.resolve_pending [OF demo_queue_reliable e demo_server_at(2) k c, of 5]) (rule that)
qed

theorem resolution_is_final_witness:
  "\<exists>r' s' s2. resolve demo_queue 5 (demo_resolution ''deny'' ''ciso'') demo_server = (Inr r', s') \<and>
     resolve demo_queue 9 (demo_resolution ''approve'' ''cto'') (mem_elapse 60 s') =
       (Inl (ApprovalAlreadyResolvedError ''Request id-1 is already ApprovalStatus.DENIED''), s2)"
proof -
  let ?res = "demo_resolution ''deny'' ''ciso''" and ?res2 = "demo_resolution ''approve'' ''cto''"
  obtain s' where run: "resolve demo_queue 5 ?res demo_server
    = (Inr (resolved 5 ?res (new_request 0 ''id-1'' demo_args)), s')" by (rule demo_resolved)
  have k: "rs_request_id ?res \<noteq> ''pending''" "rs_request_id ?res2 = rs_request_id ?res"
    "(0::int) \<le> 60" "(60::int) < 3600"
    by (simp_all add: demo_resolution_def)
  from resolution_is_final [where view = mem_view, OF queue.approval_store_axioms demo_queue_reliable run k, of 9]
  have "\<exists>s2. resolve demo_queue 9 ?res2 (mem_elapse 60 s') =
       (Inl (ApprovalAlreadyResolvedError ''Request id-1 is already ApprovalStatus.DENIED''), s2)"
    by (simp add: demo_resolution_def)
  with run show ?thesis by blast
qed

text \<open>
  C26: \<open>resolve\<close> is not atomic: when two approvers read the same pending request before either
  writes, both calls return, the first says approved, the second says denied, and the stored record
  is the last one written.
\<close>

theorem concurrent_resolutions_both_return:
  assumes svc: "approval_store Q view el" and rel: "redis_reliable (q_redis Q) view"
    and found: "entry Q (view s) i = Some r" "ar_status r = PENDING"
    and key: "no_str (view s) PENDING_SET" "i \<noteq> ''pending''"
    and res: "rs_request_id res1 = i" "rs_request_id res2 = i"
    and who: "rs_approver_identity res1 \<noteq> ar_agent_id r" "rs_approver_identity res2 \<noteq> ar_agent_id r"
    and act: "rs_action res1 = ''approve''" "rs_action res2 = ''deny''"
  shows "\<exists>s1 s2 s3 s4 r1 r2. resolve_read Q res1 s = (Inr r, s1) \<and> resolve_read Q res2 s1 = (Inr r, s2) \<and>
     resolve_write Q now1 res1 r s2 = (Inr r1, s3) \<and> ar_status r1 = APPROVED \<and>
     resolve_write Q now2 res2 r s3 = (Inr r2, s4) \<and> ar_status r2 = DENIED \<and>
     entry Q (view s4) i = Some r2"
proof -
  have "resolve_check res1 r = None" "resolve_check res2 r = None"
    using found(2) who by (simp_all add: resolve_check_None)
  moreover have "ar_status (resolved now1 res1 r) = APPROVED" "ar_status (resolved now2 res2 r) = DENIED"
    using act by simp_all
  ultimately show ?thesis
    using approval_store.resolve_race [OF svc rel found(1) key res, of now1 now2] by blast
qed

theorem concurrent_resolutions_both_return_witness:
  "\<exists>s1 s2 r1 s3 r2 s4.
     resolve_read demo_queue (demo_resolution ''approve'' ''ciso'') demo_server = (Inr (new_request 0 ''id-1'' demo_args), s1) \<and>
     resolve_read demo_queue (demo_resolution ''deny'' ''cto'') s1 = (Inr (new_request 0 ''id-1'' demo_args), s2) \<and>
     resolve_write demo_queue 5 (demo_resolution ''approve'' ''ciso'') (new_request 0 ''id-1'' demo_args) s2 = (Inr r1, s3) \<and>
     ar_status r1 = APPROVED \<and>
     resolve_write demo_queue 6 (demo_resolution ''deny'' ''cto'') (new_request 0 ''id-1'' demo_args) s3 = (Inr r2, s4) \<and>
     ar_status r2 = DENIED"
proof -
  have p: "ar_status (new_request 0 ''id-1'' demo_args) = PENDING"
    "ar_agent_id (new_request 0 ''id-1'' demo_args) = ''agent-infra-001''"
    by (simp_all add: new_request_def)
  have k: "''id-1'' \<noteq> ''pending''" by simp
  have a: "rs_request_id (demo_resolution act who) = ''id-1''" "rs_action (demo_resolution act who) = act"
    "rs_approver_identity (demo_resolution act who) = who" for act who
    by (simp_all add: demo_resolution_def)
  have w: "rs_approver_identity (demo_resolution ''approve'' ''ciso'') \<noteq> ar_agent_id (new_request 0 ''id-1'' demo_args)"
    "rs_approver_identity (demo_resolution ''deny'' ''cto'') \<noteq> ar_agent_id (new_request 0 ''id-1'' demo_args)"
    by (simp_all add: a p)
  from concurrent_resolutions_both_return [where view = mem_view, OF queue.approval_store_axioms
      demo_queue_reliable demo_server_at(1) p(1) demo_server_at(2) k a(1) a(1) w a(2) a(2), of 5 6]
  show ?thesis by blast
qed

section \<open>Listing\<close>

text \<open>
  Further: \<open>list_pending\<close>, when each listed id stands for a valid request or for one that has expired,
  returns exactly the requests of the ids that are still alive, removes exactly the expired ids
  from the pending set, and changes no other key.
\<close>

theorem list_pending_lists_the_live:
  assumes svc: "approval_store Q view el" and rel: "redis_reliable (q_redis Q) view"
    and key: "no_str (view s) PENDING_SET" and all: "\<forall>rid\<in>pending_ids (view s). listable Q (view s) rid"
  shows "\<exists>rs rids s'. list_pending Q s = (Inr rs, s') \<and> set rids = pending_ids (view s) \<and> distinct rids \<and>
     rs = List.map_filter (entry Q (view s)) rids \<and>
     pending_ids (view s') = {rid \<in> pending_ids (view s). entry Q (view s) rid \<noteq> None} \<and>
     (\<forall>k. k \<noteq> PENDING_SET \<longrightarrow> view s' k = view s k)"
  by (rule approval_store.list_pending_ok [OF svc rel key all])

definition demo_stale_server :: mem where
  "demo_stale_server = demo_server(PENDING_SET \<mapsto> (MSet [''id-1'', ''id-0''], None))"

theorem list_pending_lists_the_live_witness:
  "\<exists>rs s'. list_pending demo_queue demo_stale_server = (Inr rs, s') \<and> pending_ids (mem_view s') = {''id-1''}"
proof -
  have e1: "mem_view demo_stale_server (approval_key ''id-0'') = None"
    by (simp add: demo_stale_server_def demo_server_def mem_view_def)
  have e: "entry demo_queue (mem_view demo_stale_server) ''id-1'' = Some (new_request 0 ''id-1'' demo_args)"
    "mem_view demo_stale_server (approval_key ''id-0'') = None"
    "pending_ids (mem_view demo_stale_server) = {''id-1'', ''id-0''}"
    "no_str (mem_view demo_stale_server) PENDING_SET"
    using e1 by (simp_all add: demo_stale_server_def entry_def demo_server_def mem_at no_str_def pending_ids_def
        demo_queue_def demo.parse_dump)
  have e0: "entry demo_queue (mem_view demo_stale_server) ''id-0'' = None"
    using e(2) by (simp add: entry_def str_at_def)
  have l: "\<forall>rid\<in>pending_ids (mem_view demo_stale_server). listable demo_queue (mem_view demo_stale_server) rid"
    using e by (simp add: listable_def)
  obtain rs s' where run: "list_pending demo_queue demo_stale_server = (Inr rs, s')" and
    p: "pending_ids (mem_view s') = {rid \<in> {''id-1'', ''id-0''}. entry demo_queue (mem_view demo_stale_server) rid \<noteq> None}"
    using list_pending_lists_the_live [where view = mem_view, OF queue.approval_store_axioms
        demo_queue_reliable e(4) l]
    unfolding e(3) by (elim exE conjE)
  have "{rid \<in> {''id-1'', ''id-0''}. entry demo_queue (mem_view demo_stale_server) rid \<noteq> None} = {''id-1''}"
    using e(1) e0 by auto
  with p have "pending_ids (mem_view s') = {''id-1''}" by (rule trans)
  with run show ?thesis by blast
qed

section \<open>The REST API\<close>

text \<open>
  Further: The PATCH endpoint answers 422 to an action that is neither "approve" nor "deny" before it
  reads anything, 404 to an id without a record, 409 to a resolved request, 403 to the requesting
  agent itself, and otherwise returns the resolved request.
\<close>

theorem resolve_endpoint_status:
  assumes svc: "approval_store Q view el" and rel: "redis_reliable (q_redis Q) view"
    and key: "no_str (view s) PENDING_SET" "rid \<noteq> ''pending''"
    and stored: "view s (approval_key rid) = None \<or> entry Q (view s) rid = Some r"
  shows "\<exists>x s'. resolve_approval Q now rid body s = (x, s') \<and>
     (if rr_action body \<notin> {''approve'', ''deny''} then (\<exists>m. x = Inl (HTTPException 422 m)) \<and> s' = s
      else if view s (approval_key rid) = None then (\<exists>m. x = Inl (HTTPException 404 m))
      else if ar_status r \<noteq> PENDING then (\<exists>m. x = Inl (HTTPException 409 m))
      else if rr_approver_identity body = ar_agent_id r then (\<exists>m. x = Inl (HTTPException 403 m))
      else (\<exists>r'. x = Inr r' \<and> ar_status r' = (if rr_action body = ''approve'' then APPROVED else DENIED)
              \<and> ar_approver_identity r' = Some (rr_approver_identity body)))"
proof -
  let ?res = "\<lparr>rs_request_id = rid, rs_action = rr_action body,
           rs_approver_identity = rr_approver_identity body, rs_reason = rr_reason body\<rparr>"
  have id: "rs_request_id ?res = rid" by simp
  show ?thesis
  proof (cases "view s (approval_key rid) = None")
    case True
    then have "str_at (view s) (approval_key (rs_request_id ?res)) = None"
      "no_set (view s) (approval_key (rs_request_id ?res))"
      by (simp_all add: str_at_def no_set_def set_at_def)
    then obtain s' where "resolve Q now ?res s = (Inl (not_found rid), s')"
      using approval_store.resolve_missing [OF svc rel] by (metis id)
    with True show ?thesis
      by (simp add: resolve_approval_def try_except_def not_found_def as_http_def)
  next
    case False
    with stored have found: "entry Q (view s) (rs_request_id ?res) = Some r" by simp
    have "rs_request_id ?res \<noteq> ''pending''" using key(2) by simp
    from approval_store.resolve_outcomes [OF svc rel found key(1) this, of now]
    show ?thesis using False
      by (elim exE conjE) (auto simp: resolve_approval_def try_except_def as_http_def)
  qed
qed

theorem resolve_endpoint_status_witness:
  "\<exists>m s'. resolve_approval demo_queue 5 ''id-1''
      \<lparr>rr_action = ''approve'', rr_approver_identity = ''agent-infra-001'', rr_reason = None\<rparr> demo_server
    = (Inl (HTTPException 403 m), s')"
proof -
  have k: "''id-1'' \<noteq> ''pending''" by simp
  have st: "mem_view demo_server (approval_key ''id-1'') = None \<or>
      entry demo_queue (mem_view demo_server) ''id-1'' = Some (new_request 0 ''id-1'' demo_args)"
    using demo_server_at(1) by blast
  have "mem_view demo_server (approval_key ''id-1'') \<noteq> None"
    by (simp add: demo_server_def mem_view_def)
  with resolve_endpoint_status [where view = mem_view, OF queue.approval_store_axioms
      demo_queue_reliable demo_server_at(2) k st, of 5
      "\<lparr>rr_action = ''approve'', rr_approver_identity = ''agent-infra-001'', rr_reason = None\<rparr>"]
  show ?thesis by (elim exE conjE) (auto simp: new_request_def)
qed

end
