(* ===== verification/Identity_Api.thy ===== *)
theory Identity_Api
  imports Redis_Client Py_Datetime Interfaces "HOL-Library.Char_ord" "HOL-Library.List_Lexorder"
begin

text \<open>
  \<open>identity/api.py\<close>: the registry of suspended identities, a Redis set with one reason string per
  identity, and two counters in the process. Redis is the parameter \<open>R\<close>; every exception of a
  handler's \<open>try\<close> block becomes a 503.
\<close>

section \<open>State\<close>

definition IDENTITY_SUSPENDED_KEY :: string where
  "IDENTITY_SUSPENDED_KEY = ''identities:suspended''"

definition REASON_KEY_PREFIX :: string where
  "REASON_KEY_PREFIX = ''identity:suspension_reason:''"

definition reason_key :: "string \<Rightarrow> string" where
  "reason_key agent = REASON_KEY_PREFIX @ agent"

record 'r identity_world =
  iw_server :: 'r
  iw_suspensions_total :: int
  iw_unsuspensions_total :: int

definition id_call :: "('r, 'a) rcall \<Rightarrow> ('r identity_world, 'a) comp" where
  "id_call m = (\<lambda>w. case redis_call m (iw_server w) of (x, s) \<Rightarrow> (x, w\<lparr>iw_server := s\<rparr>))"

definition unavailable :: "('r identity_world, 'a) comp \<Rightarrow> ('r identity_world, 'a) comp" where
  "unavailable m = try_except m (\<lambda>_. throw (HTTPException 503 ''Redis unavailable''))"

section \<open>The endpoints\<close>

record suspend_reply =
  sr_agent_id :: string
  sr_newly_suspended :: bool
  sr_reason :: string
  sr_suspended_at :: string

text \<open>\<open>req.suspended_at or datetime.now(...).isoformat()\<close>, and the two writes of the \<open>try\<close> block.\<close>

definition since :: "instant \<Rightarrow> string option \<Rightarrow> string" where
  "since now suspended_at =
     (case suspended_at of Some t \<Rightarrow> if t = [] then isoformat now else t | None \<Rightarrow> isoformat now)"

definition mark_suspended :: "'r redis \<Rightarrow> string \<Rightarrow> string \<Rightarrow> string \<Rightarrow> ('r identity_world, int \<times> string) comp" where
  "mark_suspended R agent reason suspended_at =
     seq (id_call (r_sadd R IDENTITY_SUSPENDED_KEY agent)) (\<lambda>added.
     seq (id_call (r_set R (reason_key agent) (suspended_at @ ''|'' @ reason))) (\<lambda>_.
     ret (added, suspended_at)))"

definition suspend_identity ::
  "'r redis \<Rightarrow> instant \<Rightarrow> string \<Rightarrow> string \<Rightarrow> string option \<Rightarrow> ('r identity_world, suspend_reply) comp" where
  "suspend_identity R now agent reason suspended_at =
     seq (unavailable (mark_suspended R agent reason (since now suspended_at)))
     (\<lambda>(added, at) w.
        (Inr \<lparr>sr_agent_id = agent, sr_newly_suspended = (added \<noteq> 0), sr_reason = reason, sr_suspended_at = at\<rparr>,
         if added \<noteq> 0 then w\<lparr>iw_suspensions_total := iw_suspensions_total w + 1\<rparr> else w))"

definition unsuspend_identity :: "'r redis \<Rightarrow> string \<Rightarrow> ('r identity_world, unit) comp" where
  "unsuspend_identity R agent =
     seq (unavailable
       (seq (id_call (r_srem R IDENTITY_SUSPENDED_KEY agent)) (\<lambda>removed.
        seq (id_call (r_delete R (reason_key agent))) (\<lambda>_.
        ret removed))))
     (\<lambda>removed.
        if removed = 0 then throw (HTTPException 404 (agent @ '' was not suspended''))
        else (\<lambda>w. (Inr (), w\<lparr>iw_unsuspensions_total := iw_unsuspensions_total w + 1\<rparr>)))"

record status_reply =
  st_agent_id :: string
  st_status :: string
  st_reason :: "string option"

definition identity_status :: "'r redis \<Rightarrow> string \<Rightarrow> ('r identity_world, status_reply) comp" where
  "identity_status R agent =
     seq (unavailable
       (seq (id_call (r_sismember R IDENTITY_SUSPENDED_KEY agent)) (\<lambda>is_suspended.
        if is_suspended
        then seq (id_call (r_get R (reason_key agent))) (\<lambda>blob. ret (True, blob))
        else ret (False, None))))
     (\<lambda>(is_suspended, blob). ret
        \<lparr>st_agent_id = agent, st_status = (if is_suspended then ''SUSPENDED'' else ''ACTIVE''), st_reason = blob\<rparr>)"

definition list_suspended :: "'r redis \<Rightarrow> ('r identity_world, nat \<times> string list) comp" where
  "list_suspended R =
     seq (unavailable (seq (id_call (r_smembers R IDENTITY_SUSPENDED_KEY)) (\<lambda>ms. ret (sort ms))))
     (\<lambda>members. ret (length members, members))"

definition identity_metrics :: "'r redis \<Rightarrow> ('r identity_world, string) comp" where
  "identity_metrics R =
     seq (try_except (id_call (r_scard R IDENTITY_SUSPENDED_KEY)) (\<lambda>_. ret 0))
     (\<lambda>current_count w.
        (Inr (str_join [CHR 0x0A]
          [''# HELP nhi_suspensions_total Total identity suspension events'',
           ''# TYPE nhi_suspensions_total counter'',
           ''nhi_suspensions_total '' @ str_int (iw_suspensions_total w),
           ''# HELP nhi_unsuspensions_total Total identity reinstatement events'',
           ''# TYPE nhi_unsuspensions_total counter'',
           ''nhi_unsuspensions_total '' @ str_int (iw_unsuspensions_total w),
           ''# HELP nhi_identities_suspended_current Currently suspended identities'',
           ''# TYPE nhi_identities_suspended_current gauge'',
           ''nhi_identities_suspended_current '' @ str_int current_count] @ [CHR 0x0A]), w))"

section \<open>The registry\<close>

definition suspended_ids :: "rview \<Rightarrow> string set" where
  "suspended_ids V = set_at V IDENTITY_SUSPENDED_KEY"

lemma reason_key_other [simp]:
  "reason_key a \<noteq> IDENTITY_SUSPENDED_KEY" "IDENTITY_SUSPENDED_KEY \<noteq> reason_key a"
  "reason_key a = reason_key b \<longleftrightarrow> a = b"
  by (simp_all add: reason_key_def REASON_KEY_PREFIX_def IDENTITY_SUSPENDED_KEY_def)

lemma suspended_ids_simps [simp]:
  "suspended_ids (put_str (reason_key a) v t V) = suspended_ids V"
  "suspended_ids (drop_key (reason_key a) V) = suspended_ids V"
  "suspended_ids (put_set IDENTITY_SUSPENDED_KEY S V) = S"
  by (simp_all add: suspended_ids_def)

lemma id_call_run: "id_call m w = (x, w') \<longleftrightarrow> (\<exists>s. redis_call m (iw_server w) = (x, s) \<and> w' = w\<lparr>iw_server := s\<rparr>)"
  by (auto simp: id_call_def split: prod.splits)

definition did :: "(exn + 'a) \<times> 's \<Rightarrow> bool \<times> 's" where
  "did p = (case fst p of Inr _ \<Rightarrow> True | Inl (HTTPException c _) \<Rightarrow> c = 404 | Inl _ \<Rightarrow> False, snd p)"

lemma unavailable_cases:
  assumes "unavailable m w = (x, w')"
  obtains (ok) y where "m w = (Inr y, w')" "x = Inr y"
  | (failed) e where "m w = (Inl e, w')" "x = Inl (HTTPException 503 ''Redis unavailable'')"
  using assms by (auto simp: unavailable_def try_except_def split: prod.splits sum.splits)

context redis_service
begin

lemma suspend_body:
  assumes "mark_suspended R agent reason t w = (x, w')"
  shows "iw_suspensions_total w' = iw_suspensions_total w"
    and "iw_unsuspensions_total w' = iw_unsuspensions_total w"
    and "x = Inr (n, at) \<Longrightarrow> at = t \<and> n = (if agent \<in> suspended_ids (view (iw_server w)) then 0 else 1) \<and>
      suspended_ids (view (iw_server w')) = insert agent (suspended_ids (view (iw_server w))) \<and>
      str_at (view (iw_server w')) (reason_key agent) = Some (at @ ''|'' @ reason)"
    and "suspended_ids (view (iw_server w')) = suspended_ids (view (iw_server w)) \<or>
      suspended_ids (view (iw_server w')) = insert agent (suspended_ids (view (iw_server w)))"
proof -
  obtain y s where add: "r_sadd R IDENTITY_SUSPENDED_KEY agent (iw_server w) = (y, s)" by fastforce
  obtain z s2 where set: "r_set R (reason_key agent) (t @ ''|'' @ reason) s = (z, s2)" by fastforce
  note unf = mark_suspended_def seq_def id_call_def redis_call_def
  have w': "w' = w\<lparr>iw_server := (case y of Inl _ \<Rightarrow> s | Inr _ \<Rightarrow> s2)\<rparr>"
    using assms add set by (auto simp: unf split: sum.splits)
  then show "iw_suspensions_total w' = iw_suspensions_total w"
    "iw_unsuspensions_total w' = iw_unsuspensions_total w" by simp_all
  have ids: "suspended_ids (view s2) = suspended_ids (view s)"
    using set set_ok [of "reason_key agent" "t @ ''|'' @ reason" s _ s2]
      set_fail [of "reason_key agent" "t @ ''|'' @ reason" s _ s2]
    by (cases z) fastforce+
  have s: "suspended_ids (view s) = suspended_ids (view (iw_server w)) \<or>
      suspended_ids (view s) = insert agent (suspended_ids (view (iw_server w)))"
    using add sadd_ok [of IDENTITY_SUSPENDED_KEY agent "iw_server w" _ s]
      sadd_fail [of IDENTITY_SUSPENDED_KEY agent "iw_server w" _ s]
    by (cases y) (fastforce simp: suspended_ids_def)+
  show "suspended_ids (view (iw_server w')) = suspended_ids (view (iw_server w)) \<or>
      suspended_ids (view (iw_server w')) = insert agent (suspended_ids (view (iw_server w)))"
    using s ids w' by (cases y) simp_all
  assume x: "x = Inr (n, at)"
  then have y: "y = Inr n" and z: "z = Inr ()" and at: "at = t"
    using assms add set by (auto simp: unf split: sum.splits)
  have "suspended_ids (view s) = insert agent (suspended_ids (view (iw_server w)))"
    "n = (if agent \<in> suspended_ids (view (iw_server w)) then 0 else 1)"
    using sadd_ok [OF add [unfolded y]] by (simp_all add: suspended_ids_def)
  moreover have "str_at (view s2) (reason_key agent) = Some (t @ ''|'' @ reason)"
    using set_ok [OF set [unfolded z]] by simp
  ultimately show "at = t \<and> n = (if agent \<in> suspended_ids (view (iw_server w)) then 0 else 1) \<and>
      suspended_ids (view (iw_server w')) = insert agent (suspended_ids (view (iw_server w))) \<and>
      str_at (view (iw_server w')) (reason_key agent) = Some (at @ ''|'' @ reason)"
    using at ids w' y by simp
qed

lemma suspend_returned:
  assumes "suspend_identity R now agent reason at w = (Inr r, w')"
  shows "suspended_ids (view (iw_server w')) = insert agent (suspended_ids (view (iw_server w)))"
    and "sr_newly_suspended r \<longleftrightarrow> agent \<notin> suspended_ids (view (iw_server w))"
    and "str_at (view (iw_server w')) (reason_key agent) = Some (sr_suspended_at r @ ''|'' @ reason)"
    and "iw_suspensions_total w' = iw_suspensions_total w + (if sr_newly_suspended r then 1 else 0)"
    and "iw_unsuspensions_total w' = iw_unsuspensions_total w"
proof -
  obtain added t w1 where run: "unavailable (mark_suspended R agent reason (since now at)) w = (Inr (added, t), w1)"
    and r: "r = \<lparr>sr_agent_id = agent, sr_newly_suspended = (added \<noteq> 0), sr_reason = reason, sr_suspended_at = t\<rparr>"
    and w': "w' = (if added \<noteq> 0 then w1\<lparr>iw_suspensions_total := iw_suspensions_total w1 + 1\<rparr> else w1)"
    using assms unfolding suspend_identity_def by (auto elim!: seq_returns)
  from run have b: "(mark_suspended R agent reason (since now at)) w = (Inr (added, t), w1)" by (rule unavailable_cases) auto
  note facts = suspend_body(1,2) [OF b] suspend_body(3) [OF b refl]
  then show "suspended_ids (view (iw_server w')) = insert agent (suspended_ids (view (iw_server w)))"
    "sr_newly_suspended r \<longleftrightarrow> agent \<notin> suspended_ids (view (iw_server w))"
    "str_at (view (iw_server w')) (reason_key agent) = Some (sr_suspended_at r @ ''|'' @ reason)"
    "iw_suspensions_total w' = iw_suspensions_total w + (if sr_newly_suspended r then 1 else 0)"
    "iw_unsuspensions_total w' = iw_unsuspensions_total w"
    by (simp_all add: r w')
qed

lemma suspend_raised:
  assumes "suspend_identity R now agent reason at w = (Inl e, w')"
  shows "e = HTTPException 503 ''Redis unavailable''"
    and "suspended_ids (view (iw_server w')) = suspended_ids (view (iw_server w)) \<or>
      suspended_ids (view (iw_server w')) = insert agent (suspended_ids (view (iw_server w)))"
    and "iw_suspensions_total w' = iw_suspensions_total w"
    and "iw_unsuspensions_total w' = iw_unsuspensions_total w"
proof -
  have run: "unavailable (mark_suspended R agent reason (since now at)) w = (Inl e, w')"
    using assms unfolding suspend_identity_def by (rule seq_cases) (auto split: prod.splits)
  then obtain e' where b: "(mark_suspended R agent reason (since now at)) w = (Inl e', w')" and e: "e = HTTPException 503 ''Redis unavailable''"
    by (rule unavailable_cases) auto
  show "e = HTTPException 503 ''Redis unavailable''" by (rule e)
  show "suspended_ids (view (iw_server w')) = suspended_ids (view (iw_server w)) \<or>
      suspended_ids (view (iw_server w')) = insert agent (suspended_ids (view (iw_server w)))"
    "iw_suspensions_total w' = iw_suspensions_total w"
    "iw_unsuspensions_total w' = iw_unsuspensions_total w"
    using suspend_body(4,1,2) [OF b] by simp_all
qed

end

context redis_service
begin

lemma unsuspend_body:
  assumes "seq (id_call (r_srem R IDENTITY_SUSPENDED_KEY agent)) (\<lambda>removed.
        seq (id_call (r_delete R (reason_key agent))) (\<lambda>_. ret removed)) w = (x, w')"
  shows "iw_suspensions_total w' = iw_suspensions_total w"
    and "iw_unsuspensions_total w' = iw_unsuspensions_total w"
    and "x = Inr n \<Longrightarrow> n = (if agent \<in> suspended_ids (view (iw_server w)) then 1 else 0) \<and>
      suspended_ids (view (iw_server w')) = suspended_ids (view (iw_server w)) - {agent} \<and>
      str_at (view (iw_server w')) (reason_key agent) = None"
    and "suspended_ids (view (iw_server w')) = suspended_ids (view (iw_server w)) \<or>
      suspended_ids (view (iw_server w')) = suspended_ids (view (iw_server w)) - {agent}"
proof -
  obtain y s where rem: "r_srem R IDENTITY_SUSPENDED_KEY agent (iw_server w) = (y, s)" by fastforce
  obtain z s2 where del: "r_delete R (reason_key agent) s = (z, s2)" by fastforce
  note unf = seq_def id_call_def redis_call_def
  have w': "w' = w\<lparr>iw_server := (case y of Inl _ \<Rightarrow> s | Inr _ \<Rightarrow> s2)\<rparr>"
    using assms rem del by (auto simp: unf split: sum.splits)
  then show "iw_suspensions_total w' = iw_suspensions_total w"
    "iw_unsuspensions_total w' = iw_unsuspensions_total w" by simp_all
  have ids: "suspended_ids (view s2) = suspended_ids (view s)"
    using del delete_ok [of "reason_key agent" s _ s2] delete_fail [of "reason_key agent" s _ s2]
    by (cases z) fastforce+
  have s: "suspended_ids (view s) = suspended_ids (view (iw_server w)) \<or>
      suspended_ids (view s) = suspended_ids (view (iw_server w)) - {agent}"
    using rem srem_ok [of IDENTITY_SUSPENDED_KEY agent "iw_server w" _ s]
      srem_fail [of IDENTITY_SUSPENDED_KEY agent "iw_server w" _ s]
    by (cases y) (fastforce simp: suspended_ids_def)+
  show "suspended_ids (view (iw_server w')) = suspended_ids (view (iw_server w)) \<or>
      suspended_ids (view (iw_server w')) = suspended_ids (view (iw_server w)) - {agent}"
    using s ids w' by (cases y) simp_all
  assume x: "x = Inr n"
  then obtain m where y: "y = Inr n" and z: "z = Inr m"
    using assms rem del by (auto simp: unf split: sum.splits)
  have "suspended_ids (view s) = suspended_ids (view (iw_server w)) - {agent}"
    "n = (if agent \<in> suspended_ids (view (iw_server w)) then 1 else 0)"
    using srem_ok [OF rem [unfolded y]] by (simp_all add: suspended_ids_def)
  moreover have "str_at (view s2) (reason_key agent) = None"
    using delete_ok [OF del [unfolded z]] by simp
  ultimately show "n = (if agent \<in> suspended_ids (view (iw_server w)) then 1 else 0) \<and>
      suspended_ids (view (iw_server w')) = suspended_ids (view (iw_server w)) - {agent} \<and>
      str_at (view (iw_server w')) (reason_key agent) = None"
    using ids w' y by simp
qed

lemma unsuspend_cases:
  assumes "unsuspend_identity R agent w = (x, w')"
  obtains (reinstated) "x = Inr ()" "agent \<in> suspended_ids (view (iw_server w))"
      "suspended_ids (view (iw_server w')) = suspended_ids (view (iw_server w)) - {agent}"
      "str_at (view (iw_server w')) (reason_key agent) = None"
      "iw_unsuspensions_total w' = iw_unsuspensions_total w + 1"
      "iw_suspensions_total w' = iw_suspensions_total w"
  | (unknown) "x = Inl (HTTPException 404 (agent @ '' was not suspended''))"
      "agent \<notin> suspended_ids (view (iw_server w))"
      "suspended_ids (view (iw_server w')) = suspended_ids (view (iw_server w))"
      "iw_unsuspensions_total w' = iw_unsuspensions_total w"
      "iw_suspensions_total w' = iw_suspensions_total w"
  | (failed) "x = Inl (HTTPException 503 ''Redis unavailable'')"
      "suspended_ids (view (iw_server w')) = suspended_ids (view (iw_server w)) \<or>
       suspended_ids (view (iw_server w')) = suspended_ids (view (iw_server w)) - {agent}"
      "iw_unsuspensions_total w' = iw_unsuspensions_total w"
      "iw_suspensions_total w' = iw_suspensions_total w"
  using assms unfolding unsuspend_identity_def
proof (cases rule: seq_cases)
  case (raises e)
  from raises(1) show thesis
  proof (cases rule: unavailable_cases)
    case (failed e')
    with raises(2) unsuspend_body(1,2,4) [OF failed(1)] show thesis by (intro that(3)) simp_all
  qed simp
next
  case (runs removed w1)
  from runs(1) show thesis
  proof (cases rule: unavailable_cases)
    case (ok y)
    then have b: "seq (id_call (r_srem R IDENTITY_SUSPENDED_KEY agent)) (\<lambda>removed.
        seq (id_call (r_delete R (reason_key agent))) (\<lambda>_. ret removed)) w = (Inr removed, w1)" by simp
    note f = unsuspend_body(1,2) [OF b] unsuspend_body(3) [OF b refl]
    show thesis
    proof (cases "removed = 0")
      case True
      with runs(2) have "x = Inl (HTTPException 404 (agent @ '' was not suspended''))" "w' = w1" by simp_all
      with f True show thesis by (intro that(2)) (auto split: if_splits)
    next
      case False
      with runs(2) have "x = Inr ()" "w' = w1\<lparr>iw_unsuspensions_total := iw_unsuspensions_total w1 + 1\<rparr>"
        by simp_all
      with f False show thesis by (intro that(1)) (auto split: if_splits)
    qed
  qed simp
qed

end

text \<open>Every Redis that meets its contract makes the two endpoints a suspension registry.\<close>

sublocale redis_service \<subseteq> registry: suspension_registry
  "\<lambda>a w. did (suspend_identity R now a reason at w)" "\<lambda>a w. did (unsuspend_identity R a w)"
  "\<lambda>w. suspended_ids (view (iw_server w))" for now reason at
proof (unfold_locales, goal_cases)
  case (1 a s s')
  then obtain r where "suspend_identity R now a reason at s = (Inr r, s')"
    using suspend_raised(1) [of now a reason at s]
    by (cases "suspend_identity R now a reason at s"; cases "fst (suspend_identity R now a reason at s)")
      (auto simp: did_def)
  then show ?case by (rule suspend_returned(1))
next
  case (2 a s s')
  then obtain e where "suspend_identity R now a reason at s = (Inl e, s')"
    by (cases "suspend_identity R now a reason at s"; cases "fst (suspend_identity R now a reason at s)")
      (auto simp: did_def)
  then show ?case by (rule suspend_raised(2))
next
  case (3 a s s')
  obtain x where run: "unsuspend_identity R a s = (x, s')" using 3 by (auto simp: did_def)
      (metis prod.collapse)
  have d: "did (x, s') = (True, s')" using 3 unfolding run by simp
  from run show ?case by (cases rule: unsuspend_cases) (use d in \<open>auto simp: did_def\<close>)
next
  case (4 a s s')
  obtain x where run: "unsuspend_identity R a s = (x, s')" using 4 by (auto simp: did_def)
      (metis prod.collapse)
  then show ?case by (cases rule: unsuspend_cases) auto
qed

end
