(* ===== verification/Identity_Properties.thy ===== *)
theory Identity_Properties
  imports Identity_Api
begin

text \<open>The properties of the identity API, with witnesses on the server in memory.\<close>

definition demo_identity :: "mem identity_world" where
  "demo_identity = \<lparr>iw_server = Map.empty, iw_suspensions_total = 0, iw_unsuspensions_total = 0\<rparr>"

context redis_service
begin

lemma sadd_no_str: "r_sadd R k m s = (Inr n, s') \<Longrightarrow> no_str (view s') k"
  using sadd_ok by (simp add: no_str_def)

lemma suspend_reliable:
  assumes rel: "redis_reliable R view" and key: "no_str (view (iw_server w)) IDENTITY_SUSPENDED_KEY"
  shows "\<exists>r w'. suspend_identity R now agent reason at w = (Inr r, w')"
proof -
  obtain n s where s: "r_sadd R IDENTITY_SUSPENDED_KEY agent (iw_server w) = (Inr n, s)"
    using reliable_calls(6) [OF rel key] by blast
  obtain s2 where s2: "r_set R (reason_key agent) (since now at @ ''|'' @ reason) s = (Inr (), s2)"
    using reliable_calls(3) [OF rel] by blast
  show ?thesis
    using s s2 by (simp add: suspend_identity_def mark_suspended_def unavailable_def try_except_def
        seq_def id_call_def redis_call_def)
qed

lemma unsuspend_reliable:
  assumes rel: "redis_reliable R view" and key: "no_str (view (iw_server w)) IDENTITY_SUSPENDED_KEY"
  shows "\<exists>x w'. unsuspend_identity R agent w = (x, w') \<and> x \<noteq> Inl (HTTPException 503 ''Redis unavailable'')"
proof -
  obtain n s where s: "r_srem R IDENTITY_SUSPENDED_KEY agent (iw_server w) = (Inr n, s)"
    using reliable_calls(7) [OF rel key] by blast
  obtain m s2 where s2: "r_delete R (reason_key agent) s = (Inr m, s2)"
    using reliable_calls(5) [OF rel] by blast
  show ?thesis
    using s s2 by (simp add: unsuspend_identity_def unavailable_def try_except_def
        seq_def id_call_def redis_call_def)
qed

end

section \<open>Suspending and reinstating\<close>

text \<open>
  Further: A suspension that is answered puts the identity, and nothing else, into the suspension set,
  stores its time and reason, says "newly suspended" exactly when it was not there before, and
  counts exactly those; a suspension that fails answers 503, counts nothing and leaves the set with
  or without the identity.
\<close>

theorem suspend_outcomes:
  assumes svc: "redis_service R view el" and run: "suspend_identity R now agent reason at w = (x, w')"
  shows "case x of
      Inr r \<Rightarrow> suspended_ids (view (iw_server w')) = insert agent (suspended_ids (view (iw_server w))) \<and>
        (sr_newly_suspended r \<longleftrightarrow> agent \<notin> suspended_ids (view (iw_server w))) \<and>
        str_at (view (iw_server w')) (reason_key agent) = Some (sr_suspended_at r @ ''|'' @ reason) \<and>
        iw_suspensions_total w' = iw_suspensions_total w + (if sr_newly_suspended r then 1 else 0)
    | Inl e \<Rightarrow> e = HTTPException 503 ''Redis unavailable'' \<and> iw_suspensions_total w' = iw_suspensions_total w \<and>
        suspended_ids (view (iw_server w')) \<in>
          {suspended_ids (view (iw_server w)), insert agent (suspended_ids (view (iw_server w)))}"
proof (cases x)
  case (Inl e)
  with run show ?thesis using redis_service.suspend_raised [OF svc] by fastforce
next
  case (Inr r)
  with run show ?thesis using redis_service.suspend_returned [OF svc] by fastforce
qed

theorem suspend_outcomes_witness:
  "\<exists>r w'. suspend_identity mem_redis 0 ''agent-infra-001'' ''burst'' None demo_identity = (Inr r, w') \<and>
     suspended_ids (mem_view (iw_server w')) = {''agent-infra-001''} \<and> sr_newly_suspended r \<and>
     iw_suspensions_total w' = 1"
proof -
  have k: "no_str (mem_view (iw_server demo_identity)) IDENTITY_SUSPENDED_KEY"
    by (simp add: demo_identity_def no_str_def str_at_mem)
  obtain r w' where run: "suspend_identity mem_redis 0 ''agent-infra-001'' ''burst'' None demo_identity = (Inr r, w')"
    using mem.suspend_reliable [OF mem_reliable k, of 0 "''agent-infra-001''" "''burst''" None]
    by (elim exE)
  have e: "suspended_ids (mem_view (iw_server demo_identity)) = {}" "iw_suspensions_total demo_identity = 0"
    by (simp_all add: demo_identity_def suspended_ids_def set_at_mem)
  from suspend_outcomes [OF mem.redis_service_axioms run] run show ?thesis unfolding e by simp
qed

text \<open>
  Further: Reinstating an identity that was suspended removes it, and only it, from the set, deletes its
  reason and counts it; one that was not suspended is answered 404 without a count; on a server
  that answers there is no other outcome.
\<close>

theorem unsuspend_outcomes:
  assumes svc: "redis_service R view el" and rel: "redis_reliable R view"
    and key: "no_str (view (iw_server w)) IDENTITY_SUSPENDED_KEY"
  shows "\<exists>w'. unsuspend_identity R agent w =
      (if agent \<in> suspended_ids (view (iw_server w)) then Inr ()
       else Inl (HTTPException 404 (agent @ '' was not suspended'')), w') \<and>
     suspended_ids (view (iw_server w')) = suspended_ids (view (iw_server w)) - {agent} \<and>
     (agent \<in> suspended_ids (view (iw_server w)) \<longrightarrow> str_at (view (iw_server w')) (reason_key agent) = None) \<and>
     iw_unsuspensions_total w' =
       iw_unsuspensions_total w + (if agent \<in> suspended_ids (view (iw_server w)) then 1 else 0)"
proof -
  obtain x w' where run: "unsuspend_identity R agent w = (x, w')"
    and x: "x \<noteq> Inl (HTTPException 503 ''Redis unavailable'')"
    using redis_service.unsuspend_reliable [OF svc rel key] by blast
  show ?thesis
  proof (cases rule: redis_service.unsuspend_cases [OF svc run, case_names reinstated unknown failed])
    case reinstated
    with run show ?thesis by (intro exI [of _ w']) simp
  next
    case unknown
    with run show ?thesis by (intro exI [of _ w']) simp
  qed (use x in simp)
qed

theorem unsuspend_outcomes_witness:
  "\<exists>w'. unsuspend_identity mem_redis ''agent-infra-001'' demo_identity
     = (Inl (HTTPException 404 ''agent-infra-001 was not suspended''), w')"
proof -
  have k: "no_str (mem_view (iw_server demo_identity)) IDENTITY_SUSPENDED_KEY"
    by (simp add: demo_identity_def no_str_def str_at_mem)
  have e: "''agent-infra-001'' \<notin> suspended_ids (mem_view (iw_server demo_identity))"
    by (simp add: demo_identity_def suspended_ids_def set_at_mem)
  from unsuspend_outcomes [where view = mem_view, OF mem.redis_service_axioms mem_reliable k,
      of "''agent-infra-001''"] e
  show ?thesis by (elim exE) simp
qed

section \<open>A sequence of operations\<close>

text \<open>
  The abstract registry: a set of identities and the numbers of identities that entered and left
  it. Each endpoint call that is answered is one step of it.
\<close>

datatype registry_op = Suspend string string | Unsuspend string

record registry =
  rg_suspended :: "string set"
  rg_entered :: int
  rg_left :: int

fun registry_step :: "registry_op \<Rightarrow> registry \<Rightarrow> registry" where
  "registry_step (Suspend a _) g = g\<lparr>rg_suspended := insert a (rg_suspended g),
     rg_entered := rg_entered g + (if a \<in> rg_suspended g then 0 else 1)\<rparr>"
| "registry_step (Unsuspend a) g = g\<lparr>rg_suspended := rg_suspended g - {a},
     rg_left := rg_left g + (if a \<in> rg_suspended g then 1 else 0)\<rparr>"

definition registry_of :: "('r \<Rightarrow> rview) \<Rightarrow> 'r identity_world \<Rightarrow> registry" where
  "registry_of view w = \<lparr>rg_suspended = suspended_ids (view (iw_server w)),
     rg_entered = iw_suspensions_total w, rg_left = iw_unsuspensions_total w\<rparr>"

text \<open>The endpoint called, its reply dropped; whether it was answered (200 or 404).\<close>

fun run_op :: "'r redis \<Rightarrow> instant \<Rightarrow> registry_op \<Rightarrow> 'r identity_world \<Rightarrow> bool \<times> 'r identity_world" where
  "run_op R now (Suspend a reason) w = did (suspend_identity R now a reason None w)"
| "run_op R now (Unsuspend a) w = did (unsuspend_identity R a w)"

fun run_ops :: "'r redis \<Rightarrow> instant \<Rightarrow> registry_op list \<Rightarrow> 'r identity_world \<Rightarrow> bool \<times> 'r identity_world" where
  "run_ops R now [] w = (True, w)"
| "run_ops R now (op # ops) w = (case run_op R now op w of
     (True, w') \<Rightarrow> run_ops R now ops w' | (False, w') \<Rightarrow> (False, w'))"

context redis_service
begin

lemma run_op_step:
  assumes "run_op R now op w = (True, w')"
  shows "registry_of view w' = registry_step op (registry_of view w)"
proof (cases op)
  case (Suspend a reason)
  obtain x where run: "suspend_identity R now a reason None w = (x, w')"
    using assms Suspend by (auto simp: did_def) (metis prod.collapse)
  then have "did (x, w') = (True, w')" using assms Suspend by simp
  then obtain r where "x = Inr r"
    using suspend_raised(1) [of now a reason None w] run by (cases x) (auto simp: did_def)
  with run Suspend show ?thesis
    using suspend_returned [of now a reason None w r w'] by (simp add: registry_of_def)
next
  case (Unsuspend a)
  obtain x where run: "unsuspend_identity R a w = (x, w')"
    using assms Unsuspend by (auto simp: did_def) (metis prod.collapse)
  have d: "did (x, w') = (True, w')" using assms Unsuspend run by simp
  show ?thesis
    by (cases rule: unsuspend_cases [OF run]) (use d Unsuspend in \<open>auto simp: registry_of_def did_def\<close>)
qed

lemma run_ops_fold:
  "run_ops R now ops w = (True, w') \<Longrightarrow> registry_of view w' = fold registry_step ops (registry_of view w)"
proof (induction ops arbitrary: w)
  case Nil
  then show ?case by simp
next
  case (Cons op ops)
  obtain w1 where "run_op R now op w = (True, w1)" "run_ops R now ops w1 = (True, w')"
    using Cons.prems by (auto split: prod.splits bool.splits)
  with Cons.IH run_op_step show ?case by simp
qed

end

text \<open>
  C32: The API refines the abstract registry: after any sequence of suspend and unsuspend calls that
  were all answered, the set in Redis and the two counters of the process are those of the abstract
  registry after the same operations.
\<close>

theorem identity_api_refines_registry:
  assumes svc: "redis_service R view el" and run: "run_ops R now ops w = (True, w')"
  shows "registry_of view w' = fold registry_step ops (registry_of view w)"
  by (rule redis_service.run_ops_fold [OF svc run])

theorem identity_api_refines_registry_witness:
  "\<exists>w'. run_ops mem_redis 0 [Suspend ''a'' ''x'', Suspend ''a'' ''y'', Unsuspend ''b''] demo_identity = (True, w') \<and>
     registry_of mem_view w' = \<lparr>rg_suspended = {''a''}, rg_entered = 1, rg_left = 0\<rparr>"
proof -
  let ?ops = "[Suspend ''a'' ''x'', Suspend ''a'' ''y'', Unsuspend ''b'']"
  have "fst (run_ops mem_redis 0 ?ops demo_identity) = True" by code_simp
  from run_is [OF this] obtain w' where run: "run_ops mem_redis 0 ?ops demo_identity = (True, w')" by (rule exE)
  have "registry_of mem_view demo_identity = \<lparr>rg_suspended = {}, rg_entered = 0, rg_left = 0\<rparr>"
    by (simp add: registry_of_def demo_identity_def suspended_ids_def set_at_mem)
  with identity_api_refines_registry [OF mem.redis_service_axioms run] have
    "registry_of mem_view w' = \<lparr>rg_suspended = {''a''}, rg_entered = 1, rg_left = 0\<rparr>" by simp
  with run show ?thesis by blast
qed

section \<open>Reading the registry\<close>

text \<open>
  Further: On a server that answers, the status of an identity is SUSPENDED with its stored reason
  exactly when it is in the set, and the list of suspended identities is sorted, without
  duplicates, complete, and counted; neither changes a key.
\<close>

theorem registry_reads:
  assumes svc: "redis_service R view el" and rel: "redis_reliable R view"
    and keys: "no_str (view (iw_server w)) IDENTITY_SUSPENDED_KEY" "no_set (view (iw_server w)) (reason_key agent)"
  shows "\<exists>w1 w2 ms. identity_status R agent w = (Inr (if agent \<in> suspended_ids (view (iw_server w))
        then \<lparr>st_agent_id = agent, st_status = ''SUSPENDED'', st_reason = str_at (view (iw_server w)) (reason_key agent)\<rparr>
        else \<lparr>st_agent_id = agent, st_status = ''ACTIVE'', st_reason = None\<rparr>), w1) \<and>
     view (iw_server w1) = view (iw_server w) \<and>
     list_suspended R w = (Inr (card (suspended_ids (view (iw_server w))), ms), w2) \<and>
     view (iw_server w2) = view (iw_server w) \<and>
     sorted ms \<and> distinct ms \<and> set ms = suspended_ids (view (iw_server w))"
proof -
  obtain b s where b: "r_sismember R IDENTITY_SUSPENDED_KEY agent (iw_server w) = (Inr b, s)"
    using reliable_calls(8) [OF rel keys(1)] by blast
  have s: "view s = view (iw_server w)" "b \<longleftrightarrow> agent \<in> suspended_ids (view (iw_server w))"
    using redis_service.view_sismember [OF svc b] redis_service.sismember_val [OF svc b]
    by (simp_all add: suspended_ids_def)
  have "no_set (view s) (reason_key agent)" using keys(2) s(1) by simp
  then obtain v s2 where v: "r_get R (reason_key agent) s = (Inr v, s2)"
    using reliable_calls(2) [OF rel] by blast
  have s2: "view s2 = view (iw_server w)" "v = str_at (view (iw_server w)) (reason_key agent)"
    using redis_service.view_get [OF svc v] redis_service.get_val [OF svc v] s(1) by simp_all
  obtain l s3 where l: "r_smembers R IDENTITY_SUSPENDED_KEY (iw_server w) = (Inr l, s3)"
    using reliable_calls(9) [OF rel keys(1)] by blast
  have s3: "view s3 = view (iw_server w)" "distinct l" "set l = suspended_ids (view (iw_server w))"
    using redis_service.view_smembers [OF svc l] redis_service.smembers_val [OF svc l]
    by (simp_all add: suspended_ids_def)
  note unf = unavailable_def try_except_def seq_def id_call_def redis_call_def
  have "identity_status R agent w = (Inr (if agent \<in> suspended_ids (view (iw_server w))
        then \<lparr>st_agent_id = agent, st_status = ''SUSPENDED'', st_reason = str_at (view (iw_server w)) (reason_key agent)\<rparr>
        else \<lparr>st_agent_id = agent, st_status = ''ACTIVE'', st_reason = None\<rparr>),
      w\<lparr>iw_server := if b then s2 else s\<rparr>)"
    using b v s s2 by (simp add: identity_status_def unf)
  moreover have "list_suspended R w = (Inr (card (suspended_ids (view (iw_server w))), sort l), w\<lparr>iw_server := s3\<rparr>)"
    using l s3 by (simp add: list_suspended_def unf distinct_card [symmetric])
  ultimately show ?thesis using s s2 s3
    by (intro exI [of _ "w\<lparr>iw_server := if b then s2 else s\<rparr>"] exI [of _ "w\<lparr>iw_server := s3\<rparr>"] exI [of _ "sort l"])
      simp
qed

theorem registry_reads_witness:
  "\<exists>w1. identity_status mem_redis ''a'' (demo_identity\<lparr>iw_server := [IDENTITY_SUSPENDED_KEY \<mapsto> (MSet [''a''], None)]\<rparr>)
     = (Inr \<lparr>st_agent_id = ''a'', st_status = ''SUSPENDED'', st_reason = None\<rparr>, w1)"
proof -
  let ?w = "demo_identity\<lparr>iw_server := [IDENTITY_SUSPENDED_KEY \<mapsto> (MSet [''a''], None)] :: mem\<rparr>"
  have k: "no_str (mem_view (iw_server ?w)) IDENTITY_SUSPENDED_KEY" "no_set (mem_view (iw_server ?w)) (reason_key ''a'')"
    by (simp_all add: no_str_def no_set_def mem_at)
  have e: "suspended_ids (mem_view (iw_server ?w)) = {''a''}" "str_at (mem_view (iw_server ?w)) (reason_key ''a'') = None"
    by (simp_all add: suspended_ids_def mem_at)
  from registry_reads [where view = mem_view, OF mem.redis_service_axioms mem_reliable k] show ?thesis
    unfolding e by (elim exE conjE) simp
qed

end
