(* ===== verification/System_Composition.thy ===== *)
theory System_Composition
  imports Agent_Properties Anomaly_Properties Approval_Properties Identity_Properties
begin

text \<open>
  Facts that join the components: the suspension the anomaly service asks for, through the identity API
  and Redis, to the PEP of an agent; the events an agent publishes, to the detector and the query API;
  the approval entry the PEP writes, to the approval queue.
\<close>

section \<open>Suspension\<close>

text \<open>The request of \<open>_suspend_identity\<close>, answered by the identity API on the same Redis.\<close>

definition identity_post :: "'r redis \<Rightarrow> instant \<Rightarrow> string \<Rightarrow> ('r identity_world) post" where
  "identity_post R now suspended_at agent reason w = did (suspend_identity R now agent reason (Some suspended_at) w)"

lemma keys_agree: "IDENTITY_SUSPENDED_KEY = SUSPENDED_KEY"
  by (simp add: IDENTITY_SUSPENDED_KEY_def SUSPENDED_KEY_def)

lemma suspend_succeeds:
  assumes svc: "redis_service R view el" and rel: "redis_reliable R view"
    and key: "no_str (view (iw_server w)) IDENTITY_SUSPENDED_KEY"
  obtains r w' where "suspend_identity R now a reason t w = (Inr r, w')"
    "suspended_ids (view (iw_server w')) = insert a (suspended_ids (view (iw_server w)))"
    "no_str (view (iw_server w')) IDENTITY_SUSPENDED_KEY"
proof -
  obtain n s where add: "r_sadd R IDENTITY_SUSPENDED_KEY a (iw_server w) = (Inr n, s)"
    using reliable_calls(6) [OF rel key] by blast
  obtain s2 where set: "r_set R (reason_key a) (since now t @ ''|'' @ reason) s = (Inr (), s2)"
    using reliable_calls(3) [OF rel] by blast
  have "mark_suspended R a reason (since now t) w = (Inr (n, since now t), w\<lparr>iw_server := s2\<rparr>)"
    using add set by (simp add: mark_suspended_def seq_def id_call_def redis_call_def)
  then have "\<exists>r w'. suspend_identity R now a reason t w = (Inr r, w')"
    by (simp add: suspend_identity_def unavailable_def seq_def try_except_def)
  then obtain r w' where run: "suspend_identity R now a reason t w = (Inr r, w')" by (elim exE)
  from redis_service.suspend_returned(1) [OF svc run]
  have ids: "suspended_ids (view (iw_server w')) = insert a (suspended_ids (view (iw_server w)))" .
  then have "a \<in> set_at (view (iw_server w')) IDENTITY_SUSPENDED_KEY" unfolding suspended_ids_def by blast
  from that [OF run ids set_at_no_str [OF this]] show thesis .
qed

lemma ask_suspends:
  assumes svc: "redis_service R view el" and rel: "redis_reliable R view"
    and key: "no_str (view (iw_server w)) IDENTITY_SUSPENDED_KEY"
  shows "suspended_ids (view (iw_server (ask (identity_post R now t) calls w))) =
     fst ` set calls \<union> suspended_ids (view (iw_server w))"
  using key
proof (induction calls arbitrary: w)
  case Nil
  then show ?case by (simp add: ask_def)
next
  case (Cons c calls)
  obtain a reason where c: "c = (a, reason)" by fastforce
  obtain r w1 where run: "suspend_identity R now a reason (Some t) w = (Inr r, w1)"
    and ids: "suspended_ids (view (iw_server w1)) = insert a (suspended_ids (view (iw_server w)))"
    and key1: "no_str (view (iw_server w1)) IDENTITY_SUSPENDED_KEY"
    by (rule suspend_succeeds [OF svc rel Cons.prems])
  have "ask (identity_post R now t) (c # calls) w = ask (identity_post R now t) calls w1"
    by (simp add: ask_def c identity_post_def run did_def)
  with Cons.IH [OF key1] ids show ?case by (auto simp: c)
qed

lemma suspended_never_allowed:
  assumes svc: "redis_service (pp_redis P) view el" and rel: "redis_reliable (pp_redis P) view"
    and susp: "agent_id (pw_request w) \<in> set_at (view (pw_server w)) SUSPENDED_KEY"
  shows "enforce P w \<noteq> (Inr (), w')"
proof
  assume "enforce P w = (Inr (), w')"
  then obtain w1 where "check_suspension P w = (Inr (), w1)" by (cases rule: enforce_cases) simp_all
  moreover obtain w2 where "check_suspension P w = (Inl (PolicyDenialError (action (pw_request w))
      (''Identity '' @ agent_id (pw_request w) @ '' is suspended'') ''pep.identity_suspended''), w2)"
    by (rule check_suspension_reliable [OF svc rel set_at_no_str [OF susp]]) (use susp in simp)
  ultimately show False by simp
qed

lemma suspended_agent_run:
  fixes A :: "('r, 'k, 'h, 'c) base_agent"
  assumes svc: "redis_service (pp_redis (ba_pep A)) view el" and rel: "redis_reliable (pp_redis (ba_pep A)) view"
    and susp: "ba_agent_id A \<in> set_at (view (aw_server w)) SUSPENDED_KEY"
    and run: "run_agent A tool_key arn task env tags ctx w = (x, (st, w'))"
  shows "aw_cloud w' = aw_cloud w \<and> st_decision st \<noteq> Some ''ALLOW''"
proof (rule refused_agent_run [OF _ run])
  fix p and q :: action_request and w1 :: "('r, 'k, 'h, 'c) agent_world"
  assume "aw_server w1 = aw_server w" "agent_id q = ba_agent_id A"
  with susp have "agent_id (pw_request (pep_world_of w1 q)) \<in> set_at (view (pw_server (pep_world_of w1 q))) SUSPENDED_KEY"
    by (simp add: pep_world_of_def)
  then show "enforce (ba_pep A) (pep_world_of w1 q) \<noteq> (Inr (), p)" by (rule suspended_never_allowed [OF svc rel])
qed

section \<open>Events\<close>

text \<open>An upper-cased string has no lower-case ASCII letter, and every exception name of the PEP has an r.\<close>

lemma str_upper_no_lower: "CHR ''r'' \<notin> set (str_upper s)"
proof -
  have "char_upper c \<noteq> CHR ''r''" for c
  proof
    assume eq: "char_upper c = CHR ''r''"
    let ?n = "of_char c :: nat"
    show False
    proof (cases "97 \<le> ?n \<and> ?n \<le> 122")
      case True
      then have "of_char (char_upper c) = ?n - 32" by (auto simp: char_upper_def Let_def of_char_of intro!: mod_less)
      with eq have "?n - 32 = 114" by simp
      with True show False by linarith
    next
      case False
      then have "char_upper c = c" by (auto simp: char_upper_def Let_def)
      with eq False show False by simp
    qed
  qed
  from this [symmetric] show ?thesis by (auto simp: str_upper_def)
qed

lemma pep_errors_not_upper: "n \<in> set pep_errors \<Longrightarrow> n \<noteq> str_upper s"
proof -
  have "list_all (\<lambda>n. CHR ''r'' \<in> set n) pep_errors" by code_simp
  then show "n \<in> set pep_errors \<Longrightarrow> ?thesis" using str_upper_no_lower [of s] unfolding list_all_iff by blast
qed

section \<open>The decision of an available tool\<close>

lemma registry_key_plain: "registry_get (registry_init scopes) key = Inr spec \<Longrightarrow> CHR '':'' \<notin> set key"
proof -
  assume "registry_get (registry_init scopes) key = Inr spec"
  from bspec [OF catalog_actions [unfolded list_all_iff] registry_get_Inr(1) [OF this]] show ?thesis unfolding fst_conv by blast
qed

lemma plain_event_features:
  assumes "ae_decision e \<noteq> ''DENY''" and "CHR '':'' \<notin> set (ae_action e)"
  shows "extract_features e ! 1 = 0" and "extract_features e ! 4 = 1"
proof -
  have "dict_get SERVICE_ENCODING ''other'' = None" by code_simp
  moreover have "action_service (ae_action e) = ''other''" using assms(2) by (simp add: action_service_def)
  ultimately show "extract_features e ! 4 = 1" unfolding extract_features_def Let_def by (simp add: MAX_SERVICE_IDX_def)
  show "extract_features e ! 1 = 0" unfolding extract_features_def Let_def using assms(1) by simp
qed

lemma available_tool_decision:
  assumes registry: "registry_get (ba_registry A) tool_key = Inr spec"
    and run: "checked A (initial_state tool_key arn task env tags ctx, w) = (Inr (), (st2, w2))"
  shows "st_decision st2 = Some ''ALLOW'' \<or> (\<exists>n. st_decision st2 = Some n \<and> n \<in> set pep_errors)"
proof -
  let ?s0 = "initial_state tool_key arn task env tags ctx"
  obtain s1 where f: "node_fetch_token A (?s0, w) = (Inr (), s1)" and p: "node_policy_check A s1 = (Inr (), (st2, w2))"
    using checked_run [OF run] .
  obtain st1 w1 where s1: "s1 = (st1, w1)" by fastforce
  obtain c1 where "st1 = ?s0\<lparr>st_context := c1\<rparr>" using fetch_token_keeps(2) [OF f [unfolded s1]] by (elim exE)
  then have key: "st_tool_key st1 = tool_key" by (simp add: initial_state_def)
  from p [unfolded s1] show ?thesis
  proof (cases rule: policy_check_cases)
    case (unavailable e)
    with registry key show ?thesis by simp
  next
    case (refused spec q e x c)
    with enforce_name [OF refused(3)] show ?thesis by simp
  next
    case (permitted spec q x c)
    then show ?thesis by simp
  qed simp
qed

section \<open>The approval entry of the PEP\<close>

lemma check_ip_not_approval: "check_ip_binding w \<noteq> (Inl (ApprovalRequiredError a arn rid), w')"
proof
  assume run: "check_ip_binding w = (Inl (ApprovalRequiredError a arn rid), w')"
  have read: "x \<noteq> ApprovalRequiredError a arn rid"
    if "(if \<not> truthy v then Inr JNull else case v of JObj d \<Rightarrow> Inr (g d) | _ \<Rightarrow> Inl (AttributeError y)) = Inl x"
    for v x y and g :: "pydict \<Rightarrow> json"
    using that by (cases v) (auto split: if_splits)
  have nested: "x \<noteq> ApprovalRequiredError a arn rid" if "nested_ip q = Inl x" for q x
    using that unfolding nested_ip_def Let_def by (rule read)
  show False
  proof (cases "token_ip (pw_request w)")
    case (Inl x)
    with run have "x = ApprovalRequiredError a arn rid" by (simp add: check_ip_binding_def)
    moreover from Inl have "nested_ip (pw_request w) = Inl x"
      unfolding token_ip_def Let_def by (cases "truthy (get_or_none (token_claims (pw_request w)) ''source_ip'')") simp_all
    ultimately show False using nested by blast
  next
    case (Inr ip)
    with run show False unfolding check_ip_binding_def with_request_apply Inr sum.case
      by (cases "truthy ip \<and> ip \<noteq> JStr (source_ip (pw_request w))") auto
  qed
qed

lemma evaluate_not_approval: "evaluate P q \<noteq> Inl (ApprovalRequiredError a arn rid)"
  by (auto simp: evaluate_def result_of_body_def split: opa_reply.splits option.splits json.splits sum.splits)

lemma enforce_approval:
  assumes "enforce P w = (Inl (ApprovalRequiredError a arn rid), w')"
  shows "rid = pp_uuid P \<and> (\<exists>q d s. r_setex (pp_redis P) (''approval:'' @ rid) (pp_ttl P)
     (py_repr (approval_data P q d)) s = (Inr (), pw_server w'))"
  using assms
proof (cases rule: enforce_cases)
  case (ip e)
  with check_ip_not_approval [of w a arn rid w] show ?thesis by simp
next
  case (suspended e)
  with check_suspension_raises [OF suspended(2)] show ?thesis by auto
next
  case (decided w1 w2)
  let ?q = "pw_request w2"
  obtain d where d: "evaluate P ?q = Inr d" "act_on_decision P ?q d w2 = (Inl (ApprovalRequiredError a arn rid), w')"
    using decided(4) evaluate_not_approval [of P ?q a arn rid] by (cases "evaluate P ?q") auto
  have "pd_effect d = REQUIRE_APPROVAL"
    using d(2) by (cases "pd_effect d") (auto simp: act_on_decision_def Let_def split: if_splits)
  with d(2) have run: "seq (queue_approval P ?q d) (\<lambda>request_id. throw (ApprovalRequiredError (action ?q) (resource_arn ?q) request_id)) w2 =
      ((Inl (ApprovalRequiredError a arn rid) :: exn + unit), w')" by (simp add: act_on_decision_def)
  obtain x s where set: "r_setex (pp_redis P) (''approval:'' @ pp_uuid P) (pp_ttl P)
      (py_str (approval_data P ?q d)) (pw_server w2) = (x, s)" by fastforce
  have repr: "py_str (approval_data P ?q d) = py_repr (approval_data P ?q d)" by (simp add: py_str_def approval_data_def)
  show ?thesis
  proof (cases x)
    case (Inl m)
    with run set show ?thesis by (simp add: queue_approval_def on_server_def seq_def redis_call_def)
  next
    case (Inr u)
    with run set have "rid = pp_uuid P" "w' = w2\<lparr>pw_server := s\<rparr>"
      by (auto simp: queue_approval_def on_server_def seq_def redis_call_def)
    with set Inr show ?thesis unfolding repr by (intro conjI exI [of _ ?q] exI [of _ d] exI [of _ "pw_server w2"]) simp_all
  qed
qed

lemma approval_entry_not_json: "json_read (py_repr (approval_data P q d)) = None" "py_repr (approval_data P q d) \<noteq> []"
proof -
  have "repr_str ''request_id'' = CHR 0x27 # ''request_id'' @ [CHR 0x27]" by code_simp
  then have "\<exists>s. py_repr (approval_data P q d) = CHR 0x7B # CHR 0x27 # s"
    by (simp add: approval_data_def)
  then show "json_read (py_repr (approval_data P q d)) = None" "py_repr (approval_data P q d) \<noteq> []"
    using json_read_single_quote by (elim exE, simp only:, elim exE, simp)
qed

lemma unreadable_entry_resolve:
  assumes svc: "redis_service (q_redis Q) view el"
    and entry: "str_at (view s) (approval_key (rs_request_id res)) = Some t" "t \<noteq> []" "q_validate Q t = None"
    and run: "resolve Q now res s = (x, s')"
  shows "view s' = view s \<and> (x = Inl (ValidationError ''ApprovalRequest'') \<or> (\<exists>m. x = Inl (OtherError ''RedisError'' m)))"
proof -
  obtain v s1 where g: "r_get (q_redis Q) (approval_key (rs_request_id res)) s = (v, s1)" by fastforce
  have s1: "view s1 = view s" by (rule redis_service.view_get [OF svc g])
  show ?thesis
  proof (cases v)
    case (Inl m)
    with run g s1 show ?thesis by (auto simp: resolve_def resolve_read_def get_def seq_def redis_call_def)
  next
    case (Inr o1)
    then have "o1 = Some t" using redis_service.get_val [OF svc] g entry(1) by metis
    with run g s1 Inr entry(2,3) show ?thesis
      by (auto simp: resolve_def resolve_read_def get_def seq_def redis_call_def)
  qed
qed

end
