(* ===== verification/Identity_Provisioner.thy ===== *)
theory Identity_Provisioner
  imports Identity_Manifest
begin

text \<open>
  \<open>identity/vault_client.py\<close> and \<open>identity/provisioner.py\<close>: the key store, the Keycloak admin client and
  the provisioning flow. The HTTP servers, the clock, the key generator, the file reader and pydantic's
  scalars are parameters.
\<close>

section \<open>VaultClient\<close>

record vault_client =
  vc_base :: string
  vc_headers :: "(string \<times> string) list"
  vc_pki_mount :: string
  vc_secrets_mount :: string

definition vault_init :: "settings \<Rightarrow> vault_client" where
  "vault_init cfg = \<lparr>vc_base = cfg_vault_addr cfg, vc_headers = [(''X-Vault-Token'', cfg_vault_token cfg)],
     vc_pki_mount = cfg_vault_pki_mount cfg, vc_secrets_mount = cfg_vault_secrets_mount cfg\<rparr>"

definition vault_url :: "vault_client \<Rightarrow> string \<Rightarrow> string" where
  "vault_url V path = vc_base V @ ''/v1/'' @ path"

definition vault_request :: "vault_client \<Rightarrow> string \<Rightarrow> string \<Rightarrow> json \<Rightarrow> http_request" where
  "vault_request V verb path body = \<lparr>hq_method = verb, hq_url = vault_url V path,
     hq_headers = vc_headers V, hq_params = [], hq_body = body\<rparr>"

definition keypair_path :: "vault_client \<Rightarrow> string \<Rightarrow> string" where
  "keypair_path V agent = vc_secrets_mount V @ ''/data/agents/'' @ agent @ ''/keypair''"

definition keypair_put :: "vault_client \<Rightarrow> string \<Rightarrow> string \<Rightarrow> string \<Rightarrow> http_request" where
  "keypair_put V agent private_pem public_pem = vault_request V ''PUT'' (keypair_path V agent)
     (JObj [(''data'', JObj [(''private_key'', JStr private_pem), (''public_key'', JStr public_pem)])])"

definition write_agent_keypair ::
  "'h http \<Rightarrow> vault_client \<Rightarrow> string \<Rightarrow> string \<Rightarrow> string \<Rightarrow> ('h, unit) comp" where
  "write_agent_keypair http V agent private_pem public_pem =
     seq (http_call http (keypair_put V agent private_pem public_pem)) raise_for_status"

definition read_agent_key :: "string \<Rightarrow> 'h http \<Rightarrow> vault_client \<Rightarrow> string \<Rightarrow> ('h, json) comp" where
  "read_agent_key field http V agent =
     seq (http_call http (vault_request V ''GET'' (keypair_path V agent) JNull)) (\<lambda>resp.
     seq (raise_for_status resp) (\<lambda>_.
     seq (response_json resp) (\<lambda>body.
     seq (lift_result (json_item body ''data'')) (\<lambda>d.
     seq (lift_result (json_item d ''data'')) (\<lambda>d. lift_result (json_item d field))))))"

definition read_agent_private_key :: "'h http \<Rightarrow> vault_client \<Rightarrow> string \<Rightarrow> ('h, json) comp" where
  "read_agent_private_key = read_agent_key ''private_key''"

definition read_agent_public_key :: "'h http \<Rightarrow> vault_client \<Rightarrow> string \<Rightarrow> ('h, json) comp" where
  "read_agent_public_key = read_agent_key ''public_key''"

definition delete_agent_keypair :: "'h http \<Rightarrow> vault_client \<Rightarrow> string \<Rightarrow> ('h, unit) comp" where
  "delete_agent_keypair http V agent =
     seq (http_call http (vault_request V ''DELETE''
       (vc_secrets_mount V @ ''/metadata/agents/'' @ agent @ ''/keypair'') JNull)) raise_for_status"

definition is_healthy :: "'h http \<Rightarrow> vault_client \<Rightarrow> ('h, bool) comp" where
  "is_healthy http V = try_except
     (seq (http_call http (vault_request V ''GET'' ''sys/health'' JNull)) (\<lambda>resp.
       ret (hr_status resp \<in> {200, 429, 472, 473})))
     (\<lambda>e. case e of OtherError n _ \<Rightarrow> if n = ''RequestError'' then ret False else throw e | _ \<Rightarrow> throw e)"

section \<open>KeycloakAdmin\<close>

record keycloak_admin =
  ka_base :: string
  ka_token :: json

definition admin_token_request :: "settings \<Rightarrow> http_request" where
  "admin_token_request cfg = \<lparr>hq_method = ''POST'',
     hq_url = cfg_keycloak_url cfg @ ''/realms/master/protocol/openid-connect/token'', hq_headers = [],
     hq_params = [], hq_body = JObj [(''grant_type'', JStr ''password''), (''client_id'', JStr ''admin-cli''),
       (''username'', JStr (cfg_keycloak_admin_user cfg)), (''password'', JStr (cfg_keycloak_admin_password cfg))]\<rparr>"

definition get_admin_token :: "'h http \<Rightarrow> settings \<Rightarrow> ('h, json) comp" where
  "get_admin_token http cfg =
     seq (http_call http (admin_token_request cfg)) (\<lambda>resp.
     seq (raise_for_status resp) (\<lambda>_.
     seq (response_json resp) (\<lambda>body. lift_result (json_item body ''access_token''))))"

definition keycloak_init :: "'h http \<Rightarrow> settings \<Rightarrow> ('h, keycloak_admin) comp" where
  "keycloak_init http cfg = seq (get_admin_token http cfg) (\<lambda>token.
     ret \<lparr>ka_base = cfg_keycloak_url cfg @ ''/admin/realms/'' @ cfg_keycloak_realm cfg, ka_token = token\<rparr>)"

definition admin_headers :: "keycloak_admin \<Rightarrow> (string \<times> string) list" where
  "admin_headers K = [(''Authorization'', ''Bearer '' @ py_str (ka_token K)), (''Content-Type'', ''application/json'')]"

definition admin_request :: "keycloak_admin \<Rightarrow> string \<Rightarrow> string \<Rightarrow> (string \<times> string) list \<Rightarrow> json \<Rightarrow> http_request" where
  "admin_request K verb path params body = \<lparr>hq_method = verb, hq_url = ka_base K @ path,
     hq_headers = admin_headers K, hq_params = params, hq_body = body\<rparr>"

definition key_value_of :: "string \<Rightarrow> string" where
  "key_value_of public_key_pem = str_strip (str_replace [CHR 0x0A] []
     (str_replace ''-----END PUBLIC KEY-----'' [] (str_replace ''-----BEGIN PUBLIC KEY-----'' [] public_key_pem)))"

definition client_payload :: "string \<Rightarrow> string \<Rightarrow> json" where
  "client_payload client_id public_key_pem = JObj
     [(''clientId'', JStr client_id), (''enabled'', JBool True), (''protocol'', JStr ''openid-connect''),
      (''publicClient'', JBool False), (''serviceAccountsEnabled'', JBool True),
      (''standardFlowEnabled'', JBool False), (''directAccessGrantsEnabled'', JBool False),
      (''clientAuthenticatorType'', JStr ''client-jwt''),
      (''attributes'', JObj [(''jwt.credential.public.key'', JStr (key_value_of public_key_pem)),
        (''use.jwks.url'', JStr ''false''), (''token.endpoint.auth.signing.alg'', JStr ''RS256'')])]"

definition client_post :: "keycloak_admin \<Rightarrow> string \<Rightarrow> string \<Rightarrow> http_request" where
  "client_post K client_id public_key_pem =
     admin_request K ''POST'' ''/clients'' [] (client_payload client_id public_key_pem)"

definition create_client :: "'h http \<Rightarrow> keycloak_admin \<Rightarrow> string \<Rightarrow> string \<Rightarrow> ('h, unit) comp" where
  "create_client http K client_id public_key_pem =
     seq (http_call http (client_post K client_id public_key_pem)) (\<lambda>resp.
       if hr_status resp = 409 then ret () else raise_for_status resp)"

definition get_client_uuid :: "'h http \<Rightarrow> keycloak_admin \<Rightarrow> string \<Rightarrow> ('h, json) comp" where
  "get_client_uuid http K client_id =
     seq (http_call http (admin_request K ''GET'' ''/clients'' [(''clientId'', client_id)] JNull)) (\<lambda>resp.
     seq (raise_for_status resp) (\<lambda>_.
     seq (response_json resp) (\<lambda>clients.
       if \<not> truthy clients
       then throw (ValueError (''Client '' @ [CHR 0x27] @ client_id @ [CHR 0x27] @ '' not found in Keycloak''))
       else seq (lift_result (json_first clients)) (\<lambda>c. lift_result (json_item c ''id'')))))"

definition suspend_client :: "'h http \<Rightarrow> keycloak_admin \<Rightarrow> string \<Rightarrow> ('h, unit) comp" where
  "suspend_client http K client_id = seq (get_client_uuid http K client_id) (\<lambda>kc_id.
     seq (http_call http (admin_request K ''PUT'' (''/clients/'' @ py_str kc_id) [] (JObj [(''enabled'', JBool False)])))
       raise_for_status)"

definition delete_client :: "'h http \<Rightarrow> keycloak_admin \<Rightarrow> string \<Rightarrow> ('h, unit) comp" where
  "delete_client http K client_id = seq (get_client_uuid http K client_id) (\<lambda>kc_id.
     seq (http_call http (admin_request K ''DELETE'' (''/clients/'' @ py_str kc_id) [] JNull)) raise_for_status)"

section \<open>IdentityProvisioner\<close>

record 'h provisioning =
  pv_http :: "'h http"
  pv_now :: "'h \<Rightarrow> instant \<times> 'h"
  pv_keypair :: "'h \<Rightarrow> (string \<times> string) \<times> 'h"       \<comment> \<open>\<open>generate_rsa_keypair()\<close>\<close>
  pv_load_yaml :: "string \<Rightarrow> 'h \<Rightarrow> (exn + json) \<times> 'h"   \<comment> \<open>\<open>open\<close> and \<open>yaml.safe_load\<close>\<close>
  pv_pyd :: pyd

record identity_provisioner =
  ip_settings :: settings
  ip_vault :: vault_client
  ip_keycloak :: keycloak_admin

definition provisioner_init :: "'h provisioning \<Rightarrow> settings \<Rightarrow> ('h, identity_provisioner) comp" where
  "provisioner_init E cfg = seq (keycloak_init (pv_http E) cfg) (\<lambda>k.
     ret \<lparr>ip_settings = cfg, ip_vault = vault_init cfg, ip_keycloak = k\<rparr>)"

definition load_manifest :: "'h provisioning \<Rightarrow> string \<Rightarrow> ('h, identity_manifest) comp" where
  "load_manifest E path = seq (pv_load_yaml E path) (\<lambda>v. case validate_manifest (pv_pyd E) v of
       None \<Rightarrow> throw (ValidationError ''AgentIdentityManifest'')
     | Some m \<Rightarrow> ret m)"

definition identity_record_of :: "identity_manifest \<Rightarrow> instant \<Rightarrow> active_identity_record" where
  "identity_record_of m now = \<lparr>ir_identity_id = im_name (mf_metadata m),
     ir_agent_type = is_agent_type (mf_spec m), ir_owner_team = is_owner_team (mf_spec m), ir_state = ACTIVE,
     ir_keycloak_client_id = im_name (mf_metadata m),
     ir_vault_path = ''agents/'' @ im_name (mf_metadata m) @ ''/keypair'', ir_manifest_git_sha = ''local'',
     ir_created_at = now, ir_expires_at = now + is_credential_ttl_days (mf_spec m) * us_per_day,
     ir_last_attested_at = None, ir_scopes = is_scopes (mf_spec m)\<rparr>"

definition provision :: "'h provisioning \<Rightarrow> identity_provisioner \<Rightarrow> string \<Rightarrow> ('h, active_identity_record) comp" where
  "provision E p manifest_path =
     seq (load_manifest E manifest_path) (\<lambda>m.
     seq (observe (pv_keypair E)) (\<lambda>(private_pem, public_pem).
     seq (write_agent_keypair (pv_http E) (ip_vault p) (im_name (mf_metadata m)) private_pem public_pem) (\<lambda>_.
     seq (create_client (pv_http E) (ip_keycloak p) (im_name (mf_metadata m)) public_pem) (\<lambda>_.
     seq (observe (pv_now E)) (\<lambda>now. ret (identity_record_of m now))))))"

end
