(* ===== verification/Credential_Properties.thy ===== *)
theory Credential_Properties
  imports Token_Manager Identity_Provisioner Pep_Properties
begin

text \<open>
  The properties of the token manager, of the identity manifest and of provisioning. In the witnesses the
  server's state counts the requests, and the clock reads it.
\<close>

section \<open>Tokens\<close>

definition demo_server :: "nat http" where
  "demo_server q h = (Inr \<lparr>hr_status = 200, hr_text = '''',
     hr_json = Some (JObj [(''access_token'', JStr ''tok'')])\<rparr>, Suc h)"

definition demo_services :: "nat token_services" where
  "demo_services = \<lparr>tk_time = (\<lambda>h. (of_nat h, Suc h)), tk_uuid = (\<lambda>h. (''j'', Suc h)),
     tk_encode = (\<lambda>p k. Inr ''jwt''), tk_http = demo_server\<rparr>"

definition demo_manager :: token_manager where
  "demo_manager = load_key_from_string ''pem'' (token_manager_init ''agent-infra-001'' default_settings)"

text \<open>
  Further: \<open>get_token\<close> returns either the cached token, without a request and only while the clock is more
  than 30 seconds before the recorded expiry, or a token that Keycloak's 200 answer carried to an
  assertion for exactly this task, environment and address, which it then caches for the configured
  time to live; when it raises, the cache and the key are as before.
\<close>
theorem get_token_outcomes:
  assumes "get_token S task env ip (tm, h) = (r, (tm', h'))"
  shows "case r of
      Inl e \<Rightarrow> tm' = tm
    | Inr token \<Rightarrow>
        (tm' = tm \<and> token = tm_cached_token tm \<and> truthy token \<and>
          (\<exists>t. tk_time S h = (t, h') \<and> t < tm_token_expires_at tm - 30)) \<or>
        (\<exists>now jti assertion h1 resp h2 body t.
          tk_encode S (assertion_payload tm task env ip now jti) (tm_private_key_pem tm) = Inr assertion \<and>
          tk_http S (token_request tm assertion) h1 = (Inr resp, h2) \<and> hr_status resp = 200 \<and>
          hr_json resp = Some (JObj body) \<and> dict_get body ''access_token'' = Some token \<and>
          tk_time S h2 = (t, h') \<and> tm' = tm\<lparr>tm_cached_token := token,
            tm_token_expires_at := t + of_int (cfg_token_ttl_seconds (tm_settings tm))\<rparr>)"
  using assms
proof (cases rule: get_token_cases)
  case (cached t)
  then show ?thesis by auto
next
  case (failed h1 e)
  then show ?thesis by simp
next
  case (acquired h1 h2 token t)
  from acquired(2) obtain u g1 jti g2 assertion resp body where
    "tk_encode S (assertion_payload tm task env ip (py_int u) jti) (tm_private_key_pem tm) = Inr assertion"
    "tk_http S (token_request tm assertion) g2 = (Inr resp, h2)" "hr_status resp = 200"
    "hr_json resp = Some (JObj body)" "dict_get body ''access_token'' = Some token"
    by (rule acquire_token_returns)
  with acquired(3-5) show ?thesis unfolding acquired(4) sum.case by blast
qed

theorem get_token_outcomes_witness:
  "\<exists>tm' h'. get_token demo_services ''t1'' ''staging'' ''10.0.0.1'' (demo_manager, 5) = (Inr (JStr ''tok''), (tm', h')) \<and>
     tm_cached_token tm' = JStr ''tok''"
proof -
  let ?g = "get_token demo_services ''t1'' ''staging'' ''10.0.0.1'' (demo_manager, 5)"
  have "fst ?g = Inr (JStr ''tok'')" by code_simp
  note run = run_parts [OF this]
  have "\<not> truthy (tm_cached_token demo_manager)" by code_simp
  moreover have "JStr ''tok'' = tm_cached_token demo_manager \<Longrightarrow> truthy (tm_cached_token demo_manager)"
    by (drule sym) simp
  ultimately have "tm_cached_token (fst (snd ?g)) = JStr ''tok''"
    using get_token_outcomes [OF run, unfolded sum.case] by auto
  with run show ?thesis by (intro exI conjI)
qed

text \<open>
  Further: The cache ignores what the token is asked for: after a token was acquired for one task, environment
  and address, \<open>get_token\<close> for any other task, environment and address gives that same
  token, without a request, until 30 seconds before the recorded expiry.
\<close>
theorem token_serves_other_tasks:
  assumes first: "get_token S task env ip (tm, h) = (Inr token, (tm', h'))" "truthy token"
    and later: "tk_time S g = (t, g')" "t < tm_token_expires_at tm' - 30"
  shows "get_token S task2 env2 ip2 (tm', g) = (Inr token, (tm', g'))"
proof -
  have "tm_cached_token tm' = token"
    using first(1) by (cases rule: get_token_cases) auto
  with get_token_cached [of tm' S g t g' task2 env2 ip2] first(2) later show ?thesis by simp
qed

theorem token_serves_other_tasks_witness:
  "\<exists>tm' h'. get_token demo_services ''t1'' ''staging'' ''10.0.0.1'' (demo_manager, 5) = (Inr (JStr ''tok''), (tm', h')) \<and>
     get_token demo_services ''t2'' ''production'' ''10.9.9.9'' (tm', h') = (Inr (JStr ''tok''), (tm', Suc h'))"
proof -
  let ?g = "get_token demo_services ''t1'' ''staging'' ''10.0.0.1'' (demo_manager, 5)"
  have "fst ?g = Inr (JStr ''tok'')" by code_simp
  note run = run_parts [OF this]
  have "truthy (JStr ''tok'')" by simp
  moreover have "tk_time demo_services (snd (snd ?g)) = (of_nat (snd (snd ?g)), Suc (snd (snd ?g)))"
    by (simp add: demo_services_def)
  moreover have "of_nat (snd (snd ?g)) < tm_token_expires_at (fst (snd ?g)) - 30" by code_simp
  ultimately have "get_token demo_services ''t2'' ''production'' ''10.9.9.9'' (fst (snd ?g), snd (snd ?g)) =
      (Inr (JStr ''tok''), (fst (snd ?g), Suc (snd (snd ?g))))"
    by (rule token_serves_other_tasks [OF run])
  with run show ?thesis by (intro exI conjI)
qed

text \<open>
  Further: A token whose claims are those of the assertion it was issued for passes the PEP's IP binding from
  exactly the address it was asked for (an empty address binds nothing), and its assertion expires the
  configured number of seconds after it was made.
\<close>
theorem assertion_binds_the_address:
  "\<exists>claims. assertion_payload tm task env ip now jti = JObj claims \<and>
     ip_bound (q\<lparr>token_claims := claims\<rparr>) = (ip = '''' \<or> source_ip q = ip) \<and>
     dict_get claims ''iat'' = Some (JInt now) \<and>
     dict_get claims ''exp'' = Some (JInt (now + cfg_assertion_ttl_seconds (tm_settings tm)))"
proof -
  define claims where "claims =
     [(''iss'', JStr (tm_agent_id tm)), (''sub'', JStr (tm_agent_id tm)),
      (''aud'', JStr (tm_token_endpoint tm)), (''iat'', JInt now),
      (''exp'', JInt (now + cfg_assertion_ttl_seconds (tm_settings tm))), (''jti'', JStr jti),
      (''agent_context'', JObj [(''task_id'', JStr task), (''environment'', JStr env), (''source_ip'', JStr ip)])]"
  have get: "dict_get claims ''source_ip'' = None" "dict_get claims ''iat'' = Some (JInt now)"
    "dict_get claims ''exp'' = Some (JInt (now + cfg_assertion_ttl_seconds (tm_settings tm)))"
    "dict_get claims ''agent_context'' =
      Some (JObj [(''task_id'', JStr task), (''environment'', JStr env), (''source_ip'', JStr ip)])"
    "dict_get [(''task_id'', JStr task), (''environment'', JStr env), (''source_ip'', JStr ip)] ''source_ip'' = Some (JStr ip)"
    by (simp_all add: claims_def dict_get_def)
  have "token_ip (q\<lparr>token_claims := claims\<rparr>) = Inr (JStr ip)"
    by (simp add: token_ip_def nested_ip_def get_or_none_def get)
  then have "ip_bound (q\<lparr>token_claims := claims\<rparr>) = (ip = '''' \<or> source_ip q = ip)"
    by (auto simp: ip_bound_def)
  then show ?thesis using get by (intro exI [of _ claims] conjI) (simp_all add: assertion_payload_def claims_def)
qed

text \<open>
  The introspection endpoint is made by replacing every \<open>/token\<close> of the token endpoint: with the default
  settings the path loses the \<open>token\<close> segment that Keycloak's endpoint has, and a host name that begins
  with \<open>token\<close> is changed too.
\<close>

lemma introspection_endpoint_default:
  "introspect_endpoint (token_manager_init a default_settings) =
     ''http://localhost:8080/realms/nhi/protocol/openid-connect/introspect''"
  by code_simp

lemma introspection_endpoint_other_host:
  "introspect_endpoint (token_manager_init a (default_settings\<lparr>cfg_keycloak_url := ''https://token.example''\<rparr>)) =
     ''https://introspect.example/realms/nhi/protocol/openid-connect/introspect''"
  by code_simp

section \<open>Manifests\<close>

text \<open>
  C36: A manifest that validates is well formed, whatever pydantic makes of its scalars: the kind is
  AgentIdentity, the name has 3 to 63 characters, all of them lower-case letters, digits or hyphens, and begins and ends
  with a letter or a digit, the credentials live 1 to 365 days and are rotated a positive number of days before, every
  scope has a colon, the rate limit is positive, the hours of a time window are 0 to 23.
\<close>
theorem validated_manifest_is_well_formed:
  assumes "validate_manifest Y v = Some m"
  shows "mf_kind m = ''AgentIdentity'' \<and> 3 \<le> length (im_name (mf_metadata m)) \<and> length (im_name (mf_metadata m)) \<le> 63 \<and>
    set (im_name (mf_metadata m)) \<subseteq> set ''abcdefghijklmnopqrstuvwxyz0123456789-'' \<and>
    hd (im_name (mf_metadata m)) \<in> set ''abcdefghijklmnopqrstuvwxyz0123456789'' \<and>
    last (im_name (mf_metadata m)) \<in> set ''abcdefghijklmnopqrstuvwxyz0123456789'' \<and>
    1 \<le> is_credential_ttl_days (mf_spec m) \<and> is_credential_ttl_days (mf_spec m) \<le> 365 \<and>
    1 \<le> is_rotation_days_before_expiry (mf_spec m) \<and> (\<forall>s\<in>set (is_scopes (mf_spec m)). CHR '':'' \<in> set s) \<and>
    1 \<le> cb_max_actions_per_minute (is_context_bindings (mf_spec m)) \<and>
    (\<forall>t. cb_time_window (is_context_bindings (mf_spec m)) = Some t \<longrightarrow>
       tw_start_hour_utc t \<in> {0..23} \<and> tw_end_hour_utc t \<in> {0..23})"
proof -
  have ok: "mf_kind m = ''AgentIdentity''" "name_matches (im_name (mf_metadata m))" "spec_ok (mf_spec m)"
    using validate_manifest_ok [OF assms] by (simp_all add: manifest_ok_def)
  note name_matches_chars [OF ok(2)]
  moreover have "\<forall>t. cb_time_window (is_context_bindings (mf_spec m)) = Some t \<longrightarrow>
      tw_start_hour_utc t \<in> {0..23} \<and> tw_end_hour_utc t \<in> {0..23}"
    using ok(3) by (auto simp: spec_ok_def time_window_ok_def)
  ultimately show ?thesis using ok(1,3) unfolding spec_ok_def list_all_iff by simp
qed

definition demo_pyd :: pyd where
  "demo_pyd = \<lparr>as_str = (\<lambda>v. case v of JStr s \<Rightarrow> Some s | _ \<Rightarrow> None), as_int = (\<lambda>v. case v of JInt n \<Rightarrow> Some n | _ \<Rightarrow> None)\<rparr>"

definition demo_manifest :: json where
  "demo_manifest = JObj [(''kind'', JStr ''AgentIdentity''),
     (''metadata'', JObj [(''name'', JStr ''agent-infra-001''), (''namespace'', JStr ''nhi'')]),
     (''spec'', JObj [(''agent_type'', JStr ''InfraAgent''), (''owner_team'', JStr ''platform''),
        (''owner_contact'', JStr ''p@example.com''), (''credential_ttl_days'', JInt 30),
        (''scopes'', JList [JStr ''cloud:s3:list'']),
        (''context_bindings'', JObj [(''environments'', JList [JStr ''staging'']),
           (''time_window'', JObj [(''start_hour_utc'', JInt 8), (''end_hour_utc'', JInt 20)])])])]"

lemma demo_manifest_valid:
  obtains m where "validate_manifest demo_pyd demo_manifest = Some m" "is_credential_ttl_days (mf_spec m) = 30"
    "im_name (mf_metadata m) = ''agent-infra-001''"
proof -
  have "validate_manifest demo_pyd demo_manifest \<noteq> None" by code_simp
  then obtain m where m: "validate_manifest demo_pyd demo_manifest = Some m" by (elim not_None_eq [THEN iffD1, THEN exE])
  have "is_credential_ttl_days (mf_spec (the (validate_manifest demo_pyd demo_manifest))) = 30"
    "im_name (mf_metadata (the (validate_manifest demo_pyd demo_manifest))) = ''agent-infra-001''" by code_simp+
  with that [OF m] show thesis by (simp only: m option.sel)
qed

theorem validated_manifest_is_well_formed_witness:
  "\<exists>m. validate_manifest demo_pyd demo_manifest = Some m \<and> is_credential_ttl_days (mf_spec m) \<le> 365"
proof -
  obtain m where "validate_manifest demo_pyd demo_manifest = Some m" by (rule demo_manifest_valid)
  with validated_manifest_is_well_formed [OF this] show ?thesis by (intro exI [of _ m] conjI) (assumption, elim conjE)
qed

section \<open>Provisioning\<close>

lemma seq_run: "m h = (Inr x, h') \<Longrightarrow> seq m f h = f x h'"
  by (simp add: seq_def)

lemma write_agent_keypair_returns:
  "write_agent_keypair http V a x y h = (Inr u, h') \<longleftrightarrow>
     (\<exists>r. http (keypair_put V a x y) h = (Inr r, h') \<and> 200 \<le> hr_status r \<and> hr_status r \<le> 299)"
  by (auto simp: write_agent_keypair_def raise_for_status_def http_call_def seq_def split: prod.splits sum.splits if_splits)

lemma create_client_returns:
  "create_client http K c k h = (Inr u, h') \<longleftrightarrow>
     (\<exists>r. http (client_post K c k) h = (Inr r, h') \<and> (hr_status r = 409 \<or> 200 \<le> hr_status r \<and> hr_status r \<le> 299))"
  by (auto simp: create_client_def raise_for_status_def http_call_def seq_def split: prod.splits sum.splits if_splits)

lemma load_manifest_returns:
  "load_manifest E path h = (Inr m, h') \<longleftrightarrow> (\<exists>v. pv_load_yaml E path h = (Inr v, h') \<and> validate_manifest (pv_pyd E) v = Some m)"
  by (auto simp: load_manifest_def seq_def split: prod.splits sum.splits option.splits)

text \<open>
  C37: When provisioning returns a record, the manifest validated, Vault had accepted both keys of the
  new pair, and after that Keycloak answered the registration of its public key with success or with 409
  (the client exists); the record is ACTIVE, carries the name and the scopes of the manifest, and expires
  its time to live, at most 365 days, after its creation.
\<close>
theorem provisioned_identity_is_backed:
  assumes "provision E p path h = (Inr rec, h')"
  shows "\<exists>v m h1 priv pub h2 r1 h3 r2 h4 now.
    pv_load_yaml E path h = (Inr v, h1) \<and> validate_manifest (pv_pyd E) v = Some m \<and> pv_keypair E h1 = ((priv, pub), h2) \<and>
    pv_http E (keypair_put (ip_vault p) (im_name (mf_metadata m)) priv pub) h2 = (Inr r1, h3) \<and>
    200 \<le> hr_status r1 \<and> hr_status r1 \<le> 299 \<and>
    pv_http E (client_post (ip_keycloak p) (im_name (mf_metadata m)) pub) h3 = (Inr r2, h4) \<and>
    (hr_status r2 = 409 \<or> 200 \<le> hr_status r2 \<and> hr_status r2 \<le> 299) \<and> pv_now E h4 = (now, h') \<and>
    ir_identity_id rec = im_name (mf_metadata m) \<and> ir_state rec = ACTIVE \<and> ir_scopes rec = is_scopes (mf_spec m) \<and>
    ir_created_at rec = now \<and> now < ir_expires_at rec \<and> ir_expires_at rec \<le> now + 365 * us_per_day"
proof -
  obtain m h1 where m: "load_manifest E path h = (Inr m, h1)"
    and r1: "seq (observe (pv_keypair E)) (\<lambda>(private_pem, public_pem).
       seq (write_agent_keypair (pv_http E) (ip_vault p) (im_name (mf_metadata m)) private_pem public_pem) (\<lambda>_.
       seq (create_client (pv_http E) (ip_keycloak p) (im_name (mf_metadata m)) public_pem) (\<lambda>_.
       seq (observe (pv_now E)) (\<lambda>now. ret (identity_record_of m now))))) h1 = (Inr rec, h')"
    using assms unfolding provision_def by (rule seq_returns)
  obtain priv pub h2 where k: "pv_keypair E h1 = ((priv, pub), h2)" by (metis surj_pair)
  from r1 have r2: "seq (write_agent_keypair (pv_http E) (ip_vault p) (im_name (mf_metadata m)) priv pub) (\<lambda>_.
       seq (create_client (pv_http E) (ip_keycloak p) (im_name (mf_metadata m)) pub) (\<lambda>_.
       seq (observe (pv_now E)) (\<lambda>now. ret (identity_record_of m now)))) h2 = (Inr rec, h')"
    by (simp add: seq_def observe_def k)
  obtain u h3 where w: "write_agent_keypair (pv_http E) (ip_vault p) (im_name (mf_metadata m)) priv pub h2 = (Inr u, h3)"
    and r3: "seq (create_client (pv_http E) (ip_keycloak p) (im_name (mf_metadata m)) pub) (\<lambda>_.
       seq (observe (pv_now E)) (\<lambda>now. ret (identity_record_of m now))) h3 = (Inr rec, h')"
    using r2 by (rule seq_returns)
  obtain u' h4 where c: "create_client (pv_http E) (ip_keycloak p) (im_name (mf_metadata m)) pub h3 = (Inr u', h4)"
    and r4: "seq (observe (pv_now E)) (\<lambda>now. ret (identity_record_of m now)) h4 = (Inr rec, h')"
    using r3 by (rule seq_returns)
  obtain now where now: "pv_now E h4 = (now, h')" "rec = identity_record_of m now"
    using r4 by (auto simp: seq_def observe_def split: prod.splits)
  obtain v where v: "pv_load_yaml E path h = (Inr v, h1)" "validate_manifest (pv_pyd E) v = Some m"
    using m unfolding load_manifest_returns by (elim exE conjE)
  have "0 < is_credential_ttl_days (mf_spec m)" "is_credential_ttl_days (mf_spec m) \<le> 365"
    using validate_manifest_ok [OF v(2)] by (simp_all add: manifest_ok_def spec_ok_def)
  then have "now < ir_expires_at rec" "ir_expires_at rec \<le> now + 365 * us_per_day"
    by (simp_all add: now(2) identity_record_of_def us_per_day_def)
  moreover have "ir_identity_id rec = im_name (mf_metadata m)" "ir_state rec = ACTIVE" "ir_scopes rec = is_scopes (mf_spec m)"
    "ir_created_at rec = now" by (simp_all add: now(2) identity_record_of_def)
  ultimately show ?thesis using v k w c now(1) unfolding write_agent_keypair_returns create_client_returns by blast
qed

definition demo_provisioning :: "int \<Rightarrow> nat provisioning" where
  "demo_provisioning keycloak_status = \<lparr>pv_http = (\<lambda>q h. (Inr \<lparr>hr_status =
        (if hq_method q = ''PUT'' then 204 else keycloak_status), hr_text = '''', hr_json = None\<rparr>, Suc h)),
     pv_now = (\<lambda>h. (1700000000000000, h)), pv_keypair = (\<lambda>h. ((''private'', ''public''), h)),
     pv_load_yaml = (\<lambda>path h. (Inr demo_manifest, h)), pv_pyd = demo_pyd\<rparr>"

definition demo_provisioner :: identity_provisioner where
  "demo_provisioner = \<lparr>ip_settings = default_settings, ip_vault = vault_init default_settings,
     ip_keycloak = \<lparr>ka_base = ''http://localhost:8080/admin/realms/nhi'', ka_token = JStr ''t''\<rparr>\<rparr>"

theorem provisioned_identity_is_backed_witness:
  "\<exists>rec h'. provision (demo_provisioning 201) demo_provisioner ''m.yaml'' 0 = (Inr rec, h') \<and>
     ir_expires_at rec \<le> ir_created_at rec + 365 * us_per_day"
proof -
  have "case fst (provision (demo_provisioning 201) demo_provisioner ''m.yaml'' 0) of Inl _ \<Rightarrow> False | Inr _ \<Rightarrow> True"
    by code_simp
  then obtain rec h' where run: "provision (demo_provisioning 201) demo_provisioner ''m.yaml'' 0 = (Inr rec, h')"
    by (cases "provision (demo_provisioning 201) demo_provisioner ''m.yaml'' 0") (auto split: sum.splits)
  from provisioned_identity_is_backed [OF run] obtain now where
    "ir_created_at rec = now" "ir_expires_at rec \<le> now + 365 * us_per_day" by (elim exE conjE)
  then have "ir_expires_at rec \<le> ir_created_at rec + 365 * us_per_day" by (simp only:)
  with run show ?thesis by (intro exI conjI)
qed

text \<open>
  Further: Once Vault has accepted the key pair, the registration decides: any answer but success and 409
  makes provisioning raise, and nothing is undone, no further request is made (the key pair stays in
  Vault). On 409 provisioning reports the identity ACTIVE although Keycloak keeps the client it had, and
  Vault now holds the new private key.
\<close>
theorem failed_registration_leaves_the_keypair:
  assumes yaml: "pv_load_yaml E path h = (Inr v, h1)" "validate_manifest (pv_pyd E) v = Some m"
    and keys: "pv_keypair E h1 = ((priv, pub), h2)"
    and vault: "pv_http E (keypair_put (ip_vault p) (im_name (mf_metadata m)) priv pub) h2 = (Inr r1, h3)"
      "200 \<le> hr_status r1" "hr_status r1 \<le> 299"
    and keycloak: "pv_http E (client_post (ip_keycloak p) (im_name (mf_metadata m)) pub) h3 = (x, h4)"
  shows "provision E p path h = (case x of
      Inl e \<Rightarrow> (Inl (OtherError ''RequestError'' e), h4)
    | Inr r \<Rightarrow>
        if hr_status r = 409 \<or> 200 \<le> hr_status r \<and> hr_status r \<le> 299
        then (case pv_now E h4 of (now, h5) \<Rightarrow> (Inr (identity_record_of m now), h5))
        else (Inl (OtherError ''HTTPStatusError'' (str_int (hr_status r))), h4))"
proof -
  have m: "load_manifest E path h = (Inr m, h1)" using yaml by (simp add: load_manifest_def seq_def)
  have w: "write_agent_keypair (pv_http E) (ip_vault p) (im_name (mf_metadata m)) priv pub h2 = (Inr (), h3)"
    using vault by (simp add: write_agent_keypair_returns)
  have "provision E p path h = seq (create_client (pv_http E) (ip_keycloak p) (im_name (mf_metadata m)) pub) (\<lambda>_.
       seq (observe (pv_now E)) (\<lambda>now. ret (identity_record_of m now))) h3"
    unfolding provision_def seq_run [where m = "load_manifest E path", OF m]
    by (simp add: seq_def observe_def keys w)
  also have "\<dots> = (case x of
      Inl e \<Rightarrow> (Inl (OtherError ''RequestError'' e), h4)
    | Inr r \<Rightarrow>
        if hr_status r = 409 \<or> 200 \<le> hr_status r \<and> hr_status r \<le> 299
        then (case pv_now E h4 of (now, h5) \<Rightarrow> (Inr (identity_record_of m now), h5))
        else (Inl (OtherError ''HTTPStatusError'' (str_int (hr_status r))), h4))"
    using keycloak by (auto simp: create_client_def http_call_def raise_for_status_def seq_def observe_def ret_def throw_def
        split: sum.splits prod.splits)
  finally show ?thesis .
qed

theorem failed_registration_leaves_the_keypair_witness:
  "\<exists>m. validate_manifest demo_pyd demo_manifest = Some m \<and>
     provision (demo_provisioning 409) demo_provisioner ''m.yaml'' 0 = (Inr (identity_record_of m 1700000000000000), 2) \<and>
     provision (demo_provisioning 500) demo_provisioner ''m.yaml'' 0 = (Inl (OtherError ''HTTPStatusError'' ''500''), 2)"
proof -
  obtain m where m: "validate_manifest demo_pyd demo_manifest = Some m" by (rule demo_manifest_valid)
  have yaml: "pv_load_yaml (demo_provisioning n) ''m.yaml'' 0 = (Inr demo_manifest, 0)"
    "validate_manifest (pv_pyd (demo_provisioning n)) demo_manifest = Some m"
    "pv_keypair (demo_provisioning n) 0 = ((''private'', ''public''), 0)" for n
    by (simp_all add: demo_provisioning_def m)
  have http: "pv_http (demo_provisioning n) q h = (Inr \<lparr>hr_status = (if hq_method q = ''PUT'' then 204 else n),
      hr_text = '''', hr_json = None\<rparr>, Suc h)" for n q h by (simp add: demo_provisioning_def)
  have verb: "hq_method (keypair_put V a x y) = ''PUT''" "hq_method (client_post K a x) = ''POST''" for V K a x y
    by (simp_all add: keypair_put_def vault_request_def client_post_def admin_request_def)
  have vault: "pv_http (demo_provisioning n) (keypair_put (ip_vault demo_provisioner) a x y) 0 =
      (Inr \<lparr>hr_status = 204, hr_text = '''', hr_json = None\<rparr>, 1)" for n a x y unfolding http verb by simp
  have keycloak: "pv_http (demo_provisioning n) (client_post (ip_keycloak demo_provisioner) a x) 1 =
      (Inr \<lparr>hr_status = n, hr_text = '''', hr_json = None\<rparr>, 2)" for n a x unfolding http verb by simp
  note run = failed_registration_leaves_the_keypair [OF yaml vault _ _ keycloak]
  have "provision (demo_provisioning 409) demo_provisioner ''m.yaml'' 0 = (Inr (identity_record_of m 1700000000000000), 2)"
    by (subst run) (simp_all add: demo_provisioning_def)
  moreover have "str_int 500 = ''500''" by code_simp
  then have "provision (demo_provisioning 500) demo_provisioner ''m.yaml'' 0 = (Inl (OtherError ''HTTPStatusError'' ''500''), 2)"
    by (subst run) simp_all
  ultimately show ?thesis using m by (intro exI [of _ m] conjI)
qed

end
