(* ===== verification/Agent_Handlers.thy ===== *)
theory Agent_Handlers
  imports Base_Agent Py_Json
begin

text \<open>
  The tool handlers of \<open>agents/data_agent\<close>, \<open>infra_agent\<close>, \<open>secops_agent\<close> and \<open>provisioner_agent\<close>. boto3 is
  the parameter \<open>'c boto\<close>: a call of an operation of a service with its keyword arguments, the bytes of a streamed
  body after \<open>decode\<close>, and \<open>isoformat\<close> of a date. Responses are JSON-like values; what a handler does to
  one that lacks a member is the code's exception. Tag keys are strings, as the AWS API documents.
\<close>

section \<open>Reading responses\<close>

definition rbind :: "exn + 'a \<Rightarrow> ('a \<Rightarrow> exn + 'b) \<Rightarrow> exn + 'b" where
  "rbind x f = (case x of Inl e \<Rightarrow> Inl e | Inr v \<Rightarrow> f v)"

fun rmap :: "('a \<Rightarrow> exn + 'b) \<Rightarrow> 'a list \<Rightarrow> exn + 'b list" where
  "rmap f [] = Inr []"
| "rmap f (x # xs) = rbind (f x) (\<lambda>y. rbind (rmap f xs) (\<lambda>ys. Inr (y # ys)))"

text \<open>\<open>v.get(k, x)\<close>, iteration, \<open>len(v)\<close>.\<close>

definition json_get :: "json \<Rightarrow> string \<Rightarrow> json \<Rightarrow> exn + json" where
  "json_get v k x = (case v of
       JObj d \<Rightarrow> Inr (case dict_get d k of Some y \<Rightarrow> y | None \<Rightarrow> x)
     | _ \<Rightarrow> Inl (AttributeError (repr_str (json_type v) @ '' object has no attribute '' @ repr_str ''get'')))"

definition json_iter :: "json \<Rightarrow> exn + json list" where
  "json_iter v = (case v of
       JList xs \<Rightarrow> Inr xs
     | JObj d \<Rightarrow> Inr (map (\<lambda>x. JStr (fst x)) d)
     | JStr s \<Rightarrow> Inr (map (\<lambda>c. JStr [c]) s)
     | _ \<Rightarrow> Inl (TypeError (repr_str (json_type v) @ '' object is not iterable'')))"

definition json_len :: "json \<Rightarrow> exn + int" where
  "json_len v = (case v of
       JList xs \<Rightarrow> Inr (int (length xs))
     | JObj d \<Rightarrow> Inr (int (length d))
     | JStr s \<Rightarrow> Inr (int (length s))
     | _ \<Rightarrow> Inl (TypeError (''object of type '' @ repr_str (json_type v) @ '' has no len()'')))"

definition each :: "json \<Rightarrow> (json \<Rightarrow> exn + 'b) \<Rightarrow> exn + 'b list" where
  "each v f = rbind (json_iter v) (rmap f)"

text \<open>\<open>{t["Key"]: t["Value"] for t in ts}\<close>.\<close>

fun tags_dict :: "json list \<Rightarrow> pydict \<Rightarrow> exn + pydict" where
  "tags_dict [] d = Inr d"
| "tags_dict (t # ts) d = rbind (json_item t ''Key'') (\<lambda>k. rbind (json_item t ''Value'') (\<lambda>v.
     case k of JStr s \<Rightarrow> tags_dict ts (dict_set d s v)
     | _ \<Rightarrow> Inl (TypeError (''unhashable type: '' @ repr_str (json_type k)))))"

definition tags_of :: "json \<Rightarrow> exn + pydict" where
  "tags_of v = rbind (json_iter v) (\<lambda>ts. tags_dict ts [])"

record 'c boto =
  bo_call :: "string \<Rightarrow> string \<Rightarrow> pydict \<Rightarrow> ('c, json) comp"
  bo_read :: "json \<Rightarrow> string"
  bo_isoformat :: "json \<Rightarrow> exn + string"

text \<open>\<open>{name: [...], "count": len(...)}\<close>.\<close>

definition listing :: "string \<Rightarrow> json list \<Rightarrow> json" where
  "listing name xs = JObj [(name, JList xs), (''count'', JInt (int (length xs)))]"

section \<open>S3 objects (DataAgent, InfraAgent)\<close>

definition S3_PREFIX :: string where "S3_PREFIX = ''arn:aws:s3:::''"

definition parse_s3_arn :: "string \<Rightarrow> string \<Rightarrow> exn + (string \<times> string)" where
  "parse_s3_arn msg arn = (case split_once (CHR ''/'') (str_replace S3_PREFIX [] arn) of
       [bucket, key] \<Rightarrow> Inr (bucket, key)
     | _ \<Rightarrow> Inl (ValueError (msg @ arn)))"

definition get_object :: "string \<Rightarrow> 'c boto \<Rightarrow> 'c handler" where
  "get_object size_key B st =
     seq (lift_result (parse_s3_arn ''Cannot parse S3 ARN: '' (st_resource_arn st))) (\<lambda>(bucket, key).
     seq (bo_call B ''s3'' ''get_object'' [(''Bucket'', JStr bucket), (''Key'', JStr key)]) (\<lambda>resp.
     seq (lift_result (json_item resp ''Body'')) (\<lambda>body.
       ret (JObj [(''bucket'', JStr bucket), (''key'', JStr key), (''content'', JStr (bo_read B body)),
         (size_key, JInt (int (length (bo_read B body))))]))))"

definition data_handle_s3_get :: "'c boto \<Rightarrow> 'c handler" where
  "data_handle_s3_get = get_object ''bytes''"

definition infra_handle_s3_get_object :: "'c boto \<Rightarrow> 'c handler" where
  "infra_handle_s3_get_object = get_object ''size''"

text \<open>\<open>s.encode()\<close>: UTF-8.\<close>

definition utf8 :: "string \<Rightarrow> string" where
  "utf8 s = concat (map (\<lambda>c. let n = of_char c :: nat in
     if n < 128 then [c] else [char_of (192 + n div 64), char_of (128 + n mod 64)]) s)"

definition encode_payload :: "json \<Rightarrow> json" where
  "encode_payload v = (case v of
       JObj d \<Rightarrow> JStr (utf8 (dumps_default v))
     | JStr s \<Rightarrow> JStr (utf8 s)
     | _ \<Rightarrow> v)"

definition data_handle_s3_put :: "'c boto \<Rightarrow> 'c handler" where
  "data_handle_s3_put B st =
     seq (lift_result (parse_s3_arn ''Cannot parse S3 ARN for put: '' (st_resource_arn st))) (\<lambda>(bucket, key).
     let payload = encode_payload (case dict_get (st_context st) ''payload'' of Some v \<Rightarrow> v | None \<Rightarrow> JStr [])
     in seq (bo_call B ''s3'' ''put_object'' [(''Bucket'', JStr bucket), (''Key'', JStr key), (''Body'', payload)]) (\<lambda>_.
        seq (lift_result (json_len payload)) (\<lambda>n.
          ret (JObj [(''bucket'', JStr bucket), (''key'', JStr key), (''bytes_written'', JInt n)]))))"

section \<open>S3 buckets\<close>

text \<open>The \<open>try\<close> of the loop: any exception leaves no tags.\<close>

definition bucket_tags :: "'c boto \<Rightarrow> json \<Rightarrow> ('c, pydict) comp" where
  "bucket_tags B b = try_except
     (seq (lift_result (json_item b ''Name'')) (\<lambda>name.
      seq (bo_call B ''s3'' ''get_bucket_tagging'' [(''Bucket'', name)]) (\<lambda>resp.
      lift_result (rbind (json_get resp ''TagSet'' (JList [])) tags_of))))
     (\<lambda>_. ret [])"

definition accessible :: "pydict \<Rightarrow> bool" where
  "accessible tags \<longleftrightarrow> dict_get tags ''DataClassification'' \<in> {Some (JStr ''public''), Some (JStr ''internal'')}"

fun accessible_buckets :: "'c boto \<Rightarrow> json list \<Rightarrow> ('c, json list) comp" where
  "accessible_buckets B [] = ret []"
| "accessible_buckets B (b # bs) = seq (bucket_tags B b) (\<lambda>tags.
     if accessible tags
     then seq (lift_result (json_item b ''Name'')) (\<lambda>name.
          seq (accessible_buckets B bs) (\<lambda>rest. ret (JObj [(''name'', name), (''tags'', JObj tags)] # rest)))
     else accessible_buckets B bs)"

definition data_handle_s3_list :: "'c boto \<Rightarrow> 'c handler" where
  "data_handle_s3_list B st =
     seq (bo_call B ''s3'' ''list_buckets'' []) (\<lambda>resp.
     seq (lift_result (rbind (json_get resp ''Buckets'' (JList [])) json_iter)) (\<lambda>bs.
     seq (accessible_buckets B bs) (\<lambda>buckets. ret (listing ''buckets'' buckets))))"

definition infra_handle_s3_list_buckets :: "'c boto \<Rightarrow> 'c handler" where
  "infra_handle_s3_list_buckets B st =
     seq (bo_call B ''s3'' ''list_buckets'' []) (\<lambda>resp.
     seq (lift_result (rbind (json_get resp ''Buckets'' (JList [])) (\<lambda>v. each v (\<lambda>b. json_item b ''Name'')))) (\<lambda>names.
     ret (listing ''buckets'' names)))"

section \<open>EC2\<close>

definition instance_entry :: "json \<Rightarrow> exn + json" where
  "instance_entry i =
     rbind (json_item i ''InstanceId'') (\<lambda>iid.
     rbind (rbind (json_item i ''State'') (\<lambda>s. json_item s ''Name'')) (\<lambda>state.
     rbind (json_item i ''InstanceType'') (\<lambda>ty.
     rbind (rbind (json_get i ''Tags'' (JList [])) tags_of) (\<lambda>tags.
     Inr (JObj [(''instance_id'', iid), (''state'', state), (''instance_type'', ty), (''tags'', JObj tags)])))))"

definition infra_handle_ec2_describe :: "'c boto \<Rightarrow> 'c handler" where
  "infra_handle_ec2_describe B st =
     seq (bo_call B ''ec2'' ''describe_instances'' []) (\<lambda>resp.
     seq (lift_result (rbind (json_item resp ''Reservations'') (\<lambda>rs.
       each rs (\<lambda>r. rbind (json_item r ''Instances'') (\<lambda>is. each is instance_entry))))) (\<lambda>xss.
     ret (listing ''instances'' (concat xss))))"

definition infra_handle_ec2_describe_sg :: "'c boto \<Rightarrow> 'c handler" where
  "infra_handle_ec2_describe_sg B st =
     seq (bo_call B ''ec2'' ''describe_security_groups'' []) (\<lambda>resp.
     seq (lift_result (rbind (json_item resp ''SecurityGroups'') (\<lambda>gs. each gs (\<lambda>sg.
       rbind (json_item sg ''GroupId'') (\<lambda>gid. rbind (json_item sg ''GroupName'') (\<lambda>name.
       rbind (json_item sg ''Description'') (\<lambda>desc.
       Inr (JObj [(''group_id'', gid), (''group_name'', name), (''description'', desc)])))))))) (\<lambda>groups.
     ret (listing ''security_groups'' groups)))"

definition group_entry :: "json \<Rightarrow> exn + json" where
  "group_entry sg =
     rbind (json_item sg ''GroupId'') (\<lambda>gid. rbind (json_item sg ''GroupName'') (\<lambda>name.
     rbind (rbind (json_get sg ''IpPermissions'' (JList [])) json_len) (\<lambda>ingress.
     rbind (rbind (json_get sg ''IpPermissionsEgress'' (JList [])) json_len) (\<lambda>egress.
     Inr (JObj [(''group_id'', gid), (''group_name'', name), (''ingress_rules'', JInt ingress),
       (''egress_rules'', JInt egress), (''potentially_permissive'', JBool (ingress > 5))])))))"

definition secops_handle_describe_sgs :: "'c boto \<Rightarrow> 'c handler" where
  "secops_handle_describe_sgs B st =
     seq (bo_call B ''ec2'' ''describe_security_groups'' []) (\<lambda>resp.
     seq (lift_result (rbind (json_item resp ''SecurityGroups'') (\<lambda>gs. each gs group_entry))) (\<lambda>groups.
     ret (listing ''security_groups'' groups)))"

section \<open>Findings and roles (SecOpsAgent)\<close>

definition synthetic_findings :: json where
  "synthetic_findings = JList [JObj [(''Id'', JStr ''finding-001''), (''Title'', JStr ''S3 bucket has public read access''),
     (''Severity'', JObj [(''Label'', JStr ''HIGH'')]),
     (''ProductArn'', JStr ''arn:aws:securityhub:us-east-1::product/aws/securityhub''),
     (''GeneratorId'', JStr ''aws-foundational-security-s3'')]]"

definition secops_handle_securityhub_findings :: "'c boto \<Rightarrow> 'c handler" where
  "secops_handle_securityhub_findings B st =
     seq (try_except
       (seq (bo_call B ''securityhub'' ''get_findings'' [(''MaxResults'', JInt 50)]) (\<lambda>resp.
          lift_result (json_get resp ''Findings'' (JList []))))
       (\<lambda>_. ret synthetic_findings)) (\<lambda>findings.
     seq (lift_result (json_len findings)) (\<lambda>n.
     ret (JObj [(''findings'', findings), (''count'', JInt n)])))"

definition secops_handle_iam_list_roles :: "'c boto \<Rightarrow> 'c handler" where
  "secops_handle_iam_list_roles B st =
     seq (bo_call B ''iam'' ''list_roles'' []) (\<lambda>resp.
     seq (lift_result (rbind (json_get resp ''Roles'' (JList [])) (\<lambda>rs. each rs (\<lambda>r.
       rbind (json_item r ''RoleName'') (\<lambda>name. rbind (json_item r ''Arn'') (\<lambda>arn.
       rbind (rbind (json_item r ''CreateDate'') (bo_isoformat B)) (\<lambda>date.
       Inr (JObj [(''role_name'', name), (''arn'', arn), (''create_date'', JStr date)])))))))) (\<lambda>roles.
     ret (listing ''roles'' roles)))"

section \<open>Roles from templates (ProvisionerAgent)\<close>

text \<open>
  \<open>_load_templates\<close>: the file may be missing, and \<open>yaml.safe_load\<close> may raise or give nothing. \<open>template_table\<close> is the
  \<open>templates\<close> member the handler reads, where the file has the shape the handler relies on.
\<close>

definition load_templates :: "bool \<Rightarrow> exn + json \<Rightarrow> exn + json" where
  "load_templates exists yaml = (if \<not> exists then Inr (JObj [])
     else rbind yaml (\<lambda>v. Inr (if truthy v then v else JObj [])))"

definition template_table :: "json \<Rightarrow> (string \<times> pydict) list option" where
  "template_table v = (case v of
       JObj d \<Rightarrow> (case dict_get d ''templates'' of
           None \<Rightarrow> Some []
         | Some (JObj ts) \<Rightarrow> those (map (\<lambda>(k, t). case t of JObj p \<Rightarrow> Some (k, p) | _ \<Rightarrow> None) ts)
         | _ \<Rightarrow> None)
     | _ \<Rightarrow> None)"

text \<open>\<open>template_name not in templates\<close> hashes the name.\<close>

definition template_of :: "(string \<times> pydict) list \<Rightarrow> json \<Rightarrow> exn + (pydict option)" where
  "template_of templates v = (case v of
       JStr s \<Rightarrow> Inr (dict_get templates s)
     | JList _ \<Rightarrow> Inl (TypeError (''unhashable type: '' @ repr_str ''list''))
     | JObj _ \<Rightarrow> Inl (TypeError (''unhashable type: '' @ repr_str ''dict''))
     | _ \<Rightarrow> Inr None)"

definition default_assume_role_policy :: json where
  "default_assume_role_policy = JObj [(''Version'', JStr ''2012-10-17''),
     (''Statement'', JList [JObj [(''Effect'', JStr ''Allow''),
        (''Principal'', JObj [(''Service'', JStr ''ec2.amazonaws.com'')]), (''Action'', JStr ''sts:AssumeRole'')]])]"

definition role_policy :: "pydict \<Rightarrow> string" where
  "role_policy template = dumps_default
     (case dict_get template ''assume_role_policy_document'' of Some v \<Rightarrow> v | None \<Rightarrow> default_assume_role_policy)"

definition create_role_args :: "pydict \<Rightarrow> json \<Rightarrow> pydict \<Rightarrow> pydict" where
  "create_role_args ctx name template =
     [(''RoleName'', case dict_get ctx ''role_name'' of Some v \<Rightarrow> v | None \<Rightarrow> JStr (''nhi-provisioned-'' @ py_str name)),
      (''AssumeRolePolicyDocument'', JStr (role_policy template)),
      (''Tags'', JList [JObj [(''Key'', JStr ''ManagedBy''), (''Value'', JStr ''nhi-sentinel'')],
         JObj [(''Key'', JStr ''Template''), (''Value'', name)],
         JObj [(''Key'', JStr ''TicketRef''),
           (''Value'', case dict_get ctx ''ticket_ref'' of Some v \<Rightarrow> v | None \<Rightarrow> JStr [])]])]"

definition provisioner_handle_create_role :: "(string \<times> pydict) list \<Rightarrow> 'c boto \<Rightarrow> 'c handler" where
  "provisioner_handle_create_role templates B st =
     (let name = (case dict_get (st_context st) ''template_name'' of Some v \<Rightarrow> v | None \<Rightarrow> JNull) in
      if \<not> truthy name
      then throw (ValueError (''ProvisionerAgent requires '' @ repr_str ''template_name'' @ '' in context''))
      else seq (lift_result (template_of templates name)) (\<lambda>found. case found of
          None \<Rightarrow> throw (ValueError (''Template '' @ [CHR 0x27] @ py_str name @ [CHR 0x27] @
            '' not in approved templates. Available: '' @ py_repr (JList (map (\<lambda>x. JStr (fst x)) templates))))
        | Some template \<Rightarrow>
            seq (bo_call B ''iam'' ''create_role'' (create_role_args (st_context st) name template)) (\<lambda>resp.
            seq (lift_result (rbind (json_item resp ''Role'') (\<lambda>r. json_item r ''Arn''))) (\<lambda>arn.
            ret (JObj [(''role_name'', case dict_get (st_context st) ''role_name'' of
                  Some v \<Rightarrow> v | None \<Rightarrow> JStr (''nhi-provisioned-'' @ py_str name)),
                (''role_arn'', arn), (''template'', name)])))))"

text \<open>\<open>any(...)\<close> over the tags stops at the first that matches.\<close>

fun managed_tags :: "json list \<Rightarrow> exn + bool" where
  "managed_tags [] = Inr False"
| "managed_tags (t # ts) = rbind (json_get t ''Key'' JNull) (\<lambda>k.
     if k \<noteq> JStr ''ManagedBy'' then managed_tags ts
     else rbind (json_get t ''Value'' JNull) (\<lambda>v. if v = JStr ''nhi-sentinel'' then Inr True else managed_tags ts))"

fun managed_roles :: "json list \<Rightarrow> exn + json list" where
  "managed_roles [] = Inr []"
| "managed_roles (r # rs) = rbind (rbind (rbind (json_get r ''Tags'' (JList [])) json_iter) managed_tags) (\<lambda>m.
     rbind (managed_roles rs) (\<lambda>rest. Inr (if m then r # rest else rest)))"

definition provisioner_handle_list_roles :: "'c boto \<Rightarrow> 'c handler" where
  "provisioner_handle_list_roles B st =
     seq (bo_call B ''iam'' ''list_roles'' []) (\<lambda>resp.
     seq (lift_result (rbind (rbind (json_get resp ''Roles'' (JList [])) json_iter) managed_roles)) (\<lambda>roles.
     seq (lift_result (rmap (\<lambda>r. json_item r ''RoleName'') roles)) (\<lambda>names.
     ret (listing ''roles'' names))))"

section \<open>The handler tables\<close>

definition data_handlers :: "'c boto \<Rightarrow> (string \<times> 'c handler) list" where
  "data_handlers B = [(''s3_list_buckets'', data_handle_s3_list B), (''s3_get_object'', data_handle_s3_get B),
     (''s3_put_object'', data_handle_s3_put B)]"

definition infra_handlers :: "'c boto \<Rightarrow> (string \<times> 'c handler) list" where
  "infra_handlers B = [(''ec2_describe_instances'', infra_handle_ec2_describe B),
     (''ec2_describe_security_groups'', infra_handle_ec2_describe_sg B),
     (''s3_list_buckets'', infra_handle_s3_list_buckets B), (''s3_get_object'', infra_handle_s3_get_object B)]"

definition secops_handlers :: "'c boto \<Rightarrow> (string \<times> 'c handler) list" where
  "secops_handlers B = [(''securityhub_get_findings'', secops_handle_securityhub_findings B),
     (''ec2_describe_security_groups'', secops_handle_describe_sgs B),
     (''iam_list_roles'', secops_handle_iam_list_roles B)]"

definition provisioner_handlers :: "(string \<times> pydict) list \<Rightarrow> 'c boto \<Rightarrow> (string \<times> 'c handler) list" where
  "provisioner_handlers templates B = [(''iam_create_role'', provisioner_handle_create_role templates B),
     (''iam_list_roles'', provisioner_handle_list_roles B)]"

end
