(* ===== verification/Handler_Properties.thy ===== *)
theory Handler_Properties
  imports Agent_Handlers
begin

text \<open>The properties of the tool handlers: which object, which buckets, which role.\<close>

section \<open>Replacing and splitting\<close>

lemma str_replace_prefix:
  assumes "old \<noteq> []" shows "str_replace old new (old @ s) = new @ str_replace old new s"
proof -
  obtain c cs where old: "old = c # cs" using assms by (cases old) auto
  show ?thesis by (subst str_replace.simps) (simp add: old)
qed

lemma str_replace_absent: "\<not> str_contains old s \<Longrightarrow> str_replace old new s = s"
  by (induction s) (auto simp: str_replace.simps)

lemma prefix_stops: "prefix p (xs @ c # ys) \<Longrightarrow> c \<notin> set p \<Longrightarrow> prefix p xs"
  by (induction xs arbitrary: p) (auto simp: prefix_Cons)

lemma sublist_parts:
  assumes "sublist p (xs @ c # ys)" and "c \<notin> set p" and "p \<noteq> []"
  shows "sublist p xs \<or> sublist p ys"
  using assms(1)
proof (induction xs)
  case Nil
  with assms(2,3) show ?case by (auto simp: sublist_Cons_right prefix_Cons)
next
  case (Cons x xs)
  then have "prefix p (x # xs) \<or> sublist p (xs @ c # ys)"
    using prefix_stops [of p "x # xs" c ys] assms(2) by (auto simp: sublist_Cons_right)
  with Cons.IH show ?case by (auto simp: sublist_Cons_right)
qed

lemma split_once_at: "c \<notin> set xs \<Longrightarrow> split_once c (xs @ c # ys) = [xs, ys]"
  by (induction xs) auto

lemma s3_prefix: "S3_PREFIX \<noteq> []" "CHR ''/'' \<notin> set S3_PREFIX" "CHR '':'' \<in> set S3_PREFIX"
  by code_simp+

lemma str_replace_step:
  "x \<noteq> CHR ''a'' \<Longrightarrow> str_replace S3_PREFIX new (x # xs) = x # str_replace S3_PREFIX new xs"
  by (subst str_replace.simps) (simp add: S3_PREFIX_def)

text \<open>Without a colon in front, an occurrence of the prefix begins after the slash.\<close>

lemma str_replace_bucket:
  assumes "CHR ''/'' \<notin> set b" "CHR '':'' \<notin> set b"
  shows "str_replace S3_PREFIX [] (b @ CHR ''/'' # k) = b @ CHR ''/'' # str_replace S3_PREFIX [] k"
  using assms
proof (induction b)
  case Nil
  show ?case by (simp add: str_replace_step)
next
  case (Cons x b)
  have "\<not> prefix S3_PREFIX (x # b @ CHR ''/'' # k)"
  proof
    assume "prefix S3_PREFIX (x # b @ CHR ''/'' # k)"
    then have "prefix S3_PREFIX (x # b)" using prefix_stops [of S3_PREFIX "x # b" "CHR ''/''" k] s3_prefix(2) by simp
    then have "set S3_PREFIX \<subseteq> set (x # b)" by (rule set_mono_prefix)
    with Cons.prems(2) s3_prefix(3) show False by blast
  qed
  with Cons show ?case by (simp add: str_replace.simps [of S3_PREFIX "[]" "x # b @ CHR ''/'' # k"] s3_prefix(1))
qed

section \<open>S3 objects\<close>

text \<open>
  C40: The handlers read the object that the ARN of the task names: for a bucket without slash or colon,
  the parts of \<open>arn:aws:s3:::bucket/key\<close> are the bucket and the key, unless the key itself contains
  \<open>arn:aws:s3:::\<close>, which is removed everywhere: then the handler reads another object than the one the PEP
  decided about, the one whose ARN lacks the inner prefix.
\<close>
theorem s3_arn_round_trip:
  assumes "CHR ''/'' \<notin> set bucket" and "CHR '':'' \<notin> set bucket" and "\<not> str_contains S3_PREFIX key"
  shows "parse_s3_arn msg (S3_PREFIX @ bucket @ ''/'' @ key) = Inr (bucket, key) \<and>
    data_handle_s3_get B (st\<lparr>st_resource_arn := S3_PREFIX @ bucket @ ''/'' @ S3_PREFIX @ key\<rparr>) =
    data_handle_s3_get B (st\<lparr>st_resource_arn := S3_PREFIX @ bucket @ ''/'' @ key\<rparr>)"
proof -
  have key: "str_replace S3_PREFIX [] key = key" by (rule str_replace_absent [OF assms(3)])
  have "parse_s3_arn m (S3_PREFIX @ bucket @ ''/'' @ key) = Inr (bucket, key)" for m
    using str_replace_bucket [OF assms(1,2), of key] split_once_at [OF assms(1), of key]
    by (simp add: parse_s3_arn_def str_replace_prefix [OF s3_prefix(1)] key)
  moreover have "parse_s3_arn m (S3_PREFIX @ bucket @ ''/'' @ S3_PREFIX @ key) = Inr (bucket, key)" for m
    using str_replace_bucket [OF assms(1,2), of "S3_PREFIX @ key"] split_once_at [OF assms(1), of key]
    by (simp add: parse_s3_arn_def str_replace_prefix [OF s3_prefix(1)] key)
  ultimately show ?thesis by (simp add: data_handle_s3_get_def get_object_def)
qed

theorem s3_arn_round_trip_witness:
  "parse_s3_arn '''' (S3_PREFIX @ ''data-01'' @ ''/'' @ ''in/a.csv'') = Inr (''data-01'', ''in/a.csv'')"
  by (rule s3_arn_round_trip [THEN conjunct1]) code_simp+

section \<open>Roles\<close>

text \<open>
  Further: ProvisionerAgent's create handler touches the cloud only with a call that creates a role for a template
  of its table: the name comes from the context, the trust policy it sends reads back as the template's
  document (or the EC2 default), and the tags name the template. Without such a template it raises.
\<close>
theorem roles_only_from_templates:
  assumes "provisioner_handle_create_role templates B st c = (x, c')"
  shows "(\<exists>e. x = Inl e \<and> c' = c) \<or>
    (\<exists>name template args doc. dict_get (st_context st) ''template_name'' = Some (JStr name) \<and>
       dict_get templates name = Some template \<and> c' = snd (bo_call B ''iam'' ''create_role'' args c) \<and>
       dict_get args ''AssumeRolePolicyDocument'' = Some (JStr doc) \<and>
       json_read doc = Some (case dict_get template ''assume_role_policy_document'' of
         Some v \<Rightarrow> v | None \<Rightarrow> default_assume_role_policy) \<and>
       (\<exists>ticket. dict_get args ''Tags'' = Some (JList [JObj [(''Key'', JStr ''ManagedBy''), (''Value'', JStr ''nhi-sentinel'')],
         JObj [(''Key'', JStr ''Template''), (''Value'', JStr name)], JObj [(''Key'', JStr ''TicketRef''), (''Value'', ticket)]])))"
proof -
  define name where "name = (case dict_get (st_context st) ''template_name'' of Some v \<Rightarrow> v | None \<Rightarrow> JNull)"
  show ?thesis
  proof (cases "truthy name \<and> (\<exists>t. template_of templates name = Inr (Some t))")
    case False
    then have "\<exists>e. x = Inl e \<and> c' = c"
      using assms unfolding provisioner_handle_create_role_def name_def [symmetric] Let_def
      by (cases "truthy name"; cases "template_of templates name") (auto simp: seq_def split: option.splits)
    then show ?thesis by (rule disjI1)
  next
    case True
    then obtain template where t: "truthy name" "template_of templates name = Inr (Some template)" by (elim conjE exE)
    then obtain s where s: "name = JStr s" "dict_get templates s = Some template"
      by (cases name) (auto simp: template_of_def)
    have ctx: "dict_get (st_context st) ''template_name'' = Some (JStr s)"
      using s(1) unfolding name_def by (auto split: option.splits)
    define args where "args = create_role_args (st_context st) name template"
    have "provisioner_handle_create_role templates B st =
        seq (bo_call B ''iam'' ''create_role'' args) (\<lambda>resp.
            seq (lift_result (rbind (json_item resp ''Role'') (\<lambda>r. json_item r ''Arn''))) (\<lambda>arn.
            ret (JObj [(''role_name'', case dict_get (st_context st) ''role_name'' of
                  Some v \<Rightarrow> v | None \<Rightarrow> JStr (''nhi-provisioned-'' @ py_str name)),
                (''role_arn'', arn), (''template'', name)])))"
      unfolding provisioner_handle_create_role_def name_def [symmetric] Let_def args_def using t by simp
    then have "c' = snd (bo_call B ''iam'' ''create_role'' args c)"
      using assms by (auto simp: seq_def lift_result_def split: prod.splits sum.splits)
    moreover have "dict_get args ''AssumeRolePolicyDocument'' = Some (JStr (role_policy template))"
      "\<exists>ticket. dict_get args ''Tags'' = Some (JList [JObj [(''Key'', JStr ''ManagedBy''), (''Value'', JStr ''nhi-sentinel'')],
         JObj [(''Key'', JStr ''Template''), (''Value'', JStr s)], JObj [(''Key'', JStr ''TicketRef''), (''Value'', ticket)]])"
      by (simp_all add: args_def create_role_args_def dict_get_def s(1))
    moreover have "json_read (role_policy template) = Some (case dict_get template ''assume_role_policy_document'' of
         Some v \<Rightarrow> v | None \<Rightarrow> default_assume_role_policy)" by (simp add: role_policy_def)
    ultimately show ?thesis using ctx s(2)
      by (intro disjI2 exI [of _ s] exI [of _ template] exI [of _ args] exI [of _ "role_policy template"] conjI)
  qed
qed

definition demo_boto :: "(string list) boto" where
  "demo_boto = \<lparr>bo_call = (\<lambda>service op args c. (Inr (JObj [(''Role'', JObj [(''Arn'', JStr ''arn'')])]), c @ [op])),
     bo_read = (\<lambda>_. ''''), bo_isoformat = (\<lambda>_. Inr '''')\<rparr>"

definition demo_role_state :: "string \<Rightarrow> agent_state" where
  "demo_role_state t = (initial_state ''iam_create_role'' ''arn'' ''t1'' ''staging'' None (Some [(''template_name'', JStr t)]))"

theorem roles_only_from_templates_witness:
  "\<exists>e. provisioner_handle_create_role [(''ec2-read'', [])] demo_boto (demo_role_state ''admin'') [] = (Inl e, [])"
proof -
  obtain x c' where run: "provisioner_handle_create_role [(''ec2-read'', [])] demo_boto (demo_role_state ''admin'') [] = (x, c')"
    by fastforce
  have "dict_get (st_context (demo_role_state ''admin'')) ''template_name'' = Some (JStr ''admin'')"
    "dict_get [(''ec2-read'', [] :: pydict)] ''admin'' = None" by code_simp+
  with roles_only_from_templates [OF run] have "\<exists>e. x = Inl e \<and> c' = []" by (elim disjE exE conjE) simp_all
  then obtain e where "x = Inl e" "c' = []" by (elim exE conjE)
  with run show ?thesis by (intro exI [of _ e]) simp
qed

section \<open>Buckets\<close>

lemma accessible_buckets_tags:
  "accessible_buckets B bs c = (Inr xs, c') \<Longrightarrow>
     \<forall>x\<in>set xs. \<exists>name tags. x = JObj [(''name'', name), (''tags'', JObj tags)] \<and> accessible tags"
proof (induction bs arbitrary: c xs)
  case Nil
  then show ?case by simp
next
  case (Cons b bs)
  from Cons.prems obtain tags c1 where t: "bucket_tags B b c = (Inr tags, c1)"
    and r: "(if accessible tags
     then seq (lift_result (json_item b ''Name'')) (\<lambda>name.
          seq (accessible_buckets B bs) (\<lambda>rest. ret (JObj [(''name'', name), (''tags'', JObj tags)] # rest)))
     else accessible_buckets B bs) c1 = (Inr xs, c')"
    unfolding accessible_buckets.simps by (rule seq_returns)
  show ?case
  proof (cases "accessible tags")
    case False
    with r have "accessible_buckets B bs c1 = (Inr xs, c')" by (simp only: if_False)
    then show ?thesis by (rule Cons.IH)
  next
    case True
    with r obtain name c2 ys where "accessible_buckets B bs c2 = (Inr ys, c')"
      "xs = JObj [(''name'', name), (''tags'', JObj tags)] # ys"
      by (auto elim!: seq_returns)
    with Cons.IH [of c2 ys] True show ?thesis by simp
  qed
qed

text \<open>
  Further: DataAgent's bucket list holds only buckets whose DataClassification tag is public or internal, each
  with its tags, and their number; a bucket whose tags cannot be read is left out.
\<close>
theorem data_agent_lists_accessible_buckets:
  assumes "data_handle_s3_list B st c = (Inr v, c')"
  shows "\<exists>xs. v = JObj [(''buckets'', JList xs), (''count'', JInt (int (length xs)))] \<and>
    (\<forall>x\<in>set xs. \<exists>name tags. x = JObj [(''name'', name), (''tags'', JObj tags)] \<and>
       (dict_get tags ''DataClassification'' = Some (JStr ''public'') \<or>
        dict_get tags ''DataClassification'' = Some (JStr ''internal'')))"
proof -
  obtain resp c1 where "seq (lift_result (rbind (json_get resp ''Buckets'' (JList [])) json_iter)) (\<lambda>bs.
     seq (accessible_buckets B bs) (\<lambda>buckets. ret (listing ''buckets'' buckets))) c1 = (Inr v, c')"
    using assms unfolding data_handle_s3_list_def by (rule seq_returns)
  then obtain bs c2 where "seq (accessible_buckets B bs) (\<lambda>buckets. ret (listing ''buckets'' buckets)) c2 = (Inr v, c')"
    by (rule seq_returns)
  then obtain xs c3 where xs: "accessible_buckets B bs c2 = (Inr xs, c3)" and v: "ret (listing ''buckets'' xs) c3 = (Inr v, c')"
    by (rule seq_returns)
  then show ?thesis using accessible_buckets_tags [OF xs] by (auto simp: listing_def accessible_def)
qed

definition demo_buckets :: "nat boto" where
  "demo_buckets = \<lparr>bo_call = (\<lambda>service op args c.
     (Inr (if op = ''list_buckets'' then JObj [(''Buckets'', JList [JObj [(''Name'', JStr ''a'')], JObj [(''Name'', JStr ''b'')]])]
       else JObj [(''TagSet'', if c = 1 then JList [JObj [(''Key'', JStr ''DataClassification''), (''Value'', JStr ''public'')]]
         else JList [])]), c + 1)), bo_read = (\<lambda>_. ''''), bo_isoformat = (\<lambda>_. Inr '''')\<rparr>"

theorem data_agent_lists_accessible_buckets_witness:
  "\<exists>v xs. data_handle_s3_list demo_buckets (demo_role_state ''t'') 0 = (Inr v, 3) \<and>
     v = JObj [(''buckets'', JList xs), (''count'', JInt (int (length xs)))] \<and> length xs = 1"
proof -
  let ?v = "JObj [(''buckets'', JList [JObj [(''name'', JStr ''a''), (''tags'', JObj [(''DataClassification'', JStr ''public'')])]]),
     (''count'', JInt 1)]"
  have run: "data_handle_s3_list demo_buckets (demo_role_state ''t'') 0 = (Inr ?v, 3)" by code_simp
  from data_agent_lists_accessible_buckets [OF run] obtain xs where
    xs: "?v = JObj [(''buckets'', JList xs), (''count'', JInt (int (length xs)))]" by (elim exE conjE)
  then have "length xs = 1" by simp
  with run xs show ?thesis by (intro exI [of _ ?v] exI [of _ xs] conjI)
qed

end
