(* ===== verification/Rego_Policy.thy ===== *)
theory Rego_Policy
  imports Base_Agent
begin

text \<open>
  The Rego policy the PEP asks for: \<open>policy/rego/nhi/main.rego\<close> and the packages it imports. A Rego expression
  that has no value is undefined, \<^const>\<open>None\<close>, and a rule is the values its bodies give. What is left open is the
  record \<open>rego\<close>: the clock, the order of two composite values, and which of an undefined member and a
  conflict in the same object the evaluator meets first.
\<close>

section \<open>Rego\<close>

record rego =
  rg_now_ns :: int
  rg_composite_less :: "json \<Rightarrow> json \<Rightarrow> bool"
  rg_undefined_first :: bool

definition dot :: "json option \<Rightarrow> string \<Rightarrow> json option" where
  "dot v k = (case v of Some (JObj d) \<Rightarrow> dict_get d k | _ \<Rightarrow> None)"

text \<open>An expression as a condition fails when it is undefined or false; \<open>not\<close> is the negation of that.\<close>

definition holds :: "json option \<Rightarrow> bool" where
  "holds v \<longleftrightarrow> v \<noteq> None \<and> v \<noteq> Some (JBool False)"

text \<open>\<open>v[_]\<close>, \<open>count\<close> and \<open>contains\<close>; a built-in on a value of another type is undefined.\<close>

definition elements :: "json option \<Rightarrow> json list" where
  "elements v = (case v of Some (JList xs) \<Rightarrow> xs | Some (JObj d) \<Rightarrow> map snd d | _ \<Rightarrow> [])"

definition rego_count :: "json option \<Rightarrow> nat option" where
  "rego_count v = (case v of
       Some (JList xs) \<Rightarrow> Some (length xs)
     | Some (JObj d) \<Rightarrow> Some (length d)
     | Some (JStr s) \<Rightarrow> Some (length s)
     | _ \<Rightarrow> None)"

definition nonempty :: "json option \<Rightarrow> bool" where
  "nonempty v \<longleftrightarrow> (case rego_count v of Some n \<Rightarrow> n > 0 | None \<Rightarrow> False)"

definition rego_contains :: "json option \<Rightarrow> string \<Rightarrow> bool" where
  "rego_contains v s \<longleftrightarrow> (case v of Some (JStr t) \<Rightarrow> str_contains s t | _ \<Rightarrow> False)"

text \<open>Values of different types are ordered by their types.\<close>

fun type_rank :: "json \<Rightarrow> nat" where
  "type_rank JNull = 0"
| "type_rank (JBool _) = 1"
| "type_rank (JInt _) = 2"
| "type_rank (JStr _) = 3"
| "type_rank (JList _) = 4"
| "type_rank (JObj _) = 5"

fun str_less :: "string \<Rightarrow> string \<Rightarrow> bool" where
  "str_less _ [] = False"
| "str_less [] (d # ds) = True"
| "str_less (c # cs) (d # ds) = ((of_char c :: nat) < of_char d \<or> c = d \<and> str_less cs ds)"

fun rego_less :: "rego \<Rightarrow> json \<Rightarrow> json \<Rightarrow> bool" where
  "rego_less E JNull JNull = False"
| "rego_less E (JBool a) (JBool b) = (\<not> a \<and> b)"
| "rego_less E (JInt a) (JInt b) = (a < b)"
| "rego_less E (JStr a) (JStr b) = str_less a b"
| "rego_less E a b = (if type_rank a = type_rank b then rg_composite_less E a b else type_rank a < type_rank b)"

text \<open>The values of the bodies of a complete rule that hold: more than one value is an error.\<close>

datatype 'a rule_value = Undefined | Value 'a | Conflict

definition complete_rule :: "'a list \<Rightarrow> 'a rule_value" where
  "complete_rule vs = (case remdups vs of [] \<Rightarrow> Undefined | [v] \<Rightarrow> Value v | _ \<Rightarrow> Conflict)"

definition with_default :: "'a \<Rightarrow> 'a rule_value \<Rightarrow> 'a rule_value" where
  "with_default x v = (case v of Undefined \<Rightarrow> Value x | _ \<Rightarrow> v)"

abbreviation body :: "bool \<Rightarrow> 'a \<Rightarrow> 'a list" where
  "body condition v \<equiv> (if condition then [v] else [])"

definition claim :: "json \<Rightarrow> string \<Rightarrow> json option" where
  "claim i k = dot (dot (Some i) ''token_claims'') k"

definition context_value :: "json \<Rightarrow> string \<Rightarrow> json option" where
  "context_value i k = dot (dot (Some i) ''context'') k"

section \<open>nhi.destructive\_gate\<close>

definition destructive_actions :: "string list" where
  "destructive_actions = [''s3:DeleteObject'', ''s3:DeleteBucket'', ''ec2:TerminateInstances'', ''iam:DeleteRole'',
     ''iam:DeleteUser'', ''iam:DetachRolePolicy'']"

definition iam_write_actions :: "string list" where
  "iam_write_actions = [''iam:CreateUser'', ''iam:AttachRolePolicy'']"

definition action_in :: "string list \<Rightarrow> json \<Rightarrow> bool" where
  "action_in as i \<longleftrightarrow> (case dot (Some i) ''action'' of Some (JStr a) \<Rightarrow> a \<in> set as | _ \<Rightarrow> False)"

definition is_provisioner :: "json \<Rightarrow> bool" where
  "is_provisioner i \<longleftrightarrow> dot (Some i) ''agent_type'' = Some (JStr ''ProvisionerAgent'')"

definition pre_approved :: "json \<Rightarrow> bool" where
  "pre_approved i \<longleftrightarrow> holds (context_value i ''pre_approved'')"

definition requires_approval :: "json \<Rightarrow> bool" where
  "requires_approval i \<longleftrightarrow>
     (action_in destructive_actions i \<and> \<not> pre_approved i) \<or>
     (action_in iam_write_actions i \<and> \<not> pre_approved i) \<or>
     (is_provisioner i \<and> \<not> pre_approved i)"

definition approval_reason :: "json \<Rightarrow> string rule_value" where
  "approval_reason i = complete_rule
     (body (action_in destructive_actions i \<and> \<not> pre_approved i) ''Destructive action requires human approval before execution'' @
      body (action_in iam_write_actions i \<and> \<not> pre_approved i) ''IAM write action requires human approval'' @
      body (is_provisioner i \<and> \<not> pre_approved i) ''ProvisionerAgent actions always require human approval'')"

section \<open>nhi.scope\_check\<close>

definition action_scope_map :: "(string \<times> string) list" where
  "action_scope_map =
     [(''s3:ListBuckets'', ''cloud:s3:list''), (''s3:GetObject'', ''cloud:s3:read''), (''s3:PutObject'', ''cloud:s3:write''),
      (''s3:DeleteObject'', ''cloud:s3:delete''), (''s3:DeleteBucket'', ''cloud:s3:delete''),
      (''ec2:DescribeInstances'', ''cloud:ec2:describe''), (''ec2:DescribeSecurityGroups'', ''cloud:ec2:describe''),
      (''ec2:TerminateInstances'', ''cloud:ec2:terminate''), (''ec2:StartInstances'', ''cloud:ec2:start''),
      (''iam:ListRoles'', ''cloud:iam:read''), (''iam:CreateRole'', ''cloud:iam:create-role''),
      (''iam:AttachRolePolicy'', ''cloud:iam:create-role''), (''iam:CreateUser'', ''cloud:iam:write''),
      (''iam:DeleteRole'', ''cloud:iam:write''), (''securityhub:GetFindings'', ''cloud:securityhub:read''),
      (''guardduty:ListFindings'', ''cloud:guardduty:read''),
      (''config:DescribeComplianceByResource'', ''cloud:config:read''),
      (''cloudtrail:LookupEvents'', ''cloud:cloudtrail:read'')]"

definition required_scope :: "json \<Rightarrow> string option" where
  "required_scope i = (case dot (Some i) ''action'' of Some (JStr a) \<Rightarrow> dict_get action_scope_map a | _ \<Rightarrow> None)"

definition action_in_scope :: "json \<Rightarrow> bool" where
  "action_in_scope i \<longleftrightarrow> (case required_scope i of
       None \<Rightarrow> False
     | Some s \<Rightarrow> rego_contains (claim i ''scope'') s \<or> JStr s \<in> set (elements (claim i ''scopes'')))"

definition scope_deny_reason :: "json \<Rightarrow> string rule_value" where
  "scope_deny_reason i = complete_rule
     (body (required_scope i = None) ''Action is not registered in the scope map'' @
      body (required_scope i \<noteq> None \<and> \<not> action_in_scope i) ''Required scope not present in token'')"

section \<open>nhi.time\_window\<close>

text \<open>\<open>time.clock([ns, "UTC"])[0]\<close>.\<close>

definition utc_hour :: "int \<Rightarrow> int" where
  "utc_hour ns = ns div (3600 * 10 ^ 9) mod 24"

definition within_window :: "rego \<Rightarrow> json \<Rightarrow> bool" where
  "within_window E i \<longleftrightarrow>
     \<not> holds (context_value i ''time_window'') \<or>
     (dot (Some i) ''agent_type'' = Some (JStr ''SecOpsAgent'') \<and> holds (context_value i ''incident_id'')) \<or>
     (case (dot (context_value i ''time_window'') ''start_hour_utc'', dot (context_value i ''time_window'') ''end_hour_utc'') of
        (Some a, Some b) \<Rightarrow> \<not> rego_less E (JInt (utc_hour (rg_now_ns E))) a \<and> rego_less E (JInt (utc_hour (rg_now_ns E))) b
      | _ \<Rightarrow> False)"

definition window_deny_reason :: "rego \<Rightarrow> json \<Rightarrow> string rule_value" where
  "window_deny_reason E i = complete_rule
     (body (\<not> within_window E i) (''Action is outside the agent'' @ [CHR 0x27] @ ''s declared operating time window''))"

section \<open>nhi.task\_scope\<close>

definition task_is_active :: "json \<Rightarrow> bool" where
  "task_is_active i \<longleftrightarrow> nonempty (dot (Some i) ''task_id'')"

definition environment_allowed :: "json \<Rightarrow> bool" where
  "environment_allowed i \<longleftrightarrow>
     \<not> holds (context_value i ''allowed_environments'') \<or>
     (case dot (Some i) ''environment'' of Some v \<Rightarrow> v \<in> set (elements (context_value i ''allowed_environments'')) | None \<Rightarrow> False)"

definition task_deny_reason :: "json \<Rightarrow> string rule_value" where
  "task_deny_reason i = complete_rule
     (body (\<not> task_is_active i) ''No active task_id bound to this request'' @
      body (task_is_active i \<and> \<not> environment_allowed i)
        (''Environment not in agent'' @ [CHR 0x27] @ ''s declared allowed environments''))"

section \<open>nhi.rate\_limit\<close>

definition max_actions_per_minute :: "json \<Rightarrow> json" where
  "max_actions_per_minute i =
     (if holds (context_value i ''max_actions_per_minute'') then the (context_value i ''max_actions_per_minute'') else JInt 30)"

definition within_rate_limit :: "rego \<Rightarrow> json \<Rightarrow> bool" where
  "within_rate_limit E i \<longleftrightarrow>
     \<not> holds (context_value i ''current_action_count_per_minute'') \<or>
     (case context_value i ''current_action_count_per_minute'' of
        Some n \<Rightarrow> rego_less E n (max_actions_per_minute i)
      | None \<Rightarrow> False)"

definition rate_deny_reason :: "rego \<Rightarrow> json \<Rightarrow> string rule_value" where
  "rate_deny_reason E i = complete_rule
     (body (\<not> within_rate_limit E i) ''Agent has exceeded its declared action rate limit'')"

section \<open>nhi.agent.authorization\<close>

definition valid_token :: "json \<Rightarrow> bool" where
  "valid_token i \<longleftrightarrow>
     (claim i ''active'' = Some (JBool True) \<and> claim i ''agent_id'' \<noteq> None \<and> claim i ''agent_id'' = dot (Some i) ''agent_id'') \<or>
     (nonempty (dot (Some i) ''token_claims'') \<and> \<not> holds (claim i ''active''))"

definition gates_pass :: "rego \<Rightarrow> json \<Rightarrow> bool" where
  "gates_pass E i \<longleftrightarrow> valid_token i \<and> action_in_scope i \<and> within_window E i \<and> task_is_active i \<and>
     environment_allowed i \<and> within_rate_limit E i"

definition policy_effect :: "rego \<Rightarrow> json \<Rightarrow> string rule_value" where
  "policy_effect E i = with_default ''DENY'' (complete_rule
     (body (gates_pass E i \<and> \<not> requires_approval i) ''ALLOW'' @
      body (gates_pass E i \<and> requires_approval i) ''REQUIRE_APPROVAL''))"

text \<open>A body whose head is the value of another rule: its values, or that rule's conflict.\<close>

definition via :: "bool \<Rightarrow> string rule_value \<Rightarrow> string list option" where
  "via condition v = (if condition then (case v of Undefined \<Rightarrow> Some [] | Value x \<Rightarrow> Some [x] | Conflict \<Rightarrow> None)
     else Some [])"

definition policy_reason :: "rego \<Rightarrow> json \<Rightarrow> string rule_value" where
  "policy_reason E i = (case those
     [Some (body (\<not> valid_token i) ''Token is invalid or agent is not in ACTIVE state''),
      via (valid_token i) (scope_deny_reason i),
      via (valid_token i \<and> action_in_scope i) (window_deny_reason E i),
      via (valid_token i \<and> action_in_scope i \<and> within_window E i) (task_deny_reason i),
      via (valid_token i \<and> action_in_scope i \<and> within_window E i \<and> task_is_active i) (rate_deny_reason E i),
      via (valid_token i \<and> action_in_scope i \<and> within_window E i \<and> task_is_active i \<and> within_rate_limit E i) (approval_reason i)] of
       None \<Rightarrow> Conflict
     | Some vs \<Rightarrow> with_default ''Action denied by policy'' (complete_rule (concat vs)))"

definition condition_value :: "string \<Rightarrow> json" where
  "condition_value name = JObj [(''name'', JStr name), (''result'', JBool True)]"

text \<open>
  The members of \<open>response\<close>: an undefined one makes the whole object undefined. None of the five conditions
  has a default, so each is true or undefined.
\<close>

definition conditions_hold :: "rego \<Rightarrow> json \<Rightarrow> bool" where
  "conditions_hold E i \<longleftrightarrow> valid_token i \<and> action_in_scope i \<and> within_window E i \<and> task_is_active i \<and> within_rate_limit E i"

definition response :: "rego \<Rightarrow> json \<Rightarrow> json rule_value" where
  "response E i = (case (policy_effect E i, policy_reason E i) of
       (Value e, Value r) \<Rightarrow>
         (if conditions_hold E i
          then Value (JObj [(''effect'', JStr e), (''reason'', JStr r), (''policy_ref'', JStr ''nhi.agent.authorization''),
             (''policy_version'', JStr ''2.0.0''), (''evaluated_at'', JInt (rg_now_ns E)),
             (''conditions_evaluated'', JList (map condition_value
               [''valid_token'', ''action_in_scope'', ''within_time_window'', ''task_is_active'', ''within_rate_limit'']))])
          else Undefined)
     | _ \<Rightarrow> if \<not> conditions_hold E i \<and> rg_undefined_first E then Undefined else Conflict)"

text \<open>What OPA's REST API answers: an undefined document is an empty object, an evaluation error is status 500.\<close>

definition shipped_opa :: "rego \<Rightarrow> action_request \<Rightarrow> opa_reply" where
  "shipped_opa E q = (case response E (dump_request q) of
       Value v \<Rightarrow> OpaBody (Some (JObj [(''result'', v)]))
     | Undefined \<Rightarrow> OpaBody (Some (JObj []))
     | Conflict \<Rightarrow> OpaStatusError 500)"

end
