(* ===== verification/Cedar_Policies.thy ===== *)
theory Cedar_Policies
  imports Cedar_Evaluator
begin

text \<open>
  The Cedar policies \<open>policy/cedar/s3_resource_policy.cedar\<close> and \<open>iam_resource_policy.cedar\<close>, as terms of the part of
  the Cedar language they use. An expression that fails (a missing attribute, an operand of the wrong
  type) is \<^const>\<open>None\<close>; a policy whose condition fails is skipped. A request is allowed if a permit is satisfied
  and no forbid is.
\<close>

section \<open>The language\<close>

datatype var = Principal | Resource

datatype cedar_expr =
    Text string
  | Texts "string list"
  | Attr var string
  | Equals cedar_expr cedar_expr
  | Differs cedar_expr cedar_expr
  | In cedar_expr cedar_expr
  | And cedar_expr cedar_expr

datatype cedar_value = VText string | VTexts "string list" | VBool bool

definition attribute :: "cedar_request \<Rightarrow> var \<Rightarrow> string \<Rightarrow> string option" where
  "attribute q x k = (case x of
       Principal \<Rightarrow> if k = ''agent_type'' then Some (cp_agent_type (cq_principal q)) else None
     | Resource \<Rightarrow> dict_get (cr_attributes (cq_resource q)) k)"

definition as_bool :: "cedar_value option \<Rightarrow> bool option" where
  "as_bool v = (case v of Some (VBool b) \<Rightarrow> Some b | _ \<Rightarrow> None)"

text \<open>\<open>in\<close> is the hierarchy of entities: both operands here are texts or sets of texts, which is a type error.\<close>

fun cedar_eval :: "cedar_request \<Rightarrow> cedar_expr \<Rightarrow> cedar_value option" where
  "cedar_eval q (Text s) = Some (VText s)"
| "cedar_eval q (Texts ss) = Some (VTexts ss)"
| "cedar_eval q (Attr x k) = map_option VText (attribute q x k)"
| "cedar_eval q (Equals a b) = (case (cedar_eval q a, cedar_eval q b) of (Some v, Some w) \<Rightarrow> Some (VBool (v = w)) | _ \<Rightarrow> None)"
| "cedar_eval q (Differs a b) = (case (cedar_eval q a, cedar_eval q b) of (Some v, Some w) \<Rightarrow> Some (VBool (v \<noteq> w)) | _ \<Rightarrow> None)"
| "cedar_eval q (In a b) = None"
| "cedar_eval q (And a b) = (case as_bool (cedar_eval q a) of
       None \<Rightarrow> None
     | Some False \<Rightarrow> Some (VBool False)
     | Some True \<Rightarrow> map_option VBool (as_bool (cedar_eval q b)))"

datatype effect = Permit | Forbid

text \<open>The scope: any action or one of a list, any resource or one of a type; all principals are agents.\<close>

record cedar_policy =
  pl_effect :: effect
  pl_actions :: "string list option"
  pl_resource_type :: "string option"
  pl_when :: "cedar_expr option"

definition in_scope :: "cedar_request \<Rightarrow> cedar_policy \<Rightarrow> bool" where
  "in_scope q p \<longleftrightarrow> (case pl_actions p of None \<Rightarrow> True | Some as \<Rightarrow> cq_action q \<in> set as) \<and>
     (case pl_resource_type p of None \<Rightarrow> True | Some t \<Rightarrow> cr_resource_type (cq_resource q) = t)"

definition satisfied :: "cedar_request \<Rightarrow> cedar_policy \<Rightarrow> bool" where
  "satisfied q p \<longleftrightarrow> in_scope q p \<and> (case pl_when p of None \<Rightarrow> True | Some c \<Rightarrow> as_bool (cedar_eval q c) = Some True)"

definition cedar_allows :: "cedar_policy list \<Rightarrow> cedar_request \<Rightarrow> bool" where
  "cedar_allows ps q \<longleftrightarrow> list_ex (\<lambda>p. pl_effect p = Permit \<and> satisfied q p) ps \<and>
     \<not> list_ex (\<lambda>p. pl_effect p = Forbid \<and> satisfied q p) ps"

definition policy :: "effect \<Rightarrow> string list option \<Rightarrow> string option \<Rightarrow> cedar_expr option \<Rightarrow> cedar_policy" where
  "policy e as t c = \<lparr>pl_effect = e, pl_actions = as, pl_resource_type = t, pl_when = c\<rparr>"

definition agent_type_is :: "string \<Rightarrow> cedar_expr" where
  "agent_type_is t = Equals (Attr Principal ''agent_type'') (Text t)"

definition classified_as :: "string list \<Rightarrow> cedar_expr" where
  "classified_as ts = In (Attr Resource ''DataClassification'') (Texts ts)"

section \<open>The shipped policies\<close>

definition S3_POLICIES :: "cedar_policy list" where
  "S3_POLICIES =
     [policy Permit (Some [''s3:ListBuckets'', ''s3:GetObject'']) (Some ''NHI::S3Bucket'')
        (Some (And (agent_type_is ''InfraAgent'') (classified_as [''public'', ''internal'']))),
      policy Permit (Some [''s3:GetObject'', ''s3:PutObject'', ''s3:ListBuckets'']) (Some ''NHI::S3Bucket'')
        (Some (And (agent_type_is ''DataAgent'') (classified_as [''public'', ''internal'']))),
      policy Forbid None (Some ''NHI::S3Bucket'') (Some (classified_as [''confidential'', ''restricted''])),
      policy Forbid None (Some ''NHI::S3Bucket'') (Some (Equals (Attr Resource ''Environment'') (Text ''prod'')))]"

definition IAM_POLICIES :: "cedar_policy list" where
  "IAM_POLICIES =
     [policy Permit (Some [''iam:CreateRole'']) (Some ''NHI::IAMRole'')
        (Some (And (And (agent_type_is ''ProvisionerAgent'') (Equals (Attr Resource ''managed_by'') (Text ''nhi-sentinel'')))
           (Differs (Attr Resource ''template_name'') (Text '''')))),
      policy Permit (Some [''iam:ListRoles'']) (Some ''NHI::IAMRole'')
        (Some (In (Attr Principal ''agent_type'') (Texts [''InfraAgent'', ''SecOpsAgent'']))),
      policy Forbid None (Some ''NHI::IAMRole'') (Some (agent_type_is ''DataAgent'')),
      policy Forbid (Some [''iam:CreatePolicy'', ''iam:PutUserPolicy'', ''iam:AttachUserPolicy'']) None None,
      policy Forbid (Some [''iam:CreateUser'', ''iam:DeleteUser'', ''iam:UpdateAssumeRolePolicy'']) None None]"

text \<open>The policies of the file the evaluator selects, and the output of the binary for a decision.\<close>

definition shipped_policies :: "string \<Rightarrow> cedar_policy list" where
  "shipped_policies action = (if action \<in> set S3_ACTIONS then S3_POLICIES else IAM_POLICIES)"

definition verdict_text :: "bool \<Rightarrow> string" where
  "verdict_text allowed = (if allowed then ''ALLOW'' else ''DENY'')"

section \<open>What they allow\<close>

lemma not_in [simp]: "as_bool (cedar_eval q (In a b)) = None"
  by (simp add: as_bool_def)

lemma and_true: "as_bool (cedar_eval q (And a b)) = Some True \<longleftrightarrow>
   as_bool (cedar_eval q a) = Some True \<and> as_bool (cedar_eval q b) = Some True"
  by (cases "as_bool (cedar_eval q a)"; cases "as_bool (cedar_eval q b)") (auto simp: as_bool_def split: bool.splits option.splits cedar_value.splits)

lemma equals_text: "as_bool (cedar_eval q (Equals (Attr x k) (Text s))) = Some True \<longleftrightarrow> attribute q x k = Some s"
  by (cases "attribute q x k") (simp_all add: as_bool_def)

lemma differs_text: "as_bool (cedar_eval q (Differs (Attr x k) (Text s))) = Some True \<longleftrightarrow> (\<exists>t. attribute q x k = Some t \<and> t \<noteq> s)"
  by (cases "attribute q x k") (simp_all add: as_bool_def)

lemma s3_policies_allow_nothing: "\<not> cedar_allows S3_POLICIES q"
proof -
  have "\<not> satisfied q p" if "p \<in> set (take 2 S3_POLICIES)" for p
    using that by (auto simp: S3_POLICIES_def policy_def satisfied_def and_true classified_as_def simp del: cedar_eval.simps)
  moreover have "pl_effect p = Forbid" if "p \<in> set (drop 2 S3_POLICIES)" for p
    using that by (auto simp: S3_POLICIES_def policy_def)
  moreover have "set S3_POLICIES = set (take 2 S3_POLICIES) \<union> set (drop 2 S3_POLICIES)"
    by (metis append_take_drop_id set_append)
  ultimately show ?thesis unfolding cedar_allows_def list_ex_iff by (metis UnE effect.distinct(1))
qed

lemma iam_policies_allow:
  "cedar_allows IAM_POLICIES q \<longleftrightarrow> cq_action q = ''iam:CreateRole'' \<and> cr_resource_type (cq_resource q) = ''NHI::IAMRole'' \<and>
     cp_agent_type (cq_principal q) = ''ProvisionerAgent'' \<and>
     dict_get (cr_attributes (cq_resource q)) ''managed_by'' = Some ''nhi-sentinel'' \<and>
     (\<exists>t. dict_get (cr_attributes (cq_resource q)) ''template_name'' = Some t \<and> t \<noteq> '''')"
  by (auto simp: cedar_allows_def IAM_POLICIES_def policy_def satisfied_def in_scope_def and_true equals_text differs_text
      agent_type_is_def attribute_def simp del: cedar_eval.simps)

end
