(* ===== verification/Policy_Properties.thy ===== *)
theory Policy_Properties
  imports Rego_Policy Cedar_Policies Agent_Properties
begin

text \<open>
  What the shipped Rego and Cedar policies answer for every request, and what becomes of their answers in the PEP.
\<close>

section \<open>The rules\<close>

lemma complete_rule_simps [simp]:
  "complete_rule [] = Undefined" "complete_rule [v] = Value v"
  "complete_rule [v, w] = (if v = w then Value v else Conflict)"
  by (simp_all add: complete_rule_def)

lemma in_scope_registered: "action_in_scope i \<Longrightarrow> required_scope i \<noteq> None"
  by (cases "required_scope i") (simp_all add: action_in_scope_def)

lemma scope_deny_reason_in_scope: "scope_deny_reason i = Undefined \<longleftrightarrow> action_in_scope i"
  by (cases "required_scope i = None"; cases "action_in_scope i") (auto simp: scope_deny_reason_def action_in_scope_def)

lemma scope_deny_reason_value: "\<not> action_in_scope i \<Longrightarrow> \<exists>r. scope_deny_reason i = Value r"
  by (cases "required_scope i = None") (simp_all add: scope_deny_reason_def)

lemma window_deny_reason_cases:
  "within_window E i \<Longrightarrow> window_deny_reason E i = Undefined"
  "\<not> within_window E i \<Longrightarrow> \<exists>r. window_deny_reason E i = Value r"
  by (simp_all add: window_deny_reason_def)

lemma task_deny_reason_cases:
  "task_is_active i \<Longrightarrow> environment_allowed i \<Longrightarrow> task_deny_reason i = Undefined"
  "task_is_active i \<Longrightarrow> \<not> environment_allowed i \<Longrightarrow>
     task_deny_reason i = Value (''Environment not in agent'' @ [CHR 0x27] @ ''s declared allowed environments'')"
  "\<not> task_is_active i \<Longrightarrow> task_deny_reason i = Value ''No active task_id bound to this request''"
  by (simp_all add: task_deny_reason_def)

lemma rate_deny_reason_cases:
  "within_rate_limit E i \<Longrightarrow> rate_deny_reason E i = Undefined"
  "\<not> within_rate_limit E i \<Longrightarrow> rate_deny_reason E i = Value ''Agent has exceeded its declared action rate limit''"
  by (simp_all add: rate_deny_reason_def)

lemma approval_reason_undefined: "approval_reason i = Undefined \<longleftrightarrow> \<not> requires_approval i"
  by (auto simp: approval_reason_def requires_approval_def complete_rule_def split: list.splits)

lemma approval_reason_value:
  assumes "approval_reason i = Value r"
  shows "r \<in> set [''Destructive action requires human approval before execution'', ''IAM write action requires human approval'',
    ''ProvisionerAgent actions always require human approval'']"
proof -
  have "r \<in> set vs" if "complete_rule vs = Value r" for vs
  proof -
    from that have "remdups vs = [r]" by (auto simp: complete_rule_def split: list.splits)
    then show ?thesis by (metis list.set_intros(1) set_remdups)
  qed
  from this [OF assms [unfolded approval_reason_def]] show ?thesis by (auto split: if_splits)
qed

lemma policy_effect_value:
  "policy_effect E i = Value (if gates_pass E i then if requires_approval i then ''REQUIRE_APPROVAL'' else ''ALLOW'' else ''DENY'')"
  by (simp add: policy_effect_def with_default_def)

text \<open>The reason: which requests make two of its bodies disagree.\<close>

definition up_to_task :: "rego \<Rightarrow> json \<Rightarrow> bool" where
  "up_to_task E i \<longleftrightarrow> valid_token i \<and> action_in_scope i \<and> within_window E i \<and> task_is_active i"

lemma conditions_hold_up_to_task: "conditions_hold E i \<longleftrightarrow> up_to_task E i \<and> within_rate_limit E i"
  by (auto simp: conditions_hold_def up_to_task_def)

lemma gates_pass_up_to_task: "gates_pass E i \<longleftrightarrow> conditions_hold E i \<and> environment_allowed i"
  by (auto simp: gates_pass_def conditions_hold_def)

lemma via_simps [simp]:
  "via False v = Some []" "via True Undefined = Some []" "via True (Value x) = Some [x]" "via True Conflict = None"
  by (simp_all add: via_def)

lemma policy_reason_early: "\<not> up_to_task E i \<Longrightarrow> \<exists>r. policy_reason E i = Value r"
proof -
  assume "\<not> up_to_task E i"
  then consider "\<not> valid_token i" | "valid_token i" "\<not> action_in_scope i"
    | "valid_token i" "action_in_scope i" "\<not> within_window E i"
    | "valid_token i" "action_in_scope i" "within_window E i" "\<not> task_is_active i" unfolding up_to_task_def by blast
  then show ?thesis
  proof cases
    case 1
    then show ?thesis by (simp add: policy_reason_def with_default_def)
  next
    case 2
    from scope_deny_reason_value [OF 2(2)] obtain r where "scope_deny_reason i = Value r" by (elim exE)
    with 2 show ?thesis by (simp add: policy_reason_def with_default_def)
  next
    case 3
    from window_deny_reason_cases(2) [OF 3(3)] obtain r where "window_deny_reason E i = Value r" by (elim exE)
    with 3 scope_deny_reason_in_scope [of i] show ?thesis by (simp add: policy_reason_def with_default_def)
  next
    case 4
    with task_deny_reason_cases(3) [of i] scope_deny_reason_in_scope [of i] window_deny_reason_cases(1) [of E i] show ?thesis
      by (simp add: policy_reason_def with_default_def)
  qed
qed

lemma policy_reason_late:
  assumes "up_to_task E i"
  shows "policy_reason E i = (case those [via True (task_deny_reason i), via True (rate_deny_reason E i),
     via (within_rate_limit E i) (approval_reason i)] of
       None \<Rightarrow> Conflict | Some vs \<Rightarrow> with_default ''Action denied by policy'' (complete_rule (concat vs)))"
proof -
  have c: "valid_token i" "action_in_scope i" "within_window E i" "task_is_active i" using assms by (simp_all add: up_to_task_def)
  with scope_deny_reason_in_scope [of i] window_deny_reason_cases(1) [OF c(3)] show ?thesis
    unfolding policy_reason_def by (simp add: option.case_eq_if)
qed

lemma policy_reason_cases:
  assumes "up_to_task E i"
  shows "environment_allowed i \<Longrightarrow> within_rate_limit E i \<Longrightarrow> policy_reason E i = with_default ''Action denied by policy'' (approval_reason i)"
    and "environment_allowed i \<Longrightarrow> \<not> within_rate_limit E i \<Longrightarrow> \<exists>r. policy_reason E i = Value r"
    and "\<not> environment_allowed i \<Longrightarrow> within_rate_limit E i \<Longrightarrow> requires_approval i \<Longrightarrow> policy_reason E i = Conflict"
    and "\<not> environment_allowed i \<Longrightarrow> within_rate_limit E i \<Longrightarrow> \<not> requires_approval i \<Longrightarrow> \<exists>r. policy_reason E i = Value r"
    and "\<not> environment_allowed i \<Longrightarrow> \<not> within_rate_limit E i \<Longrightarrow> policy_reason E i = Conflict"
proof -
  note late = policy_reason_late [OF assms]
  have active: "task_is_active i" using assms by (simp add: up_to_task_def)
  note task = task_deny_reason_cases(1,2) [OF active]
  show "environment_allowed i \<Longrightarrow> within_rate_limit E i \<Longrightarrow> policy_reason E i = with_default ''Action denied by policy'' (approval_reason i)"
    unfolding late by (cases "approval_reason i") (simp_all add: task rate_deny_reason_cases(1) with_default_def)
  show "environment_allowed i \<Longrightarrow> \<not> within_rate_limit E i \<Longrightarrow> \<exists>r. policy_reason E i = Value r"
    unfolding late by (simp add: task rate_deny_reason_cases(2) with_default_def)
  show "\<not> environment_allowed i \<Longrightarrow> within_rate_limit E i \<Longrightarrow> requires_approval i \<Longrightarrow> policy_reason E i = Conflict"
  proof -
    assume c: "\<not> environment_allowed i" "within_rate_limit E i" "requires_approval i"
    then have "approval_reason i \<noteq> Undefined" using approval_reason_undefined by blast
    then show ?thesis
    proof (cases "approval_reason i")
      case (Value r)
      from approval_reason_value [OF Value] have "r \<noteq> ''Environment not in agent'' @ [CHR 0x27] @ ''s declared allowed environments''"
        by auto
      with c Value show ?thesis unfolding late by (simp add: task rate_deny_reason_cases(1) with_default_def)
    next
      case Conflict
      with c show ?thesis unfolding late by (simp add: task rate_deny_reason_cases(1))
    qed simp
  qed
  show "\<not> environment_allowed i \<Longrightarrow> within_rate_limit E i \<Longrightarrow> \<not> requires_approval i \<Longrightarrow> \<exists>r. policy_reason E i = Value r"
    unfolding late approval_reason_undefined [symmetric] by (simp add: task rate_deny_reason_cases(1) with_default_def)
  show "\<not> environment_allowed i \<Longrightarrow> \<not> within_rate_limit E i \<Longrightarrow> policy_reason E i = Conflict"
    unfolding late by (simp add: task rate_deny_reason_cases(2) with_default_def)
qed

section \<open>The answers\<close>

lemma approval_reason_conflict:
  "approval_reason i = Conflict \<longleftrightarrow> \<not> pre_approved i \<and> is_provisioner i \<and> (action_in destructive_actions i \<or> action_in iam_write_actions i)"
proof -
  have "list_all (\<lambda>a. a \<notin> set iam_write_actions) destructive_actions" by code_simp
  then have disjoint: "\<not> (action_in destructive_actions i \<and> action_in iam_write_actions i)"
    unfolding list_all_iff by (auto simp: action_in_def split: option.splits json.splits)
  show ?thesis
    by (cases "action_in destructive_actions i"; cases "action_in iam_write_actions i"; cases "is_provisioner i"; cases "pre_approved i")
      (use disjoint in \<open>simp_all add: approval_reason_def\<close>)
qed

definition decided_as :: "string \<Rightarrow> json rule_value \<Rightarrow> bool" where
  "decided_as e v \<longleftrightarrow> (\<exists>d n. v = Value (JObj d) \<and> dict_get d ''effect'' = Some (JStr e) \<and> dict_get d ''evaluated_at'' = Some (JInt n))"

lemma response_value:
  assumes "policy_effect E i = Value e" "policy_reason E i = Value r" "conditions_hold E i"
  shows "decided_as e (response E i)"
  using assms by (simp add: response_def decided_as_def dict_get_def)

lemma response_cases:
  "\<not> conditions_hold E i \<Longrightarrow> response E i = Undefined \<or> response E i = Conflict"
  "conditions_hold E i \<Longrightarrow> policy_reason E i = Conflict \<Longrightarrow> response E i = Conflict"
  by (auto simp: response_def split: rule_value.splits)

lemma response_decides:
  "if \<not> conditions_hold E i then response E i = Undefined \<or> response E i = Conflict
   else if \<not> environment_allowed i then
     if requires_approval i then response E i = Conflict else decided_as ''DENY'' (response E i)
   else if approval_reason i = Conflict then response E i = Conflict
   else decided_as (if requires_approval i then ''REQUIRE_APPROVAL'' else ''ALLOW'') (response E i)"
proof (cases "conditions_hold E i")
  case False
  with response_cases(1) [of E i] show ?thesis by simp
next
  case True
  then have task: "up_to_task E i" and rate: "within_rate_limit E i" by (simp_all add: conditions_hold_up_to_task)
  note reason = policy_reason_cases [OF task]
  show ?thesis
  proof (cases "environment_allowed i")
    case False
    then have deny: "policy_effect E i = Value ''DENY''" by (simp add: policy_effect_value gates_pass_up_to_task)
    show ?thesis
    proof (cases "requires_approval i")
      case yes: True
      with reason(3) [OF False rate] response_cases(2) [OF True] True False show ?thesis by simp
    next
      case no: False
      from reason(4) [OF False rate no] obtain r where "policy_reason E i = Value r" by (elim exE)
      from response_value [OF deny this True] no True False show ?thesis by simp
    qed
  next
    case env: True
    note r = reason(1) [OF env rate]
    have gates: "gates_pass E i" using True env by (simp add: gates_pass_up_to_task)
    show ?thesis
    proof (cases "approval_reason i")
      case Conflict
      with r have "policy_reason E i = Conflict" by (simp add: with_default_def)
      with response_cases(2) [OF True] True env Conflict show ?thesis by simp
    next
      case Undefined
      then have no: "\<not> requires_approval i" using approval_reason_undefined by blast
      have "policy_effect E i = Value ''ALLOW''" using gates no by (simp add: policy_effect_value)
      moreover have "policy_reason E i = Value ''Action denied by policy''" using r Undefined by (simp add: with_default_def)
      ultimately have "decided_as ''ALLOW'' (response E i)" using True by (rule response_value)
      with True env no Undefined show ?thesis by simp
    next
      case (Value x)
      then have yes: "requires_approval i" using approval_reason_undefined by (metis rule_value.distinct(1))
      have "policy_effect E i = Value ''REQUIRE_APPROVAL''" using gates yes by (simp add: policy_effect_value)
      moreover have "policy_reason E i = Value x" using r Value by (simp add: with_default_def)
      ultimately have "decided_as ''REQUIRE_APPROVAL'' (response E i)" using True by (rule response_value)
      with True env yes Value show ?thesis by simp
    qed
  qed
qed

definition answers :: "string \<Rightarrow> opa_reply \<Rightarrow> bool" where
  "answers e reply \<longleftrightarrow> (case reply of
       OpaBody (Some (JObj b)) \<Rightarrow> (case dict_get b ''result'' of
           Some (JObj d) \<Rightarrow> dict_get d ''effect'' = Some (JStr e)
         | _ \<Rightarrow> False)
     | _ \<Rightarrow> False)"

lemma decided_answers: "decided_as e (response E (dump_request q)) \<Longrightarrow> answers e (shipped_opa E q)"
  by (auto simp: decided_as_def answers_def shipped_opa_def dict_get_def)

lemma failed_answers:
  "response E (dump_request q) = Undefined \<Longrightarrow> shipped_opa E q = OpaBody (Some (JObj []))"
  "response E (dump_request q) = Conflict \<Longrightarrow> shipped_opa E q = OpaStatusError 500"
  by (simp_all add: shipped_opa_def)

lemma failed_answers_nothing: "\<not> answers e (OpaBody (Some (JObj [])))" "\<not> answers e (OpaStatusError s)"
  by (simp_all add: answers_def dict_get_def)

lemma answers_unique: "answers e r \<Longrightarrow> answers f r \<Longrightarrow> e = f"
  by (auto simp: answers_def split: opa_reply.splits option.splits json.splits)

text \<open>
  C9: What the shipped policy answers, for every request. A denial because of the token, the scope, the time window, the
  task or the rate limit is not an answer with DENY: a member of the response object is undefined, so the
  answer is an empty object (or status 500). DENY is only answered for an environment that is not allowed, and
  if the action also needs approval, the two reasons conflict and the answer is status 500, as it is for
  an action of the provisioner that is destructive or writes to IAM.
\<close>
theorem policy_answers:
  "if \<not> conditions_hold E (dump_request q) then shipped_opa E q = OpaBody (Some (JObj [])) \<or> shipped_opa E q = OpaStatusError 500
   else if \<not> environment_allowed (dump_request q) then
     if requires_approval (dump_request q) then shipped_opa E q = OpaStatusError 500 else answers ''DENY'' (shipped_opa E q)
   else if approval_reason (dump_request q) = Conflict then shipped_opa E q = OpaStatusError 500
   else answers (if requires_approval (dump_request q) then ''REQUIRE_APPROVAL'' else ''ALLOW'') (shipped_opa E q)"
  using response_decides [of E "dump_request q"] failed_answers [of E q] decided_answers [of _ E q]
  by (cases "conditions_hold E (dump_request q)"; cases "environment_allowed (dump_request q)";
      cases "requires_approval (dump_request q)"; cases "approval_reason (dump_request q) = Conflict") auto

section \<open>What an ALLOW means\<close>

lemma answers_iff:
  "answers e (shipped_opa E q) \<longleftrightarrow> conditions_hold E (dump_request q) \<and>
     (if environment_allowed (dump_request q)
      then approval_reason (dump_request q) \<noteq> Conflict \<and> e = (if requires_approval (dump_request q) then ''REQUIRE_APPROVAL'' else ''ALLOW'')
      else \<not> requires_approval (dump_request q) \<and> e = ''DENY'')"
proof -
  let ?i = "dump_request q"
  have fail: "\<not> answers e (shipped_opa E q)" if "response E ?i = Undefined \<or> response E ?i = Conflict"
    using that failed_answers [of E q] failed_answers_nothing by metis
  have exactly: "answers e (shipped_opa E q) \<longleftrightarrow> e = f" if "decided_as f (response E ?i)" for f
    using decided_answers [OF that] answers_unique by blast
  show ?thesis
    using response_decides [of E ?i] fail exactly
    by (cases "conditions_hold E ?i"; cases "environment_allowed ?i"; cases "requires_approval ?i"; cases "approval_reason ?i = Conflict")
      simp_all
qed

lemma dump_fields [simp]:
  "dot (Some (dump_request q)) ''action'' = Some (JStr (action q))"
  "dot (Some (dump_request q)) ''agent_type'' = Some (JStr (agent_type q))"
  "dot (Some (dump_request q)) ''agent_id'' = Some (JStr (agent_id q))"
  "dot (Some (dump_request q)) ''task_id'' = Some (JStr (task_id q))"
  "dot (Some (dump_request q)) ''environment'' = Some (JStr (environment q))"
  "dot (Some (dump_request q)) ''token_claims'' = Some (JObj (token_claims q))"
  "dot (Some (dump_request q)) ''context'' = Some (JObj (req_context q))"
  by (simp_all add: dot_def dump_request_def dict_get_def)

lemma dump_claims [simp]:
  "claim (dump_request q) k = dict_get (token_claims q) k" "context_value (dump_request q) k = dict_get (req_context q) k"
  by (simp_all only: claim_def context_value_def dump_fields) (simp_all add: dot_def)

lemma dump_action_in [simp]: "action_in as (dump_request q) \<longleftrightarrow> action q \<in> set as"
  by (simp add: action_in_def)

lemma dict_get_nonempty: "dict_get d k = Some v \<Longrightarrow> d \<noteq> []"
  by (auto simp: dict_get_def)

lemma valid_token_nonempty: "valid_token (dump_request q) \<Longrightarrow> token_claims q \<noteq> []"
  by (auto simp: valid_token_def nonempty_def rego_count_def dest: dict_get_nonempty)

lemma rego_contains_claim: "rego_contains v s \<longleftrightarrow> (\<exists>t. v = Some (JStr t) \<and> str_contains s t)"
  by (auto simp: rego_contains_def split: option.splits json.splits)

text \<open>
  C10: When the shipped policy answers ALLOW, the action is in its scope map, the claims are not empty and hold the
  action's scope (as part of the scope claim, or as a member of scopes), there is a task, and either the context
  says \<open>pre_approved\<close> or the action is neither destructive nor an IAM write and the agent no provisioner.
\<close>
theorem policy_allow_is_justified:
  assumes "answers ''ALLOW'' (shipped_opa E q)"
  shows "\<exists>s. dict_get action_scope_map (action q) = Some s \<and> token_claims q \<noteq> [] \<and> task_id q \<noteq> [] \<and>
     ((\<exists>t. dict_get (token_claims q) ''scope'' = Some (JStr t) \<and> str_contains s t) \<or>
      JStr s \<in> set (elements (dict_get (token_claims q) ''scopes''))) \<and>
     (holds (dict_get (req_context q) ''pre_approved'') \<or>
      action q \<notin> set destructive_actions \<and> action q \<notin> set iam_write_actions \<and> agent_type q \<noteq> ''ProvisionerAgent'')"
proof -
  let ?i = "dump_request q"
  have "conditions_hold E ?i" "\<not> requires_approval ?i"
    using assms unfolding answers_iff by (auto split: if_splits)
  then have v: "valid_token ?i" "action_in_scope ?i" "task_is_active ?i" "\<not> requires_approval ?i"
    by (simp_all add: conditions_hold_def)
  from v(2) obtain s where s: "dict_get action_scope_map (action q) = Some s"
    "rego_contains (dict_get (token_claims q) ''scope'') s \<or> JStr s \<in> set (elements (dict_get (token_claims q) ''scopes''))"
    by (auto simp: action_in_scope_def required_scope_def split: option.splits)
  have "task_id q \<noteq> []" using v(3) by (auto simp: task_is_active_def nonempty_def rego_count_def)
  with s v(4) valid_token_nonempty [OF v(1)] show ?thesis
    unfolding requires_approval_def pre_approved_def is_provisioner_def rego_contains_claim by auto
qed

section \<open>Approval by the caller\<close>

definition with_flag :: "action_request \<Rightarrow> string \<Rightarrow> action_request" where
  "with_flag q k = q\<lparr>req_context := dict_set (req_context q) k (JBool True)\<rparr>"

lemma with_flag_fields [simp]:
  "action (with_flag q k) = action q" "agent_type (with_flag q k) = agent_type q" "agent_id (with_flag q k) = agent_id q"
  "task_id (with_flag q k) = task_id q" "environment (with_flag q k) = environment q" "token_claims (with_flag q k) = token_claims q"
  "dict_get (req_context (with_flag q k)) j = (if j = k then Some (JBool True) else dict_get (req_context q) j)"
  by (simp_all add: with_flag_def)

lemma pre_approved_keeps:
  "conditions_hold E (dump_request (with_flag q ''pre_approved'')) = conditions_hold E (dump_request q)"
  "environment_allowed (dump_request (with_flag q ''pre_approved'')) = environment_allowed (dump_request q)"
  by (simp_all add: conditions_hold_def valid_token_def action_in_scope_def required_scope_def within_window_def
      task_is_active_def within_rate_limit_def environment_allowed_def max_actions_per_minute_def
      cong: option.case_cong)

text \<open>
  Further: Approval is a flag in the context of the request, which is the caller's: whenever the shipped policy asks
  for the approval of an action, the same request with \<open>pre_approved\<close> in its context is answered with ALLOW, and
  the PEP passes the context on as it is.
\<close>
theorem caller_can_pre_approve:
  assumes "answers ''REQUIRE_APPROVAL'' (shipped_opa E q)"
  shows "answers ''ALLOW'' (shipped_opa E (with_flag q ''pre_approved''))"
proof -
  have keep: "conditions_hold E (dump_request q)" "environment_allowed (dump_request q)"
    using assms unfolding answers_iff by (auto split: if_splits)
  have "pre_approved (dump_request (with_flag q ''pre_approved''))" by (simp add: pre_approved_def holds_def)
  then have "\<not> requires_approval (dump_request (with_flag q ''pre_approved''))"
    and "approval_reason (dump_request (with_flag q ''pre_approved'')) \<noteq> Conflict"
    by (simp_all add: requires_approval_def approval_reason_conflict)
  with keep show ?thesis unfolding answers_iff pre_approved_keeps by simp
qed

section \<open>The shipped policy behind the PEP\<close>

lemma evaluate_shipped:
  assumes strict: "\<forall>n. pp_as_str P (JInt n) = None" and opa: "pp_opa P = shipped_opa E"
  shows "evaluate P q = Inl (ValidationError ''PolicyDecision'') \<or> evaluate P q = Inl (KeyError ''result'') \<or>
     evaluate P q = Inr (fail_closed_decision P ''Policy engine returned HTTP 500'')"
proof -
  have "response E (dump_request q) = Undefined \<or> response E (dump_request q) = Conflict \<or>
      (\<exists>e. decided_as e (response E (dump_request q)))"
    using response_decides [of E "dump_request q"] by (auto split: if_splits)
  then show ?thesis
  proof (elim disjE exE)
    assume "response E (dump_request q) = Undefined"
    then show ?thesis by (simp add: evaluate_def opa failed_answers(1) result_of_body_def dict_get_def)
  next
    assume "response E (dump_request q) = Conflict"
    moreover have "str_int 500 = ''500''" by code_simp
    ultimately show ?thesis by (simp add: evaluate_def opa failed_answers(2))
  next
    fix e assume "decided_as e (response E (dump_request q))"
    then obtain d n where "response E (dump_request q) = Value (JObj d)" "dict_get d ''evaluated_at'' = Some (JInt n)"
      unfolding decided_as_def by (elim exE conjE)
    with strict have "evaluate P q = Inl (ValidationError ''PolicyDecision'')"
      by (simp add: evaluate_def opa shipped_opa_def result_of_body_def dict_get_def [of "[_]"] validate_decision_def split: option.splits)
    then show ?thesis by (rule disjI1)
  qed
qed

text \<open>
  C8: With the shipped policy behind it, the PEP permits nothing. The policy sends \<open>evaluated_at\<close> as a number where
  the model of a decision has a string, which pydantic does not convert, so every evaluation ends in a
  validation error, in a key error, or in the denial for status 500: whatever an agent runs, the cloud stays as it
  is and no decision is ALLOW.
\<close>
theorem shipped_policy_permits_nothing:
  assumes strict: "\<forall>n. pp_as_str (ba_pep A) (JInt n) = None" and opa: "pp_opa (ba_pep A) = shipped_opa E"
    and run: "run_agent A tool_key arn task env tags context w = (x, (st, w'))"
  shows "(evaluate (ba_pep A) q = Inl (ValidationError ''PolicyDecision'') \<or> evaluate (ba_pep A) q = Inl (KeyError ''result'') \<or>
      evaluate (ba_pep A) q = Inr (fail_closed_decision (ba_pep A) ''Policy engine returned HTTP 500'')) \<and>
    isl (fst (enforce (ba_pep A) p)) \<and> aw_cloud w' = aw_cloud w \<and> st_decision st \<noteq> Some ''ALLOW''"
proof -
  have refused: "isl r" if "enforce (ba_pep A) p = (r, p')" for p r p'
    using that
  proof (cases rule: enforce_cases)
    case (decided w1 w2)
    have "pd_effect (fail_closed_decision (ba_pep A) m) = DENY" for m by (simp add: fail_closed_decision_def)
    with decided(4) evaluate_shipped [OF strict opa, of "pw_request w2"] show ?thesis
      by (cases r) (auto simp: act_on_decision_returns)
  qed simp_all
  then have "enforce (ba_pep A) p \<noteq> (Inr (), p')" for p p' by fastforce
  then have "aw_cloud w' = aw_cloud w \<and> st_decision st \<noteq> Some ''ALLOW''" by (rule refused_agent_run [OF _ run])
  moreover have "isl (fst (enforce (ba_pep A) p))" using refused [of p] by (metis prod.collapse)
  ultimately show ?thesis using evaluate_shipped [OF strict opa, of q] by blast
qed

section \<open>On concrete requests\<close>

definition demo_rego :: rego where
  "demo_rego = \<lparr>rg_now_ns = 1767268800000000000, rg_composite_less = (\<lambda>_ _. False), rg_undefined_first = True\<rparr>"

definition demo_delete :: action_request where
  "demo_delete = \<lparr>agent_id = ''agent-data-001'', agent_type = ''DataAgent'',
     token_claims = [(''active'', JBool True), (''agent_id'', JStr ''agent-data-001''), (''scope'', JStr ''cloud:s3:read cloud:s3:delete'')],
     action = ''s3:DeleteObject'', resource_arn = ''arn:aws:s3:::b/k'', task_id = ''t1'', environment = ''staging'',
     source_ip = ''10.0.1.10'', resource_tags = [],
     req_context = [(''time_window'', JObj [(''start_hour_utc'', JInt 8), (''end_hour_utc'', JInt 20)])]\<rparr>"

lemma demo_delete_needs_approval: "answers ''REQUIRE_APPROVAL'' (shipped_opa demo_rego demo_delete)"
  by code_simp

theorem caller_can_pre_approve_witness:
  "answers ''REQUIRE_APPROVAL'' (shipped_opa demo_rego demo_delete) \<and>
   answers ''ALLOW'' (shipped_opa demo_rego (with_flag demo_delete ''pre_approved''))"
  using demo_delete_needs_approval caller_can_pre_approve [OF demo_delete_needs_approval] by (rule conjI)

theorem policy_allow_is_justified_witness:
  "\<exists>s. dict_get action_scope_map ''s3:DeleteObject'' = Some s \<and> answers ''ALLOW'' (shipped_opa demo_rego (with_flag demo_delete ''pre_approved''))"
proof -
  have allow: "answers ''ALLOW'' (shipped_opa demo_rego (with_flag demo_delete ''pre_approved''))" by code_simp
  have "action (with_flag demo_delete ''pre_approved'') = ''s3:DeleteObject''" by (simp add: demo_delete_def)
  with policy_allow_is_justified [OF allow] allow show ?thesis by (elim exE conjE) (simp only:, blast)
qed

definition demo_shipped_agent :: "(mem, string list, nat, nat) base_agent" where
  "demo_shipped_agent = (demo_agent demo_allow)\<lparr>ba_pep := (demo_pep demo_allow)\<lparr>pp_opa := shipped_opa demo_rego\<rparr>\<rparr>"

theorem shipped_policy_permits_nothing_witness:
  "\<exists>x st w'. run_agent demo_shipped_agent ''s3_list_buckets'' ''arn:aws:s3:::*'' ''t1'' ''staging'' None None
     (demo_agent_world Map.empty) = (x, (st, w')) \<and> aw_cloud w' = 4"
proof -
  have strict: "\<forall>n. pp_as_str (ba_pep demo_shipped_agent) (JInt n) = None"
    by (simp add: demo_shipped_agent_def demo_pep_def demo_as_str_def)
  have opa: "pp_opa (ba_pep demo_shipped_agent) = shipped_opa demo_rego" by (simp add: demo_shipped_agent_def)
  obtain x st w' where run: "run_agent demo_shipped_agent ''s3_list_buckets'' ''arn:aws:s3:::*'' ''t1'' ''staging'' None None
     (demo_agent_world Map.empty) = (x, (st, w'))" by (metis prod_cases3)
  from shipped_policy_permits_nothing [OF strict opa run] have "aw_cloud w' = aw_cloud (demo_agent_world Map.empty)" by blast
  then have "aw_cloud w' = 4" by (simp add: demo_agent_world_def)
  with run show ?thesis by (intro exI conjI)
qed

section \<open>The shipped Cedar policies behind the PEP\<close>

definition shipped_cedar_answers :: "'r pep \<Rightarrow> action_request \<Rightarrow> bool" where
  "shipped_cedar_answers P q \<longleftrightarrow> (\<forall>p rt. select_policy_file (pp_cedar P) (pp_exists P) (action q) = Some p \<longrightarrow>
     infer_cedar_resource_type (action q) = Some rt \<longrightarrow>
     pp_cli P p (build_entities (cedar_request_of q rt)) (cedar_request_json (cedar_request_of q rt)) =
       CliOutput (verdict_text (cedar_allows (shipped_policies (action q)) (cedar_request_of q rt))))"

lemma verdict_text_permits: "str_contains ''allow'' (str_lower (str_strip (verdict_text b))) = b"
proof -
  have "str_contains ''allow'' (str_lower (str_strip (verdict_text True)))" "\<not> str_contains ''allow'' (str_lower (str_strip (verdict_text False)))"
    by code_simp+
  then show ?thesis by (cases b) simp_all
qed

lemma cedar_actions_typed:
  "a \<in> set S3_ACTIONS \<Longrightarrow> infer_cedar_resource_type a = Some ''NHI::S3Bucket''"
  "a \<in> set IAM_ACTIONS \<Longrightarrow> infer_cedar_resource_type a = Some ''NHI::IAMRole'' \<and> a \<notin> set S3_ACTIONS"
proof -
  have "list_all (\<lambda>a. infer_cedar_resource_type a = Some ''NHI::S3Bucket'') S3_ACTIONS"
    "list_all (\<lambda>a. infer_cedar_resource_type a = Some ''NHI::IAMRole'' \<and> a \<notin> set S3_ACTIONS) IAM_ACTIONS" by code_simp+
  then show "a \<in> set S3_ACTIONS \<Longrightarrow> infer_cedar_resource_type a = Some ''NHI::S3Bucket''"
    "a \<in> set IAM_ACTIONS \<Longrightarrow> infer_cedar_resource_type a = Some ''NHI::IAMRole'' \<and> a \<notin> set S3_ACTIONS"
    unfolding list_all_iff by blast+
qed

lemma evaluate_shipped_cedar:
  assumes governs: "cedar_governs (pp_cedar P) (pp_exists P) (action q)" and cli: "shipped_cedar_answers P q"
    and rt: "infer_cedar_resource_type (action q) = Some rt"
  shows "cd_permitted (evaluate_cedar P q) \<longleftrightarrow> cedar_allows (shipped_policies (action q)) (cedar_request_of q rt)"
proof -
  let ?q = "cedar_request_of q rt"
  have a: "cq_action ?q = action q" by (simp add: cedar_request_of_def)
  with governs have "cedar_governs (pp_cedar P) (pp_exists P) (cq_action ?q)" by simp
  then obtain p where p: "select_policy_file (pp_cedar P) (pp_exists P) (action q) = Some p"
    "cedar_evaluate (pp_cedar P) (pp_exists P) (pp_cli P) ?q = run_cedar (pp_cli P) p (build_entities ?q) (cedar_request_json ?q)"
    using cedar_evaluate_governed a by metis
  with cli rt have "pp_cli P p (build_entities ?q) (cedar_request_json ?q) =
      CliOutput (verdict_text (cedar_allows (shipped_policies (action q)) ?q))" unfolding shipped_cedar_answers_def by blast
  then show ?thesis
    by (simp add: evaluate_cedar_def rt p(2) run_cedar_permits verdict_text_permits)
qed

lemma cedar_layer_permits:
  assumes governs: "cedar_governs (pp_cedar P) (pp_exists P) (action q)" and cli: "shipped_cedar_answers P q"
  shows "cd_permitted (evaluate_cedar P q) \<longleftrightarrow>
     action q = ''iam:CreateRole'' \<and> agent_type q = ''ProvisionerAgent'' \<and>
     dict_get (resource_tags q) ''managed_by'' = Some ''nhi-sentinel'' \<and>
     (\<exists>t. dict_get (resource_tags q) ''template_name'' = Some t \<and> t \<noteq> '''')"
proof (cases "action q \<in> set S3_ACTIONS")
  case True
  have "\<not> cd_permitted (evaluate_cedar P q)"
    unfolding evaluate_shipped_cedar [OF assms cedar_actions_typed(1) [OF True]] shipped_policies_def if_P [OF True]
    by (rule s3_policies_allow_nothing)
  moreover have "''iam:CreateRole'' \<notin> set S3_ACTIONS" by code_simp
  ultimately show ?thesis using True by metis
next
  case False
  with governs have "action q \<in> set IAM_ACTIONS" unfolding cedar_governs_def
    using select_policy_file_actions by fastforce
  then have rt: "infer_cedar_resource_type (action q) = Some ''NHI::IAMRole''" using cedar_actions_typed(2) by blast
  show ?thesis
    unfolding evaluate_shipped_cedar [OF assms rt] shipped_policies_def if_not_P [OF False] iam_policies_allow
    by (simp add: cedar_request_of_def)
qed

lemma enforce_after_layers:
  assumes "seq check_ip_binding (\<lambda>_. seq (check_suspension P) (\<lambda>_. inject_rate_limit_count P)) w = (Inr (), w1)"
  shows "enforce P w = (case evaluate P (pw_request w1) of Inl e \<Rightarrow> throw e w1 | Inr d \<Rightarrow> act_on_decision P (pw_request w1) d w1)"
  using assms by (auto simp: enforce_def seq_def with_request_def split: prod.splits sum.splits)

text \<open>
  C13: Where the Cedar binary is installed and prints its verdict on the shipped policies, take a request for a
  governed action that got through the address, suspension and rate layers. The PEP permits it exactly if OPA's
  decision is ALLOW and it is the creation of a role by the provisioner with the tags of a template; when OPA allows
  anything else, the PEP raises Cedar's denial and changes nothing more. The permits for reading, writing and listing
  ask whether a text is \<open>in\<close> a set of texts, which is an error in Cedar, so they never apply: every S3 action and
  the listing of roles are refused for every agent.
\<close>
theorem installed_cedar_permits_only_template_roles:
  assumes layers: "seq check_ip_binding (\<lambda>_. seq (check_suspension P) (\<lambda>_. inject_rate_limit_count P)) w = (Inr (), w1)"
    and q: "q = pw_request w1"
    and governs: "cedar_governs (pp_cedar P) (pp_exists P) (action q)" and cli: "shipped_cedar_answers P q"
  shows "(fst (enforce P w) = Inr () \<longleftrightarrow>
       (\<exists>d. evaluate P q = Inr d \<and> pd_effect d = ALLOW) \<and>
       (action q = ''iam:CreateRole'' \<and> agent_type q = ''ProvisionerAgent'' \<and>
          dict_get (resource_tags q) ''managed_by'' = Some ''nhi-sentinel'' \<and>
          (\<exists>t. dict_get (resource_tags q) ''template_name'' = Some t \<and> t \<noteq> ''''))) \<and>
     (\<forall>d. evaluate P q = Inr d \<and> pd_effect d = ALLOW \<and> \<not> (
          action q = ''iam:CreateRole'' \<and> agent_type q = ''ProvisionerAgent'' \<and>
          dict_get (resource_tags q) ''managed_by'' = Some ''nhi-sentinel'' \<and>
          (\<exists>t. dict_get (resource_tags q) ''template_name'' = Some t \<and> t \<noteq> '''')) \<longrightarrow>
       enforce P w = (Inl (PolicyDenialError (action q)
         (''Cedar resource policy denied: '' @ cd_reason (evaluate_cedar P q)) ''nhi.cedar.resource_policy''), w1))"
proof -
  have returns: "fst (act_on_decision P q d w1) = Inr () \<longleftrightarrow> pd_effect d = ALLOW \<and> cd_permitted (evaluate_cedar P q)" for d
    using act_on_decision_returns [of P q d w1] by (metis prod.collapse fst_conv)
  have "fst (enforce P w) = Inr () \<longleftrightarrow> (\<exists>d. evaluate P q = Inr d \<and> pd_effect d = ALLOW) \<and> cd_permitted (evaluate_cedar P q)"
    unfolding enforce_after_layers [OF layers] q [symmetric] by (auto simp: throw_def returns split: sum.splits)
  moreover have "\<forall>d. evaluate P q = Inr d \<and> pd_effect d = ALLOW \<and> \<not> cd_permitted (evaluate_cedar P q) \<longrightarrow>
      enforce P w = (Inl (PolicyDenialError (action q)
         (''Cedar resource policy denied: '' @ cd_reason (evaluate_cedar P q)) ''nhi.cedar.resource_policy''), w1)"
    unfolding enforce_after_layers [OF layers] q [symmetric] by (auto simp: act_on_decision_def Let_def throw_def)
  ultimately show ?thesis unfolding cedar_layer_permits [OF governs cli] by (rule conjI)
qed

definition demo_cedar_pep :: "mem pep" where
  "demo_cedar_pep = (demo_pep demo_allow)\<lparr>pp_cedar := \<lparr>ce_policy_dir = ''policy'', ce_cedar_available = True\<rparr>,
     pp_exists := (\<lambda>_. True), pp_cli := (\<lambda>_ _ _. CliOutput ''DENY'')\<rparr>"

theorem installed_cedar_permits_only_template_roles_witness:
  "\<exists>w1 m. enforce demo_cedar_pep (demo_world Map.empty (demo_request\<lparr>action := ''s3:GetObject''\<rparr>)) =
     (Inl (PolicyDenialError ''s3:GetObject'' m ''nhi.cedar.resource_policy''), w1)"
proof -
  let ?w = "demo_world Map.empty (demo_request\<lparr>action := ''s3:GetObject''\<rparr>)"
  let ?first = "seq check_ip_binding (\<lambda>_. seq (check_suspension demo_cedar_pep) (\<lambda>_. inject_rate_limit_count demo_cedar_pep))"
  have "fst (?first ?w) = Inr ()" "action (pw_request (snd (?first ?w))) = ''s3:GetObject''" by code_simp+
  then obtain w1 where layers: "?first ?w = (Inr (), w1)" and a: "action (pw_request w1) = ''s3:GetObject''"
    by (metis prod.collapse)
  have "cedar_governs (pp_cedar demo_cedar_pep) (pp_exists demo_cedar_pep) ''s3:GetObject''" by code_simp
  then have governs: "cedar_governs (pp_cedar demo_cedar_pep) (pp_exists demo_cedar_pep) (action (pw_request w1))" unfolding a .
  have "shipped_policies (action (pw_request w1)) = S3_POLICIES" by (simp add: a shipped_policies_def S3_ACTIONS_def)
  then have cli: "shipped_cedar_answers demo_cedar_pep (pw_request w1)"
    by (simp add: shipped_cedar_answers_def s3_policies_allow_nothing verdict_text_def demo_cedar_pep_def)
  have "evaluate demo_cedar_pep (pw_request w1) = evaluate demo_cedar_pep demo_request"
    by (simp add: evaluate_def demo_cedar_pep_def demo_pep_def)
  moreover have "\<exists>d. evaluate demo_cedar_pep demo_request = Inr d \<and> pd_effect d = ALLOW"
  proof -
    have "(case evaluate demo_cedar_pep demo_request of Inr d \<Rightarrow> pd_effect d = ALLOW | Inl _ \<Rightarrow> False)" by code_simp
    then show ?thesis by (auto split: sum.splits)
  qed
  ultimately obtain d where d: "evaluate demo_cedar_pep (pw_request w1) = Inr d \<and> pd_effect d = ALLOW" by (elim exE) simp
  with installed_cedar_permits_only_template_roles [OF layers refl governs cli, THEN conjunct2, rule_format, of d] a show ?thesis by simp
qed

end
