(* ===== verification/Cloud_Seed.thy ===== *)
theory Cloud_Seed
  imports Agent_Handlers
begin

text \<open>
  \<open>cloud_sim/bootstrap.py\<close>: the classified buckets, the instances and the role an environment starts with, and
  the contract of an S3 account, on which the seeding and DataAgent's bucket list meet.
\<close>

section \<open>The resources\<close>

record bucket_spec =
  bs_name :: string
  bs_tags :: "(string \<times> string) list"

definition classified :: "string \<Rightarrow> string \<Rightarrow> string \<Rightarrow> bucket_spec" where
  "classified name classification env = \<lparr>bs_name = name, bs_tags =
     [(''DataClassification'', classification), (''Environment'', env), (''ManagedBy'', ''nhi-sentinel'')]\<rparr>"

definition BUCKETS :: "bucket_spec list" where
  "BUCKETS =
     [classified ''nhi-data-public-01'' ''public'' ''staging'',
      classified ''nhi-data-internal-01'' ''internal'' ''staging'',
      classified ''nhi-data-confidential-01'' ''confidential'' ''staging'',
      classified ''nhi-data-prod-restricted-01'' ''restricted'' ''prod'']"

record role_spec =
  rl_name :: string
  rl_assume_role_policy :: string
  rl_tags :: "(string \<times> string) list"

definition IAM_ROLES :: "role_spec list" where
  "IAM_ROLES = [\<lparr>rl_name = ''nhi-readonly-role'',
     rl_assume_role_policy = ''{'' @ CHR 0x0A #
       ''            \"Version\": \"2012-10-17\",'' @ CHR 0x0A #
       ''            \"Statement\": [{\"Effect\": \"Allow\", \"Principal\": {\"Service\": \"ec2.amazonaws.com\"}, '' @
         ''\"Action\": \"sts:AssumeRole\"}]'' @ CHR 0x0A #
       ''        }'',
     rl_tags = [(''ManagedBy'', ''nhi-sentinel''), (''RiskLevel'', ''low'')]\<rparr>]"

text \<open>\<open>[{"Key": k, "Value": v} for k, v in tags.items()]\<close>.\<close>

definition tag_list :: "(string \<times> string) list \<Rightarrow> json list" where
  "tag_list tags = map (\<lambda>(k, v). JObj [(''Key'', JStr k), (''Value'', JStr v)]) tags"

section \<open>The seeding\<close>

definition create_bucket_args :: "string \<Rightarrow> string \<Rightarrow> pydict" where
  "create_bucket_args region name =
     (if region = ''us-east-1'' then [(''Bucket'', JStr name)]
      else [(''Bucket'', JStr name), (''CreateBucketConfiguration'', JObj [(''LocationConstraint'', JStr region)])])"

definition sample_body :: string where
  "sample_body = ''{\"records\": [{\"id\": 1, \"value\": \"sample\"}]}''"

definition except_named :: "string \<Rightarrow> ('c, unit) comp \<Rightarrow> ('c, unit) comp" where
  "except_named name m = try_except m (\<lambda>e. if exn_name e = name then ret () else throw e)"

definition seed_bucket :: "'c boto \<Rightarrow> string \<Rightarrow> bucket_spec \<Rightarrow> ('c, unit) comp" where
  "seed_bucket B region spec = except_named ''BucketAlreadyOwnedByYou''
     (seq (bo_call B ''s3'' ''create_bucket'' (create_bucket_args region (bs_name spec))) (\<lambda>_.
      seq (bo_call B ''s3'' ''put_bucket_tagging'' [(''Bucket'', JStr (bs_name spec)),
         (''Tagging'', JObj [(''TagSet'', JList (tag_list (bs_tags spec)))])]) (\<lambda>_.
      seq (bo_call B ''s3'' ''put_object'' [(''Bucket'', JStr (bs_name spec)), (''Key'', JStr ''sample/data.json''),
         (''Body'', JStr sample_body)]) (\<lambda>_.
      ret ()))))"

fun for_each :: "('a \<Rightarrow> ('c, unit) comp) \<Rightarrow> 'a list \<Rightarrow> ('c, unit) comp" where
  "for_each f [] = ret ()"
| "for_each f (x # xs) = seq (f x) (\<lambda>_. for_each f xs)"

definition seed_s3 :: "'c boto \<Rightarrow> string \<Rightarrow> ('c, unit) comp" where
  "seed_s3 B region = for_each (seed_bucket B region) BUCKETS"

definition seed_ec2 :: "'c boto \<Rightarrow> ('c, unit) comp" where
  "seed_ec2 B = seq (bo_call B ''ec2'' ''run_instances''
     [(''ImageId'', JStr ''ami-12345678''), (''MinCount'', JInt 2), (''MaxCount'', JInt 2),
      (''InstanceType'', JStr ''t3.micro''),
      (''TagSpecifications'', JList [JObj [(''ResourceType'', JStr ''instance''),
        (''Tags'', JList (tag_list [(''Environment'', ''staging''), (''ManagedBy'', ''nhi-sentinel'')]))]])]) (\<lambda>_. ret ())"

definition seed_role :: "'c boto \<Rightarrow> role_spec \<Rightarrow> ('c, unit) comp" where
  "seed_role B role = except_named ''EntityAlreadyExistsException''
     (seq (bo_call B ''iam'' ''create_role'' [(''RoleName'', JStr (rl_name role)),
        (''AssumeRolePolicyDocument'', JStr (rl_assume_role_policy role)),
        (''Tags'', JList (tag_list (rl_tags role)))]) (\<lambda>_. ret ()))"

definition seed_iam :: "'c boto \<Rightarrow> ('c, unit) comp" where
  "seed_iam B = for_each (seed_role B) IAM_ROLES"

text \<open>\<open>clients\<close> gives boto3's clients for a region, or for the default one.\<close>

definition seed_environment :: "(string option \<Rightarrow> 'c boto) \<Rightarrow> string \<Rightarrow> ('c, unit) comp" where
  "seed_environment clients region =
     seq (seed_s3 (clients (Some region)) region) (\<lambda>_.
     seq (seed_ec2 (clients (Some region))) (\<lambda>_.
     seed_iam (clients None)))"

section \<open>An S3 account\<close>

record bucket =
  bk_tags :: "json list"
  bk_objects :: "(string \<times> string) list"

text \<open>A bucket the seeding has written, over what was there.\<close>

definition seeded_over :: "bucket_spec \<Rightarrow> bucket option \<Rightarrow> bucket" where
  "seeded_over spec before = \<lparr>bk_tags = tag_list (bs_tags spec), bk_objects =
     dict_set (case before of None \<Rightarrow> [] | Some b \<Rightarrow> bk_objects b) ''sample/data.json'' sample_body\<rparr>"

text \<open>What the bucket list reads of a bucket, and its entry there.\<close>

definition tags_at :: "bucket option \<Rightarrow> pydict" where
  "tags_at b = (case b of None \<Rightarrow> [] | Some b \<Rightarrow> (case tags_of (JList (bk_tags b)) of Inl _ \<Rightarrow> [] | Inr d \<Rightarrow> d))"

definition listed :: "(string \<Rightarrow> bucket option) \<Rightarrow> string \<Rightarrow> json" where
  "listed S n = JObj [(''name'', JStr n), (''tags'', JObj (tags_at (S n)))]"

definition tagging_readable :: "'c boto \<Rightarrow> ('c \<Rightarrow> string \<Rightarrow> bucket option) \<Rightarrow> bool" where
  "tagging_readable B buckets \<longleftrightarrow> (\<forall>n c. buckets c n \<noteq> None \<longrightarrow>
     \<not> isl (fst (bo_call B ''s3'' ''get_bucket_tagging'' [(''Bucket'', JStr n)] c)))"

lemma not_accessible_nil: "\<not> accessible []"
  by (simp add: accessible_def dict_get_def)

text \<open>
  Provider: S3, through boto3. Clients: the seeding, which creates, and DataAgent, which lists. Creating a bucket
  one owns either raises or returns (as in us-east-1) and leaves it alone; what an answer says is so.
\<close>

locale s3_account =
  fixes B :: "'c boto" and buckets :: "'c \<Rightarrow> string \<Rightarrow> bucket option"
  assumes create_ok: "bo_call B ''s3'' ''create_bucket'' (create_bucket_args region n) c = (Inr r1, c') \<Longrightarrow>
      buckets c' = (if buckets c n = None then (buckets c)(n \<mapsto> \<lparr>bk_tags = [], bk_objects = []\<rparr>) else buckets c)"
    and create_owned: "bo_call B ''s3'' ''create_bucket'' (create_bucket_args region n) c = (Inl e1, c') \<Longrightarrow>
      exn_name e1 = ''BucketAlreadyOwnedByYou'' \<Longrightarrow> buckets c' = buckets c \<and> buckets c n \<noteq> None"
    and tagging_ok: "bo_call B ''s3'' ''put_bucket_tagging'' [(''Bucket'', JStr n),
        (''Tagging'', JObj [(''TagSet'', JList ts)])] c = (Inr r2, c') \<Longrightarrow> buckets c n = Some b \<Longrightarrow>
      buckets c' = (buckets c)(n \<mapsto> b\<lparr>bk_tags := ts\<rparr>)"
    and tagging_error: "bo_call B ''s3'' ''put_bucket_tagging'' args c = (Inl e2, c') \<Longrightarrow>
      exn_name e2 \<noteq> ''BucketAlreadyOwnedByYou''"
    and put_ok: "bo_call B ''s3'' ''put_object'' [(''Bucket'', JStr n), (''Key'', JStr k), (''Body'', JStr t)] c = (Inr r3, c') \<Longrightarrow>
      buckets c n = Some b \<Longrightarrow> buckets c' = (buckets c)(n \<mapsto> b\<lparr>bk_objects := dict_set (bk_objects b) k t\<rparr>)"
    and put_error: "bo_call B ''s3'' ''put_object'' args c = (Inl e3, c') \<Longrightarrow>
      exn_name e3 \<noteq> ''BucketAlreadyOwnedByYou''"
    and list_ok: "bo_call B ''s3'' ''list_buckets'' [] c = (Inr r4, c') \<Longrightarrow> buckets c' = buckets c \<and>
      (\<exists>bs ns. json_get r4 ''Buckets'' (JList []) = Inr (JList bs) \<and>
         list_all2 (\<lambda>x n. json_item x ''Name'' = Inr (JStr n)) bs ns \<and> set ns = dom (buckets c) \<and> distinct ns)"
    and tags_ok: "bo_call B ''s3'' ''get_bucket_tagging'' [(''Bucket'', JStr n)] c = (Inr r5, c') \<Longrightarrow> buckets c n = Some b \<Longrightarrow>
      buckets c' = buckets c \<and> json_get r5 ''TagSet'' (JList []) = Inr (JList (bk_tags b))"
    and tags_error: "bo_call B ''s3'' ''get_bucket_tagging'' [(''Bucket'', JStr n)] c = (Inl e5, c') \<Longrightarrow>
      buckets c' = buckets c"
begin

lemma seed_bucket_cases:
  assumes "seed_bucket B region spec c = (Inr (), c')"
  shows "buckets c' = (buckets c)(bs_name spec \<mapsto> seeded_over spec (buckets c (bs_name spec))) \<or>
     buckets c' = buckets c \<and> buckets c (bs_name spec) \<noteq> None"
proof -
  let ?n = "bs_name spec"
  let ?tag = "[(''Bucket'', JStr ?n), (''Tagging'', JObj [(''TagSet'', JList (tag_list (bs_tags spec)))])]"
  let ?put = "[(''Bucket'', JStr ?n), (''Key'', JStr ''sample/data.json''), (''Body'', JStr sample_body)]"
  obtain x1 c1 where one: "bo_call B ''s3'' ''create_bucket'' (create_bucket_args region ?n) c = (x1, c1)" by fastforce
  obtain x2 c2 where two: "bo_call B ''s3'' ''put_bucket_tagging'' ?tag c1 = (x2, c2)" by fastforce
  obtain x3 c3 where three: "bo_call B ''s3'' ''put_object'' ?put c2 = (x3, c3)" by fastforce
  note runs = assms [unfolded seed_bucket_def except_named_def try_except_def seq_def one prod.case]
  show ?thesis
  proof (cases x1)
    case (Inl e)
    with runs one create_owned [OF one [unfolded Inl]] show ?thesis by (auto split: if_splits)
  next
    case one_ok: (Inr r1)
    note created = create_ok [OF one [unfolded one_ok]]
    define b where "b = (case buckets c ?n of None \<Rightarrow> \<lparr>bk_tags = [], bk_objects = []\<rparr> | Some b \<Rightarrow> b)"
    have b: "buckets c1 ?n = Some b" using created by (auto simp: b_def split: option.splits)
    note runs = runs [unfolded one_ok sum.case two prod.case]
    show ?thesis
    proof (cases x2)
      case (Inl e)
      with runs tagging_error [OF two [unfolded Inl]] show ?thesis by (auto split: if_splits)
    next
      case two_ok: (Inr r2)
      note tagged = tagging_ok [OF two [unfolded two_ok] b]
      note runs = runs [unfolded two_ok sum.case three prod.case]
      show ?thesis
      proof (cases x3)
        case (Inl e)
        with runs put_error [OF three [unfolded Inl]] show ?thesis by (auto split: if_splits)
      next
        case (Inr r3)
        from tagged have "buckets c2 ?n = Some (b\<lparr>bk_tags := tag_list (bs_tags spec)\<rparr>)" by simp
        note filled = put_ok [OF three [unfolded Inr] this]
        from runs Inr have "c' = c3" by simp
        have old: "bk_objects b = (case buckets c ?n of None \<Rightarrow> [] | Some b \<Rightarrow> bk_objects b)"
          by (simp add: b_def split: option.splits)
        have "buckets c' = (buckets c1)(?n \<mapsto> seeded_over spec (buckets c ?n))"
          using filled tagged \<open>c' = c3\<close> by (cases b) (simp add: seeded_over_def old [symmetric])
        moreover have "(buckets c1)(?n \<mapsto> y) = (buckets c)(?n \<mapsto> y)" for y using created by (auto split: if_splits)
        ultimately show ?thesis by simp
      qed
    qed
  qed
qed

lemma seed_all:
  assumes "for_each (seed_bucket B region) specs c = (Inr (), c')" and "distinct (map bs_name specs)"
  shows "\<forall>spec\<in>set specs. buckets c' (bs_name spec) = Some (seeded_over spec (buckets c (bs_name spec))) \<or>
      buckets c' (bs_name spec) = buckets c (bs_name spec) \<and> buckets c (bs_name spec) \<noteq> None"
    and "\<forall>n. n \<notin> bs_name ` set specs \<longrightarrow> buckets c' n = buckets c n"
proof -
  have "(\<forall>spec\<in>set specs. buckets c' (bs_name spec) = Some (seeded_over spec (buckets c (bs_name spec))) \<or>
      buckets c' (bs_name spec) = buckets c (bs_name spec) \<and> buckets c (bs_name spec) \<noteq> None) \<and>
    (\<forall>n. n \<notin> bs_name ` set specs \<longrightarrow> buckets c' n = buckets c n)"
    using assms
  proof (induction specs arbitrary: c)
    case Nil
    then show ?case by simp
  next
    case (Cons x xs)
    from Cons.prems(1) obtain u c1 where one: "seed_bucket B region x c = (Inr u, c1)"
      and rest: "for_each (seed_bucket B region) xs c1 = (Inr (), c')"
      unfolding for_each.simps by (rule seq_returns)
    have new: "bs_name x \<notin> bs_name ` set xs" and "distinct (map bs_name xs)" using Cons.prems(2) by simp_all
    note IH = Cons.IH [OF rest this(2)]
    have unit_eq: "u = ()" by simp
    from seed_bucket_cases [OF one [unfolded unit_eq]]
    have both: "(buckets c1 (bs_name x) = Some (seeded_over x (buckets c (bs_name x))) \<or>
        buckets c1 (bs_name x) = buckets c (bs_name x) \<and> buckets c (bs_name x) \<noteq> None) \<and>
        (\<forall>n. n \<noteq> bs_name x \<longrightarrow> buckets c1 n = buckets c n)"
    proof (elim disjE conjE)
      assume "buckets c1 = (buckets c)(bs_name x \<mapsto> seeded_over x (buckets c (bs_name x)))"
      then show ?thesis unfolding fun_upd_def by simp
    next
      assume eq: "buckets c1 = buckets c" and "buckets c (bs_name x) \<noteq> None"
      then show ?thesis unfolding eq by blast
    qed
    note first = conjunct1 [OF both] and others = mp [OF spec [OF conjunct2 [OF both]]]
    have same: "buckets c1 (bs_name spec) = buckets c (bs_name spec)" if "spec \<in> set xs" for spec
    proof (rule others)
      from that have "bs_name spec \<in> bs_name ` set xs" by (rule imageI)
      with new show "bs_name spec \<noteq> bs_name x" by metis
    qed
    show ?case
    proof (intro conjI ballI allI impI)
      fix spec assume "spec \<in> set (x # xs)"
      then show "buckets c' (bs_name spec) = Some (seeded_over spec (buckets c (bs_name spec))) \<or>
          buckets c' (bs_name spec) = buckets c (bs_name spec) \<and> buckets c (bs_name spec) \<noteq> None"
      proof (cases "spec = x")
        case True
        have "buckets c' (bs_name x) = buckets c1 (bs_name x)" using IH new by blast
        with first True show ?thesis by simp
      next
        case False
        with \<open>spec \<in> set (x # xs)\<close> have "spec \<in> set xs" by simp
        from bspec [OF conjunct1 [OF IH] this] same [OF this] show ?thesis by simp
      qed
    next
      fix n assume "n \<notin> bs_name ` set (x # xs)"
      then have "n \<noteq> bs_name x" and off: "n \<notin> bs_name ` set xs" by simp_all
      with mp [OF spec [OF conjunct2 [OF IH]] off] others show "buckets c' n = buckets c n" by metis
    qed
  qed
  note result = this
  show "\<forall>spec\<in>set specs. buckets c' (bs_name spec) = Some (seeded_over spec (buckets c (bs_name spec))) \<or>
      buckets c' (bs_name spec) = buckets c (bs_name spec) \<and> buckets c (bs_name spec) \<noteq> None"
    by (rule conjunct1 [OF result])
  show "\<forall>n. n \<notin> bs_name ` set specs \<longrightarrow> buckets c' n = buckets c n" by (rule conjunct2 [OF result])
qed

lemma bucket_tags_read:
  assumes "json_item x ''Name'' = Inr (JStr n)" and "buckets c n \<noteq> None" and "bucket_tags B x c = (Inr t, c')"
  shows "buckets c' = buckets c" and "t = tags_at (buckets c n) \<or> t = []"
    and "tagging_readable B buckets \<Longrightarrow> t = tags_at (buckets c n)"
proof -
  obtain b where b: "buckets c n = Some b" using assms(2) by blast
  obtain r c1 where g: "bo_call B ''s3'' ''get_bucket_tagging'' [(''Bucket'', JStr n)] c = (r, c1)" by fastforce
  note run = assms(3) [unfolded bucket_tags_def try_except_def seq_def lift_result_apply assms(1) prod.case sum.case g]
  have "buckets c' = buckets c \<and> (t = tags_at (buckets c n) \<or> t = [] \<and> (isl r \<or> t = tags_at (buckets c n)))"
  proof (cases r)
    case (Inl e)
    with run g tags_error [OF g [unfolded Inl]] show ?thesis by simp
  next
    case (Inr resp)
    from tags_ok [OF g [unfolded Inr] b] have c1: "buckets c1 = buckets c"
      and set: "json_get resp ''TagSet'' (JList []) = Inr (JList (bk_tags b))" by blast+
    show ?thesis
    proof (cases "tags_of (JList (bk_tags b))")
      case (Inl e)
      with run g Inr set c1 b show ?thesis by (simp add: rbind_def tags_at_def)
    next
      case ok: (Inr d)
      with run g Inr set c1 b show ?thesis by (simp add: rbind_def tags_at_def)
    qed
  qed
  moreover have "\<not> isl r" if "tagging_readable B buckets" using that assms(2) g unfolding tagging_readable_def by (metis fst_conv)
  ultimately show "buckets c' = buckets c" and "t = tags_at (buckets c n) \<or> t = []"
    and "tagging_readable B buckets \<Longrightarrow> t = tags_at (buckets c n)" by blast+
qed

lemma accessible_listing:
  assumes "list_all2 (\<lambda>x n. json_item x ''Name'' = Inr (JStr n)) bs ns" and "\<forall>n\<in>set ns. buckets c n \<noteq> None"
    and "accessible_buckets B bs c = (Inr xs, c')"
  shows "\<exists>ms. xs = map (listed (buckets c)) ms \<and> subseq ms (filter (\<lambda>n. accessible (tags_at (buckets c n))) ns) \<and>
     (tagging_readable B buckets \<longrightarrow> ms = filter (\<lambda>n. accessible (tags_at (buckets c n))) ns)"
  using assms
proof (induction bs arbitrary: ns c xs)
  case Nil
  then show ?case by simp
next
  case (Cons x bs)
  from Cons.prems(1) obtain n ns' where ns: "ns = n # ns'" and name: "json_item x ''Name'' = Inr (JStr n)"
    and tail: "list_all2 (\<lambda>x n. json_item x ''Name'' = Inr (JStr n)) bs ns'" by (auto simp: list_all2_Cons1)
  from Cons.prems(3) obtain t c1 where t: "bucket_tags B x c = (Inr t, c1)"
    and r: "(if accessible t then seq (lift_result (json_item x ''Name'')) (\<lambda>name.
          seq (accessible_buckets B bs) (\<lambda>rest. ret (JObj [(''name'', name), (''tags'', JObj t)] # rest)))
     else accessible_buckets B bs) c1 = (Inr xs, c')"
    unfolding accessible_buckets.simps by (rule seq_returns)
  have here: "buckets c n \<noteq> None" and there: "\<forall>n\<in>set ns'. buckets c n \<noteq> None" using Cons.prems(2) ns by simp_all
  note read = bucket_tags_read [OF name here t]
  have IH: "\<exists>ms. ys = map (listed (buckets c)) ms \<and> subseq ms (filter (\<lambda>n. accessible (tags_at (buckets c n))) ns') \<and>
     (tagging_readable B buckets \<longrightarrow> ms = filter (\<lambda>n. accessible (tags_at (buckets c n))) ns')"
    if "accessible_buckets B bs c1 = (Inr ys, c')" for ys
    using Cons.IH [OF tail _ that] there unfolding read(1) by blast
  show ?case
  proof (cases "accessible t")
    case False
    with r have "accessible_buckets B bs c1 = (Inr xs, c')" by (simp only: if_False)
    from IH [OF this] obtain ms where ms: "xs = map (listed (buckets c)) ms"
      "subseq ms (filter (\<lambda>n. accessible (tags_at (buckets c n))) ns')"
      "tagging_readable B buckets \<longrightarrow> ms = filter (\<lambda>n. accessible (tags_at (buckets c n))) ns'" by (elim exE conjE)
    from False read(3) ms show ?thesis unfolding ns by (intro exI [of _ ms]) (auto intro: subseq_Cons')
  next
    case True
    then have t: "t = tags_at (buckets c n)" using read(2) not_accessible_nil by blast
    from r True name obtain ys where ys: "accessible_buckets B bs c1 = (Inr ys, c')" "xs = listed (buckets c) n # ys"
      by (auto simp: listed_def t seq_def lift_result_apply split: prod.splits sum.splits)
    from IH [OF ys(1)] obtain ms where ms: "ys = map (listed (buckets c)) ms"
      "subseq ms (filter (\<lambda>n. accessible (tags_at (buckets c n))) ns')"
      "tagging_readable B buckets \<longrightarrow> ms = filter (\<lambda>n. accessible (tags_at (buckets c n))) ns'" by (elim exE conjE)
    from True ms ys(2) show ?thesis unfolding ns by (intro exI [of _ "n # ms"]) (simp add: t)
  qed
qed

lemma listing_result:
  assumes "data_handle_s3_list B st c = (Inr v, c')"
  shows "\<exists>ms. v = listing ''buckets'' (map (listed (buckets c)) ms) \<and> distinct ms \<and>
     set ms \<subseteq> {n. accessible (tags_at (buckets c n))} \<and>
     (tagging_readable B buckets \<longrightarrow> set ms = {n. accessible (tags_at (buckets c n))})"
proof -
  obtain resp c1 where l: "bo_call B ''s3'' ''list_buckets'' [] c = (Inr resp, c1)"
    and r: "seq (lift_result (rbind (json_get resp ''Buckets'' (JList [])) json_iter)) (\<lambda>bs.
       seq (accessible_buckets B bs) (\<lambda>buckets. ret (listing ''buckets'' buckets))) c1 = (Inr v, c')"
    using assms unfolding data_handle_s3_list_def by (rule seq_returns)
  from list_ok [OF l] obtain bs ns where same: "buckets c1 = buckets c"
    and bs: "json_get resp ''Buckets'' (JList []) = Inr (JList bs)"
    and ns: "list_all2 (\<lambda>x n. json_item x ''Name'' = Inr (JStr n)) bs ns" "set ns = dom (buckets c)" "distinct ns"
    by (elim exE conjE)
  have "seq (accessible_buckets B bs) (\<lambda>buckets. ret (listing ''buckets'' buckets)) c1 = (Inr v, c')"
    using r by (simp add: bs rbind_def json_iter_def seq_def lift_result_apply)
  then obtain xs c2 where xs: "accessible_buckets B bs c1 = (Inr xs, c2)" and "ret (listing ''buckets'' xs) c2 = (Inr v, c')"
    by (rule seq_returns)
  then have v: "v = listing ''buckets'' xs" by simp
  have "\<forall>n\<in>set ns. buckets c1 n \<noteq> None" unfolding same ns(2) by blast
  from accessible_listing [OF ns(1) this xs] obtain ms where ms: "xs = map (listed (buckets c)) ms"
    "subseq ms (filter (\<lambda>n. accessible (tags_at (buckets c n))) ns)"
    "tagging_readable B buckets \<longrightarrow> ms = filter (\<lambda>n. accessible (tags_at (buckets c n))) ns"
    unfolding same by (elim exE conjE)
  have "n \<in> dom (buckets c)" if "accessible (tags_at (buckets c n))" for n
    using that not_accessible_nil by (cases "buckets c n") (auto simp: tags_at_def)
  then have all: "set (filter (\<lambda>n. accessible (tags_at (buckets c n))) ns) = {n. accessible (tags_at (buckets c n))}"
    unfolding set_filter ns(2) by blast
  have "distinct (filter (\<lambda>n. accessible (tags_at (buckets c n))) ns)" using ns(3) by simp
  with ms(2) have "distinct ms" using subseqs_distinctD in_set_subseqs by blast
  moreover have "set ms \<subseteq> {n. accessible (tags_at (buckets c n))}"
  proof
    fix n assume "n \<in> set ms"
    with ms(2) obtain y where "y \<in> set (filter (\<lambda>n. accessible (tags_at (buckets c n))) ns)" "n = y" by (rule list_emb_set)
    then show "n \<in> {n. accessible (tags_at (buckets c n))}" unfolding all by simp
  qed
  moreover have "set ms = {n. accessible (tags_at (buckets c n))}" if "tagging_readable B buckets"
    unfolding mp [OF ms(3) that] by (rule all)
  ultimately show ?thesis using v ms(1) by blast
qed

end

end
