(* ===== verification/Seed_Properties.thy ===== *)
theory Seed_Properties
  imports Cloud_Seed
begin

text \<open>
  The seeded environment and what DataAgent sees of it, with an S3 account in memory: an association list of
  the buckets, in the order of their creation.
\<close>

section \<open>An account in memory\<close>

definition no_such_bucket :: exn where
  "no_such_bucket = OtherError ''ClientError'' ''NoSuchBucket''"

definition with_bucket :: "pydict \<Rightarrow> (string \<Rightarrow> bucket option \<Rightarrow> ((string \<times> bucket) list, json) comp) \<Rightarrow> ((string \<times> bucket) list, json) comp" where
  "with_bucket args f S = (case dict_get args ''Bucket'' of Some (JStr n) \<Rightarrow> f n (dict_get S n) S | _ \<Rightarrow> (Inl no_such_bucket, S))"

definition mem_create :: "string \<Rightarrow> bucket option \<Rightarrow> ((string \<times> bucket) list, json) comp" where
  "mem_create n b S = (case b of
     None \<Rightarrow> (Inr (JObj []), dict_set S n \<lparr>bk_tags = [], bk_objects = []\<rparr>)
   | Some _ \<Rightarrow> (Inl (OtherError ''BucketAlreadyOwnedByYou'' n), S))"

definition mem_tag :: "pydict \<Rightarrow> string \<Rightarrow> bucket option \<Rightarrow> ((string \<times> bucket) list, json) comp" where
  "mem_tag args n b S = (case (b, dict_get args ''Tagging'') of
     (Some b, Some (JObj [(_, JList ts)])) \<Rightarrow> (Inr (JObj []), dict_set S n (b\<lparr>bk_tags := ts\<rparr>))
   | _ \<Rightarrow> (Inl no_such_bucket, S))"

definition mem_put :: "pydict \<Rightarrow> string \<Rightarrow> bucket option \<Rightarrow> ((string \<times> bucket) list, json) comp" where
  "mem_put args n b S = (case (b, dict_get args ''Key'', dict_get args ''Body'') of
     (Some b, Some (JStr k), Some (JStr t)) \<Rightarrow> (Inr (JObj []), dict_set S n (b\<lparr>bk_objects := dict_set (bk_objects b) k t\<rparr>))
   | _ \<Rightarrow> (Inl no_such_bucket, S))"

definition mem_tags :: "string \<Rightarrow> bucket option \<Rightarrow> ((string \<times> bucket) list, json) comp" where
  "mem_tags n b S = (case b of
     None \<Rightarrow> (Inl no_such_bucket, S)
   | Some b \<Rightarrow> (Inr (JObj [(''TagSet'', JList (bk_tags b))]), S))"

definition mem_list :: "((string \<times> bucket) list, json) comp" where
  "mem_list S = (Inr (JObj [(''Buckets'', JList (map (\<lambda>n. JObj [(''Name'', JStr n)]) (remdups (map fst S))))]), S)"

definition mem_s3 :: "string \<Rightarrow> pydict \<Rightarrow> ((string \<times> bucket) list, json) comp" where
  "mem_s3 op args =
     (if op = ''list_buckets'' then mem_list
      else if op = ''create_bucket'' then with_bucket args mem_create
      else if op = ''put_bucket_tagging'' then with_bucket args (mem_tag args)
      else if op = ''put_object'' then with_bucket args (mem_put args)
      else if op = ''get_bucket_tagging'' then with_bucket args mem_tags
      else (\<lambda>S. (Inl no_such_bucket, S)))"

definition mem_account :: "(string \<times> bucket) list boto" where
  "mem_account = \<lparr>bo_call = (\<lambda>service. mem_s3), bo_read = (\<lambda>_. []), bo_isoformat = (\<lambda>_. Inr [])\<rparr>"

lemma mem_calls:
  "bo_call mem_account ''s3'' ''list_buckets'' args = mem_list"
  "bo_call mem_account ''s3'' ''create_bucket'' args = with_bucket args mem_create"
  "bo_call mem_account ''s3'' ''put_bucket_tagging'' args = with_bucket args (mem_tag args)"
  "bo_call mem_account ''s3'' ''put_object'' args = with_bucket args (mem_put args)"
  "bo_call mem_account ''s3'' ''get_bucket_tagging'' args = with_bucket args mem_tags"
  by (simp_all add: mem_account_def mem_s3_def)

lemma dict_get_update: "dict_get (dict_set S n v) = (dict_get S)(n \<mapsto> v)"
  by (rule ext) simp

lemma with_bucket_named: "dict_get args ''Bucket'' = Some (JStr n) \<Longrightarrow> with_bucket args f S = f n (dict_get S n) S"
  by (simp add: with_bucket_def)

lemma bucket_first: "dict_get ((''Bucket'', v) # args) ''Bucket'' = Some v"
  by (simp add: dict_get_def)

lemma create_bucket_named: "dict_get (create_bucket_args region n) ''Bucket'' = Some (JStr n)"
  by (simp add: create_bucket_args_def bucket_first)

lemma mem_errors:
  assumes "with_bucket args f S = (Inl e, S')" and "\<And>n b S e S'. f n b S = (Inl e, S') \<Longrightarrow> e = no_such_bucket"
  shows "exn_name e \<noteq> ''BucketAlreadyOwnedByYou''"
proof -
  have "e = no_such_bucket" using assms by (auto simp: with_bucket_def split: option.splits json.splits)
  then show ?thesis by (simp add: no_such_bucket_def)
qed

interpretation account: s3_account mem_account dict_get
proof unfold_locales
  fix region n r and c c' :: "(string \<times> bucket) list"
  assume "bo_call mem_account ''s3'' ''create_bucket'' (create_bucket_args region n) c = (Inr r, c')"
  then show "dict_get c' = (if dict_get c n = None then (dict_get c)(n \<mapsto> \<lparr>bk_tags = [], bk_objects = []\<rparr>) else dict_get c)"
    unfolding mem_calls with_bucket_named [OF create_bucket_named] mem_create_def
    by (auto simp: dict_get_update split: option.splits)
next
  fix region n e and c c' :: "(string \<times> bucket) list"
  assume "bo_call mem_account ''s3'' ''create_bucket'' (create_bucket_args region n) c = (Inl e, c')"
  then show "dict_get c' = dict_get c \<and> dict_get c n \<noteq> None"
    unfolding mem_calls with_bucket_named [OF create_bucket_named] mem_create_def by (auto split: option.splits)
next
  fix n ts r b and c c' :: "(string \<times> bucket) list"
  assume "bo_call mem_account ''s3'' ''put_bucket_tagging'' [(''Bucket'', JStr n),
      (''Tagging'', JObj [(''TagSet'', JList ts)])] c = (Inr r, c')" and "dict_get c n = Some b"
  then show "dict_get c' = (dict_get c)(n \<mapsto> b\<lparr>bk_tags := ts\<rparr>)"
    unfolding mem_calls with_bucket_named [OF bucket_first] by (auto simp: mem_tag_def dict_get_def [of "_ # _"] dict_get_update)
next
  fix args e and c c' :: "(string \<times> bucket) list"
  assume "bo_call mem_account ''s3'' ''put_bucket_tagging'' args c = (Inl e, c')"
  then show "exn_name e \<noteq> ''BucketAlreadyOwnedByYou''" unfolding mem_calls
    by (rule mem_errors) (auto simp: mem_tag_def split: option.splits json.splits list.splits)
next
  fix n k t r b and c c' :: "(string \<times> bucket) list"
  assume "bo_call mem_account ''s3'' ''put_object'' [(''Bucket'', JStr n), (''Key'', JStr k), (''Body'', JStr t)] c = (Inr r, c')"
    and "dict_get c n = Some b"
  then show "dict_get c' = (dict_get c)(n \<mapsto> b\<lparr>bk_objects := dict_set (bk_objects b) k t\<rparr>)"
    unfolding mem_calls with_bucket_named [OF bucket_first] by (auto simp: mem_put_def dict_get_def [of "_ # _"] dict_get_update)
next
  fix args e and c c' :: "(string \<times> bucket) list"
  assume "bo_call mem_account ''s3'' ''put_object'' args c = (Inl e, c')"
  then show "exn_name e \<noteq> ''BucketAlreadyOwnedByYou''" unfolding mem_calls
    by (rule mem_errors) (auto simp: mem_put_def split: option.splits json.splits)
next
  fix r and c c' :: "(string \<times> bucket) list"
  assume "bo_call mem_account ''s3'' ''list_buckets'' [] c = (Inr r, c')"
  then have r: "r = JObj [(''Buckets'', JList (map (\<lambda>n. JObj [(''Name'', JStr n)]) (remdups (map fst c))))]" "c' = c"
    unfolding mem_calls mem_list_def by auto
  have "set (remdups (map fst c)) = dom (dict_get c)" unfolding dict_get_def [abs_def] by (simp add: dom_map_of_conv_image_fst)
  moreover have "list_all2 (\<lambda>x n. json_item x ''Name'' = Inr (JStr n)) (map (\<lambda>n. JObj [(''Name'', JStr n)]) ns) ns" for ns
    by (induction ns) (simp_all add: json_item_def dict_get_def)
  moreover have "json_get r ''Buckets'' (JList []) = Inr (JList (map (\<lambda>n. JObj [(''Name'', JStr n)]) (remdups (map fst c))))"
    unfolding r by (simp add: json_get_def dict_get_def)
  ultimately show "dict_get c' = dict_get c \<and> (\<exists>bs ns. json_get r ''Buckets'' (JList []) = Inr (JList bs) \<and>
      list_all2 (\<lambda>x n. json_item x ''Name'' = Inr (JStr n)) bs ns \<and> set ns = dom (dict_get c) \<and> distinct ns)"
    unfolding r(2) using distinct_remdups by blast
next
  fix n r b and c c' :: "(string \<times> bucket) list"
  assume "bo_call mem_account ''s3'' ''get_bucket_tagging'' [(''Bucket'', JStr n)] c = (Inr r, c')" and "dict_get c n = Some b"
  then show "dict_get c' = dict_get c \<and> json_get r ''TagSet'' (JList []) = Inr (JList (bk_tags b))"
    unfolding mem_calls with_bucket_named [OF bucket_first] by (auto simp: mem_tags_def json_get_def dict_get_def [of "_ # _"])
next
  fix n e and c c' :: "(string \<times> bucket) list"
  assume "bo_call mem_account ''s3'' ''get_bucket_tagging'' [(''Bucket'', JStr n)] c = (Inl e, c')"
  then show "dict_get c' = dict_get c"
    unfolding mem_calls with_bucket_named [OF bucket_first] mem_tags_def by (auto split: option.splits)
qed

section \<open>What DataAgent sees of the seeded environment\<close>

definition OPEN_BUCKETS :: "string list" where
  "OPEN_BUCKETS = [''nhi-data-public-01'', ''nhi-data-internal-01'']"

definition seeded_account :: "string \<Rightarrow> bucket option" where
  "seeded_account = map_of (map (\<lambda>spec. (bs_name spec, seeded_over spec None)) BUCKETS)"

lemma bucket_names: "distinct (map bs_name BUCKETS)" "set OPEN_BUCKETS \<subseteq> bs_name ` set BUCKETS"
proof -
  show "distinct (map bs_name BUCKETS)" by code_simp
  have "list_all (\<lambda>n. n \<in> set (map bs_name BUCKETS)) OPEN_BUCKETS" by code_simp
  then show "set OPEN_BUCKETS \<subseteq> bs_name ` set BUCKETS" unfolding list_all_iff set_map by blast
qed

lemma seeded_account_at:
  "spec \<in> set BUCKETS \<Longrightarrow> seeded_account (bs_name spec) = Some (seeded_over spec None)"
  "n \<notin> bs_name ` set BUCKETS \<Longrightarrow> seeded_account n = None"
proof -
  let ?kvs = "map (\<lambda>spec. (bs_name spec, seeded_over spec None)) BUCKETS"
  have "distinct (map fst ?kvs)" using bucket_names(1) by (simp add: comp_def)
  then show "spec \<in> set BUCKETS \<Longrightarrow> seeded_account (bs_name spec) = Some (seeded_over spec None)"
    unfolding seeded_account_def by (rule map_of_is_SomeI) (unfold set_map, rule imageI)
  show "n \<notin> bs_name ` set BUCKETS \<Longrightarrow> seeded_account n = None"
    unfolding seeded_account_def map_of_eq_None_iff by (simp add: image_image)
qed

lemma seeded_tags: "spec \<in> set BUCKETS \<Longrightarrow> accessible (tags_at (Some (seeded_over spec None))) \<longleftrightarrow> bs_name spec \<in> set OPEN_BUCKETS"
proof -
  have "list_all (\<lambda>spec. accessible (tags_at (Some (seeded_over spec None))) = (bs_name spec \<in> set OPEN_BUCKETS)) BUCKETS"
    by code_simp
  then show "spec \<in> set BUCKETS \<Longrightarrow> ?thesis" unfolding list_all_iff by blast
qed

lemma seeded_accessible: "{n. accessible (tags_at (seeded_account n))} = set OPEN_BUCKETS"
proof (rule Set.set_eqI)
  fix n
  show "n \<in> {n. accessible (tags_at (seeded_account n))} \<longleftrightarrow> n \<in> set OPEN_BUCKETS"
  proof (cases "n \<in> bs_name ` set BUCKETS")
    case True
    then obtain spec where "spec \<in> set BUCKETS" and n: "n = bs_name spec" by (elim imageE)
    with seeded_account_at(1) [of spec] seeded_tags [of spec] show ?thesis unfolding mem_Collect_eq n by metis
  next
    case False
    then have "tags_at (seeded_account n) = []" by (simp add: seeded_account_at(2) tags_at_def)
    with False bucket_names(2) not_accessible_nil show ?thesis by (simp only: mem_Collect_eq) blast
  qed
qed

text \<open>
  C39: Seeding an account without buckets leaves exactly the four classified buckets, each with its tags and the
  sample object. After that DataAgent's list tool shows no bucket but the public and the internal one, each
  once with its tags, and both of them when the tags can be read.
\<close>
theorem data_agent_sees_the_open_buckets:
  assumes account: "s3_account B buckets" and empty: "buckets c = Map.empty"
    and seed: "seed_s3 B region c = (Inr (), c1)"
    and later: "buckets c2 = buckets c1" "data_handle_s3_list B st c2 = (Inr v, c3)"
  shows "buckets c1 = seeded_account \<and> (\<exists>names. v = listing ''buckets'' (map (listed seeded_account) names) \<and>
     distinct names \<and> set names \<subseteq> set OPEN_BUCKETS \<and> (tagging_readable B buckets \<longrightarrow> set names = set OPEN_BUCKETS))"
proof -
  note all = s3_account.seed_all [OF account seed [unfolded seed_s3_def] bucket_names(1), unfolded empty]
  have "buckets c1 = seeded_account"
  proof
    fix n
    show "buckets c1 n = seeded_account n"
    proof (cases "n \<in> bs_name ` set BUCKETS")
      case True
      then obtain spec where spec: "spec \<in> set BUCKETS" "n = bs_name spec" by (elim imageE)
      with bspec [OF all(1) spec(1)] show ?thesis by (simp add: seeded_account_at(1))
    next
      case False
      with all(2) show ?thesis by (simp add: seeded_account_at(2))
    qed
  qed
  with s3_account.listing_result [OF account later(2)] later(1) seeded_accessible show ?thesis by (simp only:)
qed

theorem data_agent_sees_the_open_buckets_witness:
  "\<exists>c1 v c3 names. seed_s3 mem_account ''us-east-1'' [] = (Inr (), c1) \<and>
     data_handle_s3_list mem_account (initial_state ''s3_list_buckets'' ''arn'' ''t1'' ''staging'' None None) c1 = (Inr v, c3) \<and>
     v = listing ''buckets'' (map (listed seeded_account) names) \<and> set names \<subseteq> set OPEN_BUCKETS"
proof -
  let ?st = "initial_state ''s3_list_buckets'' ''arn'' ''t1'' ''staging'' None None"
  let ?c1 = "snd (seed_s3 mem_account ''us-east-1'' [])"
  have "fst (seed_s3 mem_account ''us-east-1'' []) = Inr ()" by code_simp
  then have seed: "seed_s3 mem_account ''us-east-1'' [] = (Inr (), ?c1)" by (metis prod.collapse)
  have "\<not> isl (fst (data_handle_s3_list mem_account ?st ?c1))" by code_simp
  then obtain v c3 where list: "data_handle_s3_list mem_account ?st ?c1 = (Inr v, c3)"
    by (metis prod.collapse sum.collapse(2))
  have empty: "dict_get ([] :: (string \<times> bucket) list) = Map.empty" by (rule ext) (simp add: dict_get_def)
  from data_agent_sees_the_open_buckets [OF account.s3_account_axioms empty seed refl list, THEN conjunct2]
  obtain names where "v = listing ''buckets'' (map (listed seeded_account) names)" "set names \<subseteq> set OPEN_BUCKETS"
    by (elim exE conjE)
  with seed list show ?thesis by (intro exI conjI)
qed

end
