(* ===== verification/Audit_Pipeline.thy ===== *)
theory Audit_Pipeline
  imports Audit_Properties "HOL-Library.Sublist" "HOL-Library.Multiset"
begin

text \<open>
  The way of an event from \<open>AuditProducer.publish\<close> through the topic, \<open>run_consumer\<close> and the table to
  \<open>GET /chain/verify\<close>: what the endpoint says of an agent whose events were all delivered, and what it says
  when some of them stayed in the producer's buffer.
\<close>

section \<open>The database the endpoint asks\<close>

text \<open>
  Provider: PostgreSQL. Clients: the consumer, which inserts, and the verification endpoint, whose query gives the
  rows of one agent in the order of their times.
\<close>

definition VERIFY_QUERY :: string where
  "VERIFY_QUERY = ''SELECT * FROM audit_events WHERE agent_id = $1 ORDER BY timestamp ASC''"

locale audit_database = audit_store ins rows
  for ins :: "audit_row \<Rightarrow> 'd \<Rightarrow> (string + unit) \<times> 'd" and rows :: "'d \<Rightarrow> audit_row list" +
  fixes select :: "'d \<Rightarrow> fetch"
  assumes select_agent: "select d VERIFY_QUERY [PStr a] = Inr rs \<Longrightarrow>
      mset rs = mset (filter (\<lambda>r. ae_agent_id (row_event r) = a) (rows d)) \<and>
      sorted (map (\<lambda>r. ae_timestamp (row_event r)) rs)"

text \<open>
  What the messages say of an agent: whatever decodes to an event of the agent, or to an event with one of the ids,
  is one of the given events.
\<close>

definition only_from :: "(string \<Rightarrow> audit_event option) \<Rightarrow> string \<Rightarrow> audit_event list \<Rightarrow> string list \<Rightarrow> bool" where
  "only_from validate a out ms \<longleftrightarrow> (\<forall>m\<in>set ms. \<forall>e. validate m = Some e \<longrightarrow>
     (ae_agent_id e = a \<or> ae_event_id e \<in> ae_event_id ` set out) \<longrightarrow> e \<in> set out)"

text \<open>
  How the rows of some events come back: asyncpg gives the JSON column as text, which pydantic refuses for a
  dictionary, so a row validates, to its scalar columns, exactly if that column is null.
\<close>

definition reads_rows :: "(audit_row \<Rightarrow> audit_event option) \<Rightarrow> audit_event list \<Rightarrow> bool" where
  "reads_rows row_validate out \<longleftrightarrow> (\<forall>e\<in>set out. row_validate (row_of e) =
     (if row_execution_result (row_of e) = None then Some (row_event (row_of e)) else None))"

lemma row_of_simps [simp]:
  "ae_agent_id (row_event (row_of e)) = ae_agent_id e" "ae_timestamp (row_event (row_of e)) = ae_timestamp e"
  "row_key (row_of e) = ae_event_id e"
  by (simp_all add: row_of_def row_key_def)

lemma row_of_result: "row_execution_result (row_of e) = None \<longleftrightarrow> ae_execution_result e \<in> {None, Some []}"
  by (simp add: row_of_def split: option.splits)

lemma inj_on_ids: "distinct (map ae_event_id out) \<Longrightarrow> e \<in> set out \<Longrightarrow> f \<in> set out \<Longrightarrow> ae_event_id e = ae_event_id f \<Longrightarrow> e = f"
  by (auto simp: distinct_map dest: inj_onD)

lemma mset_same_set: "mset xs = mset ys \<Longrightarrow> set xs = set ys"
  by (metis set_mset_mset)

section \<open>Gaps\<close>

text \<open>
  Events of a chain, in whatever order, that verify are a contiguous part of it, unless two of its texts have one hash or
  an event has the hash the chain started from.
\<close>

lemma verify_chain_infix:
  assumes "verify_chain (us @ ds @ vs)" shows "verify_chain ds"
proof -
  have "verify_chain fs" if "verify_chain (gs @ fs)" for gs fs
    using that verify_chain_append [of gs fs] by (cases "gs = []"; cases "fs = []") (simp_all add: verify_chain_def)
  from this [OF assms] have "verify_chain (ds @ vs)" .
  then show ?thesis using verify_chain_append [of ds vs] by (cases "vs = []"; cases "ds = []") (simp_all add: verify_chain_def)
qed

lemma verify_chain_sublist: "verify_chain out \<Longrightarrow> sublist ds out \<Longrightarrow> verify_chain ds"
  unfolding sublist_def using verify_chain_infix by blast

lemma verify_chain_hash: "verify_chain out \<Longrightarrow> e \<in> set out \<Longrightarrow> ae_event_hash e = compute_event_hash e"
  unfolding verify_chain_chained audit.chained_def by blast

lemma verify_chain_link: "verify_chain (us @ u # d # vs) \<Longrightarrow> ae_previous_event_hash d = ae_event_hash u"
  using verify_chain_infix [of us "[u, d]" vs] by (simp add: verify_chain_def split: if_splits)

lemma same_hash_same_event:
  assumes "verify_chain out" "distinct (map ae_event_id out)" "\<not> audit.collide out out"
    and "e \<in> set out" "f \<in> set out" "ae_event_hash e = ae_event_hash f"
  shows "e = f"
proof -
  have "sha256_hex (canonical e) = sha256_hex (canonical f)"
    using verify_chain_hash [OF assms(1)] assms(4-6) by (simp add: compute_event_hash_def)
  then have "canonical e = canonical f" using assms(3-5) unfolding audit.collide_def by blast
  then have "ae_event_id e = ae_event_id f" by (drule_tac canonical_inject) (simp add: protected_def)
  then show ?thesis by (rule inj_on_ids [OF assms(2,4,5)])
qed

lemma verified_events_contiguous:
  assumes out: "verify_chain out" "distinct (map ae_event_id out)" "\<not> audit.collide out out"
    and start: "\<forall>e\<in>set out. ae_event_hash e \<noteq> ae_previous_event_hash (hd out)"
  shows "verify_chain xs \<Longrightarrow> set xs \<subseteq> set out \<Longrightarrow> sublist xs out"
proof (induction xs)
  case Nil
  then show ?case by simp
next
  case (Cons e xs)
  show ?case
  proof (cases xs)
    case Nil
    with Cons.prems(2) show ?thesis by (auto simp: sublist_def in_set_conv_decomp)
  next
    case (Cons d rest)
    have "verify_chain xs" using Cons.prems(1) verify_chain_infix [of "[e]" xs "[]"] by simp
    with Cons.IH Cons.prems(2) obtain us vs where split: "out = us @ xs @ vs" unfolding sublist_def by auto
    have link: "ae_previous_event_hash d = ae_event_hash e"
      using verify_chain_link [of "[]" e d rest] Cons.prems(1) Cons by simp
    show ?thesis
    proof (cases us rule: rev_cases)
      case Nil
      then have "hd out = d" using split Cons by simp
      with link start Cons.prems(2) show ?thesis by auto
    next
      case (snoc ws u)
      have "ae_previous_event_hash d = ae_event_hash u"
        using verify_chain_link [of ws u d "rest @ vs"] out(1) split snoc Cons by simp
      with link have "ae_event_hash e = ae_event_hash u" by simp
      moreover have "u \<in> set out" using split snoc by simp
      ultimately have "e = u" using same_hash_same_event [OF out] Cons.prems(2) by simp
      then show ?thesis using split snoc by (metis append_assoc append_Cons append_Nil sublist_appendI)
    qed
  qed
qed

lemma sublist_selection:
  assumes "distinct out" and "sublist xs out" and "set xs = set (filter P out)"
  shows "filter P out = xs"
proof -
  from assms(2) obtain us vs where out: "out = us @ xs @ vs" unfolding sublist_def by blast
  have "filter P out = filter (\<lambda>e. e \<in> set xs) out" using assms(3) by (intro filter_cong) auto
  also have "filter (\<lambda>e. e \<in> set xs) us = []" "filter (\<lambda>e. e \<in> set xs) vs = []"
    using assms(1) unfolding out filter_empty_conv by auto
  then have "filter (\<lambda>e. e \<in> set xs) out = xs" unfolding out by simp
  finally show ?thesis .
qed

section \<open>What the endpoint finds in the table\<close>

lemma publish_all_map:
  assumes "publish_all dump send es s = (out, s')"
    and "\<And>e h h'. f (e\<lparr>ae_previous_event_hash := h, ae_event_hash := h'\<rparr>) = f e"
  shows "map f out = map f es"
  using publish_all_changes [OF assms(1)] by (induction es out rule: list_all2_induct) (auto simp: assms(2))

lemma publish_all_fields:
  assumes "publish_all dump send es s = (out, s')"
  shows "map ae_event_id out = map ae_event_id es" "map ae_timestamp out = map ae_timestamp es"
    "map ae_agent_id out = map ae_agent_id es" "map ae_execution_result out = map ae_execution_result es"
  by (rule publish_all_map [OF assms], simp)+

lemma publish_all_set:
  assumes "publish_all dump send es s = (out, s')"
  shows "ae_event_id ` set out = ae_event_id ` set es" "ae_agent_id ` set out = ae_agent_id ` set es"
    "ae_execution_result ` set out = ae_execution_result ` set es" "length out = length es"
  using publish_all_fields [OF assms] by (metis set_map length_map)+

text \<open>The endpoint on rows of given events; the column that is not hashed does not change the verdict.\<close>

lemma verify_from_rows:
  "verify_from (map_option (\<lambda>e. row_event (row_of e)) b) (map (\<lambda>e. row_event (row_of e)) xs) = verify_from b xs"
proof (induction xs arbitrary: b)
  case Nil
  then show ?case by simp
next
  case (Cons e xs)
  have "compute_event_hash (row_event (row_of e)) = compute_event_hash e" "ae_event_hash (row_event (row_of f)) = ae_event_hash f"
    "ae_previous_event_hash (row_event (row_of f)) = ae_previous_event_hash f" for f
    by (simp_all add: compute_event_hash_def canonical_def hashed_fields_def row_of_def)
  with Cons.IH [of "Some e"] show ?case by (simp split: option.splits)
qed

lemma verify_chain_rows: "verify_chain (map (\<lambda>e. row_event (row_of e)) xs) = verify_chain xs"
  using verify_from_rows [of None xs] by (simp add: verify_chain_def)

lemma endpoint_verdict:
  assumes rs: "fetch VERIFY_QUERY [PStr a] = Inr (map row_of xs)" and reads: "reads_rows row_validate xs"
  shows "\<exists>note. verify_chain_endpoint fetch row_validate a api =
     (if \<exists>e\<in>set xs. ae_execution_result e \<notin> {None, Some []}
      then (Inl (HTTPException 503 ''Verification unavailable''),
         api\<lparr>aq_chain_verifications := aq_chain_verifications api + 1\<rparr>)
      else (Inr \<lparr>ch_agent_id = a, ch_valid = verify_chain xs, ch_event_count = length xs, ch_note = note\<rparr>,
         api\<lparr>aq_chain_verifications := aq_chain_verifications api + 1,
             aq_chain_failures := aq_chain_failures api + (if verify_chain xs then 0 else 1)\<rparr>))"
proof (cases "\<exists>e\<in>set xs. ae_execution_result e \<notin> {None, Some []}")
  case True
  then obtain e where e: "e \<in> set xs" "ae_execution_result e \<notin> {None, Some []}" by blast
  then have "row_validate (row_of e) = None" using reads unfolding reads_rows_def row_of_result by simp
  with e(1) have "those (map row_validate (map row_of xs)) = None" by (induction xs) (auto split: option.splits)
  moreover have "xs \<noteq> []" using e(1) by auto
  ultimately show ?thesis unfolding if_P [OF True]
    using rs by (simp add: verify_chain_endpoint_def VERIFY_QUERY_def Let_def)
next
  case False
  then have "those (map row_validate (map row_of xs)) = Some (map (\<lambda>e. row_event (row_of e)) xs)"
    using reads unfolding reads_rows_def row_of_result by (induction xs) auto
  with rs show ?thesis unfolding if_not_P [OF False]
    by (auto simp: verify_chain_endpoint_def VERIFY_QUERY_def Let_def verify_chain_rows) (simp_all add: verify_chain_def)
qed

context audit_database
begin

text \<open>The rows of the agent are those of its events that are in the table, and the query gives them by their times.\<close>

lemma stored_rows:
  assumes run: "consume validate ins ms d = (Inr (), d')" and only: "only_from validate a out ms"
    and agent: "\<forall>e\<in>set out. ae_agent_id e = a" and fresh: "\<forall>r\<in>set (rows d). ae_agent_id (row_event r) \<noteq> a"
  shows "{r \<in> set (rows d'). ae_agent_id (row_event r) = a} = row_of ` set (filter (\<lambda>e. row_of e \<in> set (rows d')) out)"
proof (intro equalityI subsetI)
  fix r assume r: "r \<in> {r \<in> set (rows d'). ae_agent_id (row_event r) = a}"
  then have "r \<notin> set (rows d)" using fresh by blast
  with r consume_keeps(3) [OF run] obtain m e where "m \<in> set ms" "validate m = Some e" "r = row_of e" by blast
  moreover from this have "e \<in> set out" using only r unfolding only_from_def by auto
  ultimately show "r \<in> row_of ` set (filter (\<lambda>e. row_of e \<in> set (rows d')) out)" using r by auto
qed (use agent in auto)

lemma row_of_inj: "distinct (map ae_event_id out) \<Longrightarrow> inj_on row_of (set out)"
  by (rule inj_onI) (metis inj_on_ids row_of_simps(3))

lemma queried_events:
  assumes run: "consume validate ins ms d = (Inr (), d')" and only: "only_from validate a out ms"
    and out: "\<forall>e\<in>set out. ae_agent_id e = a" "distinct (map ae_event_id out)"
    and fresh: "\<forall>r\<in>set (rows d). ae_agent_id (row_event r) \<noteq> a" "distinct (map row_key (rows d))"
    and answer: "select d' VERIFY_QUERY [PStr a] = Inr rs"
  obtains xs where "rs = map row_of xs" "distinct xs" "set xs = set (filter (\<lambda>e. row_of e \<in> set (rows d')) out)"
    "sorted (map ae_timestamp xs)"
proof -
  let ?ds = "filter (\<lambda>e. row_of e \<in> set (rows d')) out"
  note rs = select_agent [OF answer]
  have set_rs: "set rs = row_of ` set ?ds"
    unfolding stored_rows [OF run only out(1) fresh(1), symmetric] mset_same_set [OF rs [THEN conjunct1]] by auto
  have "distinct (rows d')" using consume_keeps(2) [OF run fresh(2)] by (simp add: distinct_map)
  then have dist: "distinct rs" unfolding mset_eq_imp_distinct_iff [OF rs [THEN conjunct1]] by (rule distinct_filter)
  have inj: "inj_on row_of (set ?ds)" using row_of_inj [OF out(2)] by (rule inj_on_subset) auto
  define xs where "xs = map (the_inv_into (set ?ds) row_of) rs"
  have m: "map row_of xs = rs" unfolding xs_def map_map
    by (rule map_idI) (metis comp_apply f_the_inv_into_f inj set_rs)
  moreover have "set xs = set ?ds" unfolding xs_def set_map set_rs by (rule the_inv_into_onto [OF inj])
  moreover have "distinct xs" using dist unfolding m [symmetric] distinct_map by blast
  moreover have "sorted (map ae_timestamp xs)" using rs unfolding m [symmetric] by (simp add: comp_def)
  ultimately show thesis using that by metis
qed

lemma strictly_ordered:
  assumes "distinct xs" "set xs = set ds" "sorted (map t xs)" "sorted_wrt (<) (map t ds)"
  shows "xs = (ds :: audit_event list)"
proof -
  have ds: "distinct (map t ds)" "sorted (map t ds)" using assms(4) strict_sorted_iff by blast+
  then have inj: "inj_on t (set xs)" using assms(2) by (simp add: distinct_map)
  then have "distinct (map t xs)" using assms(1) by (simp add: distinct_map)
  then have "map t xs = map t ds" using sorted_distinct_set_unique [OF assms(3) _ ds(2,1)] assms(2) by simp
  with inj assms(2) show ?thesis by (metis inj_on_map_eq_map sup.idem)
qed

lemma all_stored:
  assumes ok: "\<forall>r d. isl (fst (ins r d)) = False"
    and run: "consume validate ins ms d = (Inr (), d')" and only: "only_from validate a out ms"
    and ids: "distinct (map ae_event_id out)" "\<forall>r\<in>set (rows d). row_key r \<notin> ae_event_id ` set out"
    and decoded: "\<forall>e\<in>set out. \<exists>m\<in>set ms. validate m = Some e"
  shows "filter (\<lambda>e. row_of e \<in> set (rows d')) out = out"
proof (rule filter_True, rule ballI)
  fix e assume e: "e \<in> set out"
  with decoded obtain m where m: "m \<in> set ms" "validate m = Some e" by blast
  obtain r where r: "r \<in> set (rows d')" "row_key r = ae_event_id e"
    using consume_complete [OF ok run m] by (metis imageE)
  with ids(2) e have "r \<notin> set (rows d)" by force
  with r consume_keeps(3) [OF run] obtain n f where f: "n \<in> set ms" "validate n = Some f" "r = row_of f" by blast
  with r(2) have id: "ae_event_id f = ae_event_id e" by simp
  with f e only have "f \<in> set out" unfolding only_from_def by (metis imageI)
  from inj_on_ids [OF ids(1) this e id] f(3) r(1) show "row_of e \<in> set (rows d')" by simp
qed

text \<open>The verdict, whatever was stored.\<close>

lemma pipeline:
  assumes es: "\<forall>e\<in>set es. ae_agent_id e = a" "distinct (map ae_event_id es)"
    and published: "publish_all dump send es (p, k) = (out, (p', k'))"
    and polled: "run_consumer validate ins polls s = (x, s')"
    and only: "only_from validate a out (concat (concat (rounds_of polls)))"
    and fresh: "\<forall>r\<in>set (rows (cs_database s)). ae_agent_id (row_event r) \<noteq> a"
      "distinct (map row_key (rows (cs_database s)))"
    and reads: "reads_rows row_validate out"
    and answer: "select (cs_database s') VERIFY_QUERY [PStr a] = Inr rs"
    and ds: "ds = filter (\<lambda>e. row_of e \<in> set (rows (cs_database s'))) out"
  obtains xs n where "distinct xs" "set xs = set ds"
    "sorted_wrt (<) (map ae_timestamp es) \<longrightarrow> xs = ds"
    "verify_chain_endpoint (select (cs_database s')) row_validate a api =
     (if \<exists>e\<in>set ds. ae_execution_result e \<notin> {None, Some []}
      then (Inl (HTTPException 503 ''Verification unavailable''),
         api\<lparr>aq_chain_verifications := aq_chain_verifications api + 1\<rparr>)
      else (Inr \<lparr>ch_agent_id = a, ch_valid = verify_chain xs, ch_event_count = length ds, ch_note = n\<rparr>,
         api\<lparr>aq_chain_verifications := aq_chain_verifications api + 1,
             aq_chain_failures := aq_chain_failures api + (if verify_chain xs then 0 else 1)\<rparr>))"
proof -
  let ?ms = "concat (concat (rounds_of polls))" 
  note fields = publish_all_fields [OF published] and sets = publish_all_set [OF published]
  have run: "consume validate ins ?ms (cs_database s) = (Inr (), cs_database s')"
    using run_consumer_run [of validate ins polls s] polled by auto
  have agent: "\<forall>e\<in>set out. ae_agent_id e = a" using es(1) sets(2) by (metis image_iff)
  have ids: "distinct (map ae_event_id out)" using es(2) fields(1) by simp
  obtain xs where xs: "rs = map row_of xs" "distinct xs" "set xs = set ds" "sorted (map ae_timestamp xs)"
    unfolding ds by (rule queried_events [OF run only agent ids fresh answer])
  have times: "sorted_wrt (<) (map ae_timestamp es) \<longrightarrow> xs = ds"
  proof (rule impI, rule strictly_ordered [OF xs(2-4)])
    assume "sorted_wrt (<) (map ae_timestamp es)"
    with fields(2) have "sorted_wrt (<) (map ae_timestamp out)" by simp
    then show "sorted_wrt (<) (map ae_timestamp ds)" unfolding ds by (simp add: sorted_wrt_map sorted_wrt_filter)
  qed
  have "distinct ds" using ids unfolding ds by (simp add: distinct_map)
  then have len: "length xs = length ds" using xs(2,3) by (metis distinct_card)
  have "reads_rows row_validate xs" using reads xs(3) unfolding reads_rows_def ds by auto
  from endpoint_verdict [where fetch = "select (cs_database s')", OF answer [unfolded xs(1)] this, of api]
  obtain n where "verify_chain_endpoint (select (cs_database s')) row_validate a api =
     (if \<exists>e\<in>set ds. ae_execution_result e \<notin> {None, Some []}
      then (Inl (HTTPException 503 ''Verification unavailable''),
         api\<lparr>aq_chain_verifications := aq_chain_verifications api + 1\<rparr>)
      else (Inr \<lparr>ch_agent_id = a, ch_valid = verify_chain xs, ch_event_count = length ds, ch_note = n\<rparr>,
         api\<lparr>aq_chain_verifications := aq_chain_verifications api + 1,
             aq_chain_failures := aq_chain_failures api + (if verify_chain xs then 0 else 1)\<rparr>))"
    unfolding xs(3) len by (elim exE)
  with xs(2,3) times show thesis by (rule that)
qed

end

section \<open>A concrete database and messages\<close>

definition demo_select :: "audit_row list \<Rightarrow> fetch" where
  "demo_select d query params = (case params of
       [PStr a] \<Rightarrow> Inr (sort_key (\<lambda>r. ae_timestamp (row_event r)) (filter (\<lambda>r. ae_agent_id (row_event r) = a) d))
     | _ \<Rightarrow> Inl ''syntax error'')"

interpretation demo_database: audit_database demo_insert "\<lambda>d. d" demo_select
  by unfold_locales (auto simp: demo_select_def)

definition demo_read :: "string \<Rightarrow> audit_event option" where
  "demo_read m = find (\<lambda>e. demo_event_dump e = m) [demo_first, demo_second]"

definition demo_consumer :: "audit_row list consumer_state" where
  "demo_consumer = \<lparr>cs_database = [], cs_consumer_closed = False, cs_connection_closed = False\<rparr>"

lemma demo_pair [simp]:
  "ae_agent_id demo_first = ''agent-infra-001''" "ae_agent_id demo_second = ''agent-infra-001''"
  "ae_event_id demo_first = ''e1''" "ae_event_id demo_second = ''e2''"
  "ae_execution_result demo_first = None" "ae_execution_result demo_second = None"
  unfolding demo_second_def demo_first_def by (simp_all add: demo_event_def seal_def Let_def)

lemma demo_messages: "demo_event_dump demo_first \<noteq> demo_event_dump demo_second"
  by (simp add: demo_event_dump_def dumps_compact_inject)

lemma demo_read_dump [simp]: "demo_read (demo_event_dump demo_first) = Some demo_first"
  "demo_read (demo_event_dump demo_second) = Some demo_second"
  using demo_messages by (simp_all add: demo_read_def)

lemma demo_published: "publish_all demo_event_dump (demo_send up) demo_two (producer_init up, []) =
   ([demo_first, demo_second],
    (\<lparr>pr_last_hash = ae_event_hash demo_second, pr_fallback = if up then [] else [demo_first, demo_second], pr_connected = up\<rparr>,
     if up then [demo_event_dump demo_first, demo_event_dump demo_second] else []))"
proof -
  have "seal GENESIS_HASH (demo_event ''e1'' 0) = demo_first" by (simp add: demo_first_def)
  moreover have "seal (ae_event_hash demo_first) (demo_event ''e2'' 1) = demo_second" by (simp add: demo_second_def)
  ultimately show ?thesis
    by (simp add: demo_two_def publish_def producer_init_def demo_send_def Let_def)
qed

lemma demo_only: "set ms \<subseteq> {demo_event_dump demo_first, demo_event_dump demo_second} \<Longrightarrow>
   only_from demo_read a [demo_first, demo_second] ms"
  unfolding only_from_def by force

lemma demo_rows_read: "reads_rows demo_row_validate out"
  by (simp add: reads_rows_def demo_row_validate_def)

lemma demo_inserts: "\<forall>r d. isl (fst (demo_insert r d)) = False"
  by (simp add: demo_insert_def)

lemma demo_two_facts: "\<forall>e\<in>set demo_two. ae_agent_id e = ''agent-infra-001''" "distinct (map ae_event_id demo_two)"
  "sorted_wrt (<) (map ae_timestamp demo_two)"
  by (simp_all add: demo_two_def demo_event_def)

section \<open>From the producer to the verdict\<close>

text \<open>
  C6: From end to end. Suppose that the table holds nothing of the agent yet and the agent's messages are those of one
  producer; that the events have different ids and increasing times; that the broker acknowledged each of them; that the
  consumer polled them (in any order, in any number of partitions, some of them again, mixed with the messages of other
  agents), they decode, and no insert failed; and that the database answers. If none of the events has an
  execution result, the verification endpoint answers that the chain is valid and counts all of them, whatever the
  producer's history was. If one has, as after every tool that ran and returned something, it answers 503 instead, since
  the JSON column comes back as text.
\<close>
theorem delivered_history_verifies:
  assumes broker: "topic send logged" and db: "audit_database ins rows select"
    and ok: "\<forall>r d. isl (fst (ins r d)) = False"
    and es: "\<forall>e\<in>set es. ae_agent_id e = a" "distinct (map ae_event_id es)" "sorted_wrt (<) (map ae_timestamp es)"
    and published: "publish_all dump send es (p, k) = (out, (p', k'))" and acknowledged: "pr_fallback p' = []"
    and codec: "\<forall>e\<in>set out. validate (dump e) = Some e" "reads_rows row_validate out"
    and polled: "run_consumer validate ins polls s = (x, s')" "set (logged k') \<subseteq> set (concat (concat (rounds_of polls)))"
    and only: "only_from validate a out (concat (concat (rounds_of polls)))"
    and fresh: "\<forall>r\<in>set (rows (cs_database s)). ae_agent_id (row_event r) \<noteq> a \<and> row_key r \<notin> ae_event_id ` set es"
      "distinct (map row_key (rows (cs_database s)))"
    and answer: "select (cs_database s') VERIFY_QUERY [PStr a] = Inr rs"
  shows "\<exists>note. verify_chain_endpoint (select (cs_database s')) row_validate a api =
     (if \<exists>e\<in>set es. ae_execution_result e \<notin> {None, Some []}
      then Inl (HTTPException 503 ''Verification unavailable'')
      else Inr \<lparr>ch_agent_id = a, ch_valid = True, ch_event_count = length es, ch_note = note\<rparr>,
      api\<lparr>aq_chain_verifications := aq_chain_verifications api + 1\<rparr>)"
proof -
  let ?ms = "concat (concat (rounds_of polls))"
  note sets = publish_all_set [OF published]
  have free: "\<forall>r\<in>set (rows (cs_database s)). ae_agent_id (row_event r) \<noteq> a" using fresh(1) by blast
  have "dump e \<in> set ?ms" if "e \<in> set out" for e
    using topic.publish_all_delivers(1) [OF broker published that] acknowledged subsetD [OF polled(2), of "dump e"] by simp
  then have decoded: "\<forall>e\<in>set out. \<exists>m\<in>set ?ms. validate m = Some e" using codec(1) by blast
  have run: "consume validate ins ?ms (cs_database s) = (Inr (), cs_database s')"
    using run_consumer_run [of validate ins polls s] polled(1) by auto
  have ids: "distinct (map ae_event_id out)" using es(2) publish_all_fields(1) [OF published] by simp
  have keys: "\<forall>r\<in>set (rows (cs_database s)). row_key r \<notin> ae_event_id ` set out" using fresh(1) sets(1) by simp
  note all = audit_database.all_stored [OF db ok run only ids keys decoded]
  have chain: "verify_chain out" by (rule publish_all_chain(1) [OF published])
  have same: "(\<exists>e\<in>set out. ae_execution_result e \<notin> {None, Some []}) \<longleftrightarrow> (\<exists>e\<in>set es. ae_execution_result e \<notin> {None, Some []})"
    using arg_cong [OF sets(3), of "\<lambda>X. \<exists>y\<in>X. y \<notin> {None, Some []}"] by simp
  obtain xs n where "distinct xs" "set xs = set out" and xs: "sorted_wrt (<) (map ae_timestamp es) \<longrightarrow> xs = out"
    and verdict: "verify_chain_endpoint (select (cs_database s')) row_validate a api =
     (if \<exists>e\<in>set out. ae_execution_result e \<notin> {None, Some []}
      then (Inl (HTTPException 503 ''Verification unavailable''),
         api\<lparr>aq_chain_verifications := aq_chain_verifications api + 1\<rparr>)
      else (Inr \<lparr>ch_agent_id = a, ch_valid = verify_chain xs, ch_event_count = length out, ch_note = n\<rparr>,
         api\<lparr>aq_chain_verifications := aq_chain_verifications api + 1,
             aq_chain_failures := aq_chain_failures api + (if verify_chain xs then 0 else 1)\<rparr>))"
    by (rule audit_database.pipeline [OF db es(1,2) published polled(1) only free fresh(2) codec(2) answer all [symmetric], of api])
  from xs es(3) have "xs = out" by blast
  show ?thesis unfolding verdict same \<open>xs = out\<close> sets(4) using chain by (intro exI [of _ n]) simp
qed

theorem delivered_history_verifies_witness:
  "\<exists>x s' note. run_consumer demo_read demo_insert
      [Inr [[demo_event_dump demo_second], [demo_event_dump demo_first, demo_event_dump demo_second]]] demo_consumer = (x, s') \<and>
     verify_chain_endpoint (demo_select (cs_database s')) demo_row_validate ''agent-infra-001'' demo_api =
     (Inr \<lparr>ch_agent_id = ''agent-infra-001'', ch_valid = True, ch_event_count = 2, ch_note = note\<rparr>,
      demo_api\<lparr>aq_chain_verifications := 1\<rparr>)"
proof -
  let ?polls = "[Inr [[demo_event_dump demo_second], [demo_event_dump demo_first, demo_event_dump demo_second]]]
    :: (exn + string list list) list"
  obtain x s' where run: "run_consumer demo_read demo_insert ?polls demo_consumer = (x, s')" by fastforce
  have ms: "concat (concat (rounds_of ?polls)) = [demo_event_dump demo_second, demo_event_dump demo_first, demo_event_dump demo_second]"
    by (simp add: rounds_of_def)
  obtain rs where answer: "demo_select (cs_database s') VERIFY_QUERY [PStr ''agent-infra-001''] = Inr rs"
    by (simp add: demo_select_def)
  have "length demo_two = 2" "\<not> (\<exists>e\<in>set demo_two. ae_execution_result e \<notin> {None, Some []})"
    by (simp_all add: demo_two_def demo_event_def)
  note len = this(1) and no_result = this(2)
  have "\<exists>note. verify_chain_endpoint (demo_select (cs_database s')) demo_row_validate ''agent-infra-001'' demo_api =
     (Inr \<lparr>ch_agent_id = ''agent-infra-001'', ch_valid = True, ch_event_count = length demo_two, ch_note = note\<rparr>,
      demo_api\<lparr>aq_chain_verifications := aq_chain_verifications demo_api + 1\<rparr>)"
    by (rule delivered_history_verifies [OF demo_topic.topic_axioms demo_database.audit_database_axioms demo_inserts demo_two_facts
      demo_published [of True] _ _ demo_rows_read run _ _ _ _ answer, of demo_api, unfolded if_not_P [OF no_result]])
      (simp_all add: ms demo_only demo_consumer_def)
  with run show ?thesis unfolding len by (auto simp: demo_api_def)
qed

text \<open>
  C7: What a lost event does to the evidence, whether its send or its insert failed. Suppose that the table held
  nothing of the agent before and its ids are unique, that the agent's messages are those of one producer with different
  event ids, and that the database answers; take the published events whose row is in the table. If one of these has an
  execution result, the endpoint answers 503. Otherwise it counts them; when it answers valid, they are a
  contiguous part of what was published, so a lost event in between is reported as tampering, unless two of the
  published texts have the same SHA-256 hash or an event has the hash the producer started from; and when they are
  contiguous and the times of the events increase, it answers valid, so a lost beginning or end is not noticed.
\<close>
theorem gaps_are_reported_as_tampering:
  assumes db: "audit_database ins rows select"
    and es: "\<forall>e\<in>set es. ae_agent_id e = a" "distinct (map ae_event_id es)"
    and published: "publish_all dump send es (p, k) = (out, (p', k'))"
    and reads: "reads_rows row_validate out"
    and polled: "run_consumer validate ins polls s = (x, s')"
    and only: "only_from validate a out (concat (concat (rounds_of polls)))"
    and fresh: "\<forall>r\<in>set (rows (cs_database s)). ae_agent_id (row_event r) \<noteq> a"
      "distinct (map row_key (rows (cs_database s)))"
    and answer: "select (cs_database s') VERIFY_QUERY [PStr a] = Inr rs"
    and stored: "ds = filter (\<lambda>e. row_of e \<in> set (rows (cs_database s'))) out"
  shows "if \<exists>e\<in>set ds. ae_execution_result e \<notin> {None, Some []}
     then fst (verify_chain_endpoint (select (cs_database s')) row_validate a api) =
       Inl (HTTPException 503 ''Verification unavailable'')
     else \<exists>reply. fst (verify_chain_endpoint (select (cs_database s')) row_validate a api) = Inr reply \<and>
       ch_event_count reply = length ds \<and>
       (ch_valid reply \<longrightarrow> sublist ds out \<or> audit.collide out out \<or> (\<exists>e\<in>set out. ae_event_hash e = pr_last_hash p)) \<and>
       (sublist ds out \<and> sorted_wrt (<) (map ae_timestamp es) \<longrightarrow> ch_valid reply)"
proof -
  note chain = publish_all_chain [OF published]
  have ids: "distinct (map ae_event_id out)" using es(2) publish_all_fields(1) [OF published] by simp
  obtain xs n where xs: "distinct xs" "set xs = set ds" "sorted_wrt (<) (map ae_timestamp es) \<longrightarrow> xs = ds"
    and verdict: "verify_chain_endpoint (select (cs_database s')) row_validate a api =
     (if \<exists>e\<in>set ds. ae_execution_result e \<notin> {None, Some []}
      then (Inl (HTTPException 503 ''Verification unavailable''),
         api\<lparr>aq_chain_verifications := aq_chain_verifications api + 1\<rparr>)
      else (Inr \<lparr>ch_agent_id = a, ch_valid = verify_chain xs, ch_event_count = length ds, ch_note = n\<rparr>,
         api\<lparr>aq_chain_verifications := aq_chain_verifications api + 1,
             aq_chain_failures := aq_chain_failures api + (if verify_chain xs then 0 else 1)\<rparr>))"
    by (rule audit_database.pipeline [OF db es published polled only fresh reads answer stored, of api])
  have forward: "sublist ds out" if "verify_chain xs" "\<not> audit.collide out out" "\<not> (\<exists>e\<in>set out. ae_event_hash e = pr_last_hash p)"
  proof -
    have sub: "set xs \<subseteq> set out" using xs(2) unfolding stored by auto
    have "\<forall>e\<in>set out. ae_event_hash e \<noteq> ae_previous_event_hash (hd out)" using chain(3) that(3) by (cases out) auto
    from verified_events_contiguous [OF chain(1) ids that(2) this that(1) sub] have "sublist xs out" .
    moreover from this have "ds = xs"
      using sublist_selection [of out xs] ids xs(2) unfolding stored by (simp add: distinct_map)
    ultimately show ?thesis by simp
  qed
  have backward: "verify_chain xs" if "sublist ds out" "sorted_wrt (<) (map ae_timestamp es)"
    using verify_chain_sublist [OF chain(1) that(1)] xs(3) that(2) by simp
  show ?thesis using verdict forward backward by auto
qed

theorem gaps_are_reported_as_tampering_witness:
  "\<exists>x s' reply. run_consumer demo_read demo_insert [Inr [[demo_event_dump demo_second]]] demo_consumer = (x, s') \<and>
     fst (verify_chain_endpoint (demo_select (cs_database s')) demo_row_validate ''agent-infra-001'' demo_api) = Inr reply \<and>
     ch_event_count reply = 1 \<and> ch_valid reply"
proof -
  let ?polls = "[Inr [[demo_event_dump demo_second]]] :: (exn + string list list) list"
  let ?ds = "[demo_second]"
  obtain x s' where run: "run_consumer demo_read demo_insert ?polls demo_consumer = (x, s')" by fastforce
  have only: "only_from demo_read ''agent-infra-001'' [demo_first, demo_second] (concat (concat (rounds_of ?polls)))"
    by (rule demo_only) (simp add: rounds_of_def)
  have rows: "cs_database s' = [row_of demo_second]"
  proof -
    have "poll_loop demo_read demo_insert ?polls [] = (Inr (), [row_of demo_second])"
      by (simp add: consume_message_def persist_def demo_insert_def seq_def try_except_def ret_def)
    with run show ?thesis by (auto simp: run_consumer_def demo_consumer_def)
  qed
  obtain rs where answer: "demo_select (cs_database s') VERIFY_QUERY [PStr ''agent-infra-001''] = Inr rs"
    by (simp add: demo_select_def)
  have "row_key (row_of demo_first) \<noteq> row_key (row_of demo_second)" unfolding row_of_simps(3) demo_pair by simp
  then have "row_of demo_first \<noteq> row_of demo_second" by metis
  then have stored: "?ds = filter (\<lambda>e. row_of e \<in> set (cs_database s')) [demo_first, demo_second]" by (simp add: rows)
  have none: "\<not> (\<exists>e\<in>set ?ds. ae_execution_result e \<notin> {None, Some []})" by simp
  have empty: "\<forall>r\<in>set (cs_database demo_consumer). ae_agent_id (row_event r) \<noteq> ''agent-infra-001''"
    "distinct (map row_key (cs_database demo_consumer))" by (simp_all add: demo_consumer_def)
  have "sublist ?ds [demo_first, demo_second]" by (simp add: sublist_Cons_right)
  with gaps_are_reported_as_tampering [OF demo_database.audit_database_axioms demo_two_facts(1,2) demo_published [of True]
      demo_rows_read run only empty answer stored, of demo_api, unfolded if_not_P [OF none]] demo_two_facts(3)
  have "\<exists>reply. fst (verify_chain_endpoint (demo_select (cs_database s')) demo_row_validate ''agent-infra-001'' demo_api) = Inr reply \<and>
     ch_event_count reply = 1 \<and> ch_valid reply" by auto
  with run show ?thesis by blast
qed

end
