(* ===== verification/Rego_First_Policy.thy ===== *)
theory Rego_First_Policy
  imports Policy_Properties
begin

text \<open>
  \<open>policy/rego/authorization.rego\<close>, the first version of the package that \<open>policy/rego/nhi/main.rego\<close> declares again, and
  what the second version changed. The terms of Rego are those of Rego_Policy.
\<close>

section \<open>The rules of authorization.rego\<close>

definition first_scope_map :: "(string \<times> string) list" where
  "first_scope_map =
     [(''s3:ListBuckets'', ''cloud:s3:list''), (''s3:GetObject'', ''cloud:s3:read''), (''s3:PutObject'', ''cloud:s3:write''),
      (''s3:DeleteObject'', ''cloud:s3:delete''), (''s3:DeleteBucket'', ''cloud:s3:delete''),
      (''ec2:DescribeInstances'', ''cloud:ec2:describe''), (''ec2:DescribeSecurityGroups'', ''cloud:ec2:describe''),
      (''ec2:TerminateInstances'', ''cloud:ec2:terminate''), (''iam:ListRoles'', ''cloud:iam:read''),
      (''iam:CreateRole'', ''cloud:iam:create-role''), (''iam:CreateUser'', ''cloud:iam:write''),
      (''securityhub:GetFindings'', ''cloud:securityhub:read'')]"

definition first_destructive_actions :: "string list" where
  "first_destructive_actions =
     [''s3:DeleteObject'', ''s3:DeleteBucket'', ''ec2:TerminateInstances'', ''iam:DeleteRole'', ''iam:DeleteUser'']"

definition first_action_in_scope :: "json \<Rightarrow> bool" where
  "first_action_in_scope i \<longleftrightarrow>
     (case (case dot (Some i) ''action'' of Some (JStr a) \<Rightarrow> dict_get first_scope_map a | _ \<Rightarrow> None) of
        None \<Rightarrow> False
      | Some s \<Rightarrow> rego_contains (claim i ''scope'') s \<or> JStr s \<in> set (elements (claim i ''scopes'')))"

definition first_within_window :: "rego \<Rightarrow> json \<Rightarrow> bool" where
  "first_within_window E i \<longleftrightarrow>
     \<not> holds (context_value i ''time_window'') \<or>
     (case (dot (context_value i ''time_window'') ''start_hour_utc'', dot (context_value i ''time_window'') ''end_hour_utc'') of
        (Some a, Some b) \<Rightarrow> \<not> rego_less E (JInt (utc_hour (rg_now_ns E))) a \<and> rego_less E (JInt (utc_hour (rg_now_ns E))) b
      | _ \<Rightarrow> False)"

definition destructive_without_approval :: "json \<Rightarrow> bool" where
  "destructive_without_approval i \<longleftrightarrow> action_in first_destructive_actions i \<and> \<not> pre_approved i"

text \<open>\<open>valid_token\<close> and \<open>task_is_active\<close> are word for word those of the second version.\<close>

definition first_gates :: "rego \<Rightarrow> json \<Rightarrow> bool" where
  "first_gates E i \<longleftrightarrow> valid_token i \<and> first_action_in_scope i \<and> first_within_window E i \<and> task_is_active i"

definition first_effect :: "rego \<Rightarrow> json \<Rightarrow> string rule_value" where
  "first_effect E i = with_default ''DENY'' (complete_rule
     (body (first_gates E i \<and> \<not> destructive_without_approval i) ''ALLOW'' @
      body (first_gates E i \<and> destructive_without_approval i) ''REQUIRE_APPROVAL''))"

definition first_reason :: "rego \<Rightarrow> json \<Rightarrow> string rule_value" where
  "first_reason E i = with_default ''No policy explicitly allows this action'' (complete_rule
     (body (\<not> valid_token i) ''Token is invalid or agent is not in ACTIVE state'' @
      body (valid_token i \<and> \<not> first_action_in_scope i) ''Action scope not present in token'' @
      body (valid_token i \<and> first_action_in_scope i \<and> \<not> first_within_window E i) ''Action outside agent declared time window'' @
      body (valid_token i \<and> first_action_in_scope i \<and> first_within_window E i \<and> \<not> task_is_active i)
        ''No active task bound to this agent'' @
      body (first_gates E i \<and> destructive_without_approval i) ''Destructive action requires human approval''))"

definition first_response :: "rego \<Rightarrow> json \<Rightarrow> json rule_value" where
  "first_response E i = (case (first_effect E i, first_reason E i) of
       (Value e, Value r) \<Rightarrow>
         (if first_gates E i
          then Value (JObj [(''effect'', JStr e), (''reason'', JStr r), (''policy_ref'', JStr ''nhi.agent.authorization''),
             (''policy_version'', JStr ''1.0.0''), (''evaluated_at'', JInt (rg_now_ns E)),
             (''conditions_evaluated'', JList (map condition_value
               [''valid_token'', ''action_in_scope'', ''within_time_window'', ''task_is_active'']))])
          else Undefined)
     | _ \<Rightarrow> Conflict)"

definition first_opa :: "rego \<Rightarrow> action_request \<Rightarrow> opa_reply" where
  "first_opa E q = (case first_response E (dump_request q) of
       Value v \<Rightarrow> OpaBody (Some (JObj [(''result'', v)]))
     | Undefined \<Rightarrow> OpaBody (Some (JObj []))
     | Conflict \<Rightarrow> OpaStatusError 500)"

section \<open>What it answers\<close>

lemma first_effect_value: "first_effect E i =
   Value (if first_gates E i then if destructive_without_approval i then ''REQUIRE_APPROVAL'' else ''ALLOW'' else ''DENY'')"
  by (simp add: first_effect_def with_default_def)

text \<open>The bodies of \<open>reason\<close> exclude each other, so it never conflicts.\<close>

lemma first_reason_value: "\<exists>r. first_reason E i = Value r"
  by (cases "valid_token i"; cases "first_action_in_scope i"; cases "first_within_window E i"; cases "task_is_active i";
      cases "destructive_without_approval i")
    (simp_all add: first_reason_def first_gates_def with_default_def)

lemma first_response_eq:
  "\<not> first_gates E i \<Longrightarrow> first_response E i = Undefined"
  "first_gates E i \<Longrightarrow> decided_as (if destructive_without_approval i then ''REQUIRE_APPROVAL'' else ''ALLOW'') (first_response E i)"
proof -
  obtain r where r: "first_reason E i = Value r" using first_reason_value [of E i] by (elim exE)
  show "\<not> first_gates E i \<Longrightarrow> first_response E i = Undefined"
    by (simp add: first_response_def first_effect_value r)
  show "first_gates E i \<Longrightarrow> decided_as (if destructive_without_approval i then ''REQUIRE_APPROVAL'' else ''ALLOW'') (first_response E i)"
    by (simp add: first_response_def first_effect_value r decided_as_def dict_get_def)
qed

lemma first_answers:
  "answers e (first_opa E q) \<longleftrightarrow> first_gates E (dump_request q) \<and>
     e = (if destructive_without_approval (dump_request q) then ''REQUIRE_APPROVAL'' else ''ALLOW'')"
proof (cases "first_gates E (dump_request q)")
  case False
  then show ?thesis by (simp add: first_opa_def first_response_eq(1) failed_answers_nothing)
next
  case True
  let ?f = "if destructive_without_approval (dump_request q) then ''REQUIRE_APPROVAL'' else ''ALLOW''"
  from first_response_eq(2) [OF True] obtain d where "first_response E (dump_request q) = Value (JObj d)"
    "dict_get d ''effect'' = Some (JStr ?f)" unfolding decided_as_def by (elim exE conjE)
  then have "answers ?f (first_opa E q)" by (simp add: answers_def first_opa_def dict_get_def [of "[_]"])
  with True answers_unique show ?thesis by blast
qed

section \<open>The two versions\<close>

lemma scope_maps_agree:
  "dict_get first_scope_map a = Some s \<Longrightarrow> dict_get action_scope_map a = Some s"
proof -
  assume "dict_get first_scope_map a = Some s"
  then have "(a, s) \<in> set first_scope_map" by (auto simp: dict_get_def dest: map_of_SomeD)
  moreover have "list_all (\<lambda>(a, s). dict_get action_scope_map a = Some s) first_scope_map" by code_simp
  ultimately show ?thesis unfolding list_all_iff by blast
qed

lemma destructive_actions_grew: "a \<in> set first_destructive_actions \<Longrightarrow> a \<in> set destructive_actions"
proof -
  have "list_all (\<lambda>a. a \<in> set destructive_actions) first_destructive_actions" by code_simp
  then show "a \<in> set first_destructive_actions \<Longrightarrow> ?thesis" unfolding list_all_iff by blast
qed

lemma first_in_scope:
  assumes "dict_get first_scope_map (action q) \<noteq> None"
  shows "first_action_in_scope (dump_request q) \<longleftrightarrow> action_in_scope (dump_request q)"
proof -
  from assms obtain s where "dict_get first_scope_map (action q) = Some s" by blast
  with scope_maps_agree [OF this] show ?thesis by (simp add: first_action_in_scope_def action_in_scope_def required_scope_def)
qed

lemma first_window:
  assumes "\<not> (agent_type q = ''SecOpsAgent'' \<and> holds (dict_get (req_context q) ''incident_id''))"
  shows "first_within_window E (dump_request q) \<longleftrightarrow> within_window E (dump_request q)"
  using assms by (auto simp: first_within_window_def within_window_def)

text \<open>
  C11: The second version of the Rego policy only takes permissions away: for every action the first one knows, and
  apart from the exemption of a SecOps agent in an incident, what the second answers with ALLOW the first answers with
  ALLOW too, and what the second leaves to a human the first does not deny. For a request that keeps to its
  environment and its rate, is not the provisioner's and does not create a user, the two answer the same.
\<close>
theorem second_policy_only_restricts:
  assumes known: "dict_get first_scope_map (action q) \<noteq> None"
    and exempt: "\<not> (agent_type q = ''SecOpsAgent'' \<and> holds (dict_get (req_context q) ''incident_id''))"
  shows "(answers ''ALLOW'' (shipped_opa E q) \<longrightarrow> answers ''ALLOW'' (first_opa E q)) \<and>
    (answers ''REQUIRE_APPROVAL'' (shipped_opa E q) \<longrightarrow>
       answers ''ALLOW'' (first_opa E q) \<or> answers ''REQUIRE_APPROVAL'' (first_opa E q)) \<and>
    (environment_allowed (dump_request q) \<and> within_rate_limit E (dump_request q) \<and> agent_type q \<noteq> ''ProvisionerAgent'' \<and>
       action q \<noteq> ''iam:CreateUser'' \<longrightarrow> (\<forall>e. answers e (shipped_opa E q) \<longleftrightarrow> answers e (first_opa E q)))"
proof -
  let ?i = "dump_request q"
  have gates: "conditions_hold E ?i \<longleftrightarrow> first_gates E ?i \<and> within_rate_limit E ?i"
    unfolding conditions_hold_def first_gates_def first_in_scope [OF known] first_window [OF exempt] by blast
  have approval: "destructive_without_approval ?i \<Longrightarrow> requires_approval ?i"
    using destructive_actions_grew by (auto simp: destructive_without_approval_def requires_approval_def)
  have same: "requires_approval ?i \<longleftrightarrow> destructive_without_approval ?i"
    if "agent_type q \<noteq> ''ProvisionerAgent''" "action q \<noteq> ''iam:CreateUser''"
  proof -
    have "list_all (\<lambda>(a, s). (a \<in> set destructive_actions \<longrightarrow> a \<in> set first_destructive_actions) \<and>
        (a \<in> set iam_write_actions \<longrightarrow> a = ''iam:CreateUser'')) first_scope_map" by code_simp
    moreover obtain s where "(action q, s) \<in> set first_scope_map"
      using known by (auto simp: dict_get_def dest: map_of_SomeD)
    ultimately have "action q \<in> set destructive_actions \<Longrightarrow> action q \<in> set first_destructive_actions"
      "action q \<notin> set iam_write_actions" using that(2) unfolding list_all_iff by blast+
    with that(1) approval show ?thesis
      by (auto simp: destructive_without_approval_def requires_approval_def is_provisioner_def)
  qed
  have noconflict: "approval_reason ?i \<noteq> Conflict" if "agent_type q \<noteq> ''ProvisionerAgent''"
    using that unfolding approval_reason_conflict is_provisioner_def by simp
  show ?thesis
  proof (intro conjI impI allI)
    show "answers ''ALLOW'' (shipped_opa E q) \<Longrightarrow> answers ''ALLOW'' (first_opa E q)"
      using gates approval unfolding answers_iff first_answers by (auto split: if_splits)
    show "answers ''REQUIRE_APPROVAL'' (shipped_opa E q) \<Longrightarrow>
        answers ''ALLOW'' (first_opa E q) \<or> answers ''REQUIRE_APPROVAL'' (first_opa E q)"
      using gates unfolding answers_iff first_answers by (auto split: if_splits)
  next
    fix e
    assume c: "environment_allowed ?i \<and> within_rate_limit E ?i \<and> agent_type q \<noteq> ''ProvisionerAgent'' \<and> action q \<noteq> ''iam:CreateUser''"
    then show "answers e (shipped_opa E q) \<longleftrightarrow> answers e (first_opa E q)"
      unfolding answers_iff first_answers using gates same noconflict by auto
  qed
qed

theorem second_policy_only_restricts_witness:
  "answers ''ALLOW'' (shipped_opa demo_rego (with_flag demo_delete ''pre_approved'')) \<and>
   answers ''ALLOW'' (first_opa demo_rego (with_flag demo_delete ''pre_approved''))"
proof -
  let ?q = "with_flag demo_delete ''pre_approved''"
  have known: "dict_get first_scope_map (action ?q) \<noteq> None" by code_simp
  have exempt: "\<not> (agent_type ?q = ''SecOpsAgent'' \<and> holds (dict_get (req_context ?q) ''incident_id''))" by code_simp
  have "answers ''ALLOW'' (shipped_opa demo_rego ?q)" by code_simp
  with second_policy_only_restricts [OF known exempt] show ?thesis by blast
qed

end
