(* ===== verification/Shipped_Identity.thy ===== *)
theory Shipped_Identity
  imports Policy_Properties Handler_Properties Credential_Properties
begin

text \<open>
  The configuration the repository ships: \<open>identity/manifests/agent-infra-001.yaml\<close> and
  \<open>policy/templates/iam_role_templates.yaml\<close>, as the values \<open>yaml.safe_load\<close> reads, what the code makes of them, and
  how the scopes of an identity look to the tool registry and to the Rego policy.
\<close>

section \<open>The shipped manifest\<close>

definition strs :: "string list \<Rightarrow> json" where
  "strs xs = JList (map JStr xs)"

definition SHIPPED_SPEC :: pydict where
  "SHIPPED_SPEC =
     [(''agent_type'', JStr ''InfraAgent''), (''owner_team'', JStr ''platform-engineering''),
      (''owner_contact'', JStr ''platform-oncall@example.com''), (''credential_ttl_days'', JInt 90),
      (''rotation_policy'', JStr ''automatic''), (''rotation_days_before_expiry'', JInt 14),
      (''scopes'', strs [''cloud:ec2:describe'', ''cloud:s3:list'', ''cloud:s3:read'']),
      (''allowed_resource_patterns'', strs [''arn:aws:s3:::nhi-data-*'', ''arn:aws:ec2:us-east-1:*:instance/*'']),
      (''blocked_resource_patterns'', strs [''arn:aws:s3:::*-prod-*'']),
      (''context_bindings'', JObj [(''environments'', strs [''staging'']),
         (''time_window'', JObj [(''start_hour_utc'', JInt 8), (''end_hour_utc'', JInt 20)]),
         (''source_networks'', strs [''0.0.0.0/0'']), (''max_actions_per_minute'', JInt 20)]),
      (''approval_required_for'', JList [JObj [(''risk_level'', JStr ''high'')],
         JObj [(''action_patterns'', strs [''*:Delete*'', ''*:Terminate*''])]])]"

definition SHIPPED_MANIFEST :: json where
  "SHIPPED_MANIFEST = JObj
     [(''apiVersion'', JStr ''nhi-sentinel/v1''), (''kind'', JStr ''AgentIdentity''),
      (''metadata'', JObj [(''name'', JStr ''agent-infra-001''), (''namespace'', JStr ''platform-engineering''),
         (''labels'', JObj [(''team'', JStr ''platform''), (''environment'', JStr ''staging''),
            (''classification'', JStr ''autonomous-agent'')])]),
      (''spec'', JObj SHIPPED_SPEC)]"

text \<open>pydantic reads a string and an integer as themselves.\<close>

definition plain_reader :: "pyd \<Rightarrow> bool" where
  "plain_reader Y \<longleftrightarrow> (\<forall>s. as_str Y (JStr s) = Some s) \<and> (\<forall>n. as_int Y (JInt n) = Some n)"

definition shipped_manifest :: identity_manifest where
  "shipped_manifest =
     \<lparr>mf_api_version = ''nhi-sentinel/v1'', mf_kind = ''AgentIdentity'',
      mf_metadata = \<lparr>im_name = ''agent-infra-001'', im_namespace = ''platform-engineering'',
        im_labels = [(''team'', ''platform''), (''environment'', ''staging''), (''classification'', ''autonomous-agent'')]\<rparr>,
      mf_spec = \<lparr>is_agent_type = INFRA, is_owner_team = ''platform-engineering'',
        is_owner_contact = ''platform-oncall@example.com'', is_credential_ttl_days = 90, is_rotation_policy = AUTOMATIC,
        is_rotation_days_before_expiry = 14, is_scopes = [''cloud:ec2:describe'', ''cloud:s3:list'', ''cloud:s3:read''],
        is_allowed_resource_patterns = [''arn:aws:s3:::nhi-data-*'', ''arn:aws:ec2:us-east-1:*:instance/*''],
        is_blocked_resource_patterns = [''arn:aws:s3:::*-prod-*''],
        is_context_bindings = \<lparr>cb_environments = [''staging''],
          cb_time_window = Some \<lparr>tw_start_hour_utc = 8, tw_end_hour_utc = 20\<rparr>, cb_source_networks = [''0.0.0.0/0''],
          cb_max_actions_per_minute = 20\<rparr>,
        is_approval_required_for = [\<lparr>at_risk_level = Some ''high'', at_action_patterns = []\<rparr>,
          \<lparr>at_risk_level = None, at_action_patterns = [''*:Delete*'', ''*:Terminate*'']\<rparr>]\<rparr>\<rparr>"

lemma read_simps:
  assumes "plain_reader Y"
  shows "as_str Y (JStr s) = Some s" "as_int Y (JInt n) = Some n" "as_list (as_str Y) (strs xs) = Some xs"
proof -
  have "those (map (as_str Y) (map JStr xs)) = Some xs" using assms by (induction xs) (simp_all add: plain_reader_def)
  then show "as_list (as_str Y) (strs xs) = Some xs" by (simp add: as_list_def strs_def)
qed (use assms in \<open>simp_all add: plain_reader_def\<close>)

lemma as_list_JList: "as_list f (JList vs) = those (map f vs)"
  by (simp add: as_list_def)

lemmas reading = as_list_JList as_obj_def required_def defaulted_def dict_get_def int_within_def nullable_def

lemma shipped_spec_validates:
  assumes "plain_reader Y" shows "validate_spec Y (JObj SHIPPED_SPEC) = Some (mf_spec shipped_manifest)"
proof -
  note r = read_simps [OF assms]
  have "validate_context_bindings Y (JObj [(''environments'', strs [''staging'']),
         (''time_window'', JObj [(''start_hour_utc'', JInt 8), (''end_hour_utc'', JInt 20)]),
         (''source_networks'', strs [''0.0.0.0/0'']), (''max_actions_per_minute'', JInt 20)]) =
      Some (is_context_bindings (mf_spec shipped_manifest))"
    by (simp add: validate_context_bindings_def validate_time_window_def reading r shipped_manifest_def)
  moreover have "as_list (validate_approval_trigger Y) (JList [JObj [(''risk_level'', JStr ''high'')],
         JObj [(''action_patterns'', strs [''*:Delete*'', ''*:Terminate*''])]]) =
      Some (is_approval_required_for (mf_spec shipped_manifest))"
    by (simp add: validate_approval_trigger_def reading r shipped_manifest_def)
  moreover have "validate_agent_type (JStr ''InfraAgent'') = Some INFRA" by code_simp
  moreover have "scopes_must_be_namespaced [''cloud:ec2:describe'', ''cloud:s3:list'', ''cloud:s3:read''] =
      Some [''cloud:ec2:describe'', ''cloud:s3:list'', ''cloud:s3:read'']" by code_simp
  ultimately show ?thesis
    by (simp add: validate_spec_def SHIPPED_SPEC_def reading r validate_rotation_policy_def shipped_manifest_def)
qed

lemma shipped_manifest_validates:
  assumes "plain_reader Y" shows "validate_manifest Y SHIPPED_MANIFEST = Some shipped_manifest"
proof -
  note r = read_simps [OF assms]
  have "name_matches ''agent-infra-001''" by code_simp
  then have "validate_metadata Y (JObj [(''name'', JStr ''agent-infra-001''), (''namespace'', JStr ''platform-engineering''),
         (''labels'', JObj [(''team'', JStr ''platform''), (''environment'', JStr ''staging''),
            (''classification'', JStr ''autonomous-agent'')])]) = Some (mf_metadata shipped_manifest)"
    by (simp add: validate_metadata_def as_str_dict_def reading r shipped_manifest_def)
  with shipped_spec_validates [OF assms] show ?thesis
    by (simp add: validate_manifest_def SHIPPED_MANIFEST_def api_version_field_def kind_must_be_agent_identity_def reading r)
      (simp add: shipped_manifest_def)
qed

section \<open>Scopes: the registry and the policy\<close>

lemma catalog_in_policy:
  assumes "(key, spec) \<in> set TOOL_CATALOG"
  shows "dict_get action_scope_map (ts_action spec) = Some (ts_required_scope spec)"
    and "ts_destructive spec \<longleftrightarrow> ts_action spec \<in> set destructive_actions"
proof -
  have "list_all (\<lambda>(k, s). dict_get action_scope_map (ts_action s) = Some (ts_required_scope s) \<and>
      (ts_destructive s \<longleftrightarrow> ts_action s \<in> set destructive_actions)) TOOL_CATALOG" by code_simp
  with assms show "dict_get action_scope_map (ts_action spec) = Some (ts_required_scope spec)"
    "ts_destructive spec \<longleftrightarrow> ts_action spec \<in> set destructive_actions" unfolding list_all_iff by blast+
qed

lemma str_contains_join: "s \<in> set xs \<Longrightarrow> str_contains s (str_join sep xs)"
proof (induction sep xs rule: str_join.induct)
  case (3 sep x y ys)
  show ?case
  proof (cases "s = x")
    case True
    with sublist_appendI [of x "[]" "sep @ str_join sep (y # ys)"] show ?thesis unfolding str_contains_iff by (simp only: str_join.simps append_Nil)
  next
    case False
    with 3 have "str_contains s (str_join sep (y # ys))" by simp
    then obtain ps ss where "str_join sep (y # ys) = ps @ s @ ss" unfolding str_contains_iff sublist_def by (elim exE)
    then show ?thesis using sublist_appendI [of s "x @ sep @ ps" ss] unfolding str_contains_iff by simp
  qed
qed (simp_all add: str_contains_iff)

lemma registry_refuses:
  assumes "(key, spec) \<in> set TOOL_CATALOG" and "ts_required_scope spec \<notin> set granted"
  shows "isl (registry_get (registry_init granted) key)"
proof (cases "registry_get (registry_init granted) key")
  case (Inr spec')
  note g = registry_get_Inr [OF Inr]
  from g(1) assms(1) have "spec' = spec" by (rule eq_key_imp_eq_value [OF catalog_keys])
  with g(2) assms(2) show ?thesis by simp
qed simp

lemma registry_grants:
  "(key, spec) \<in> set TOOL_CATALOG \<Longrightarrow>
     registry_get (registry_init granted) key = Inr spec \<longleftrightarrow> ts_required_scope spec \<in> set granted"
  using registry_get_Inr(2) registry_get_granted by blast

lemma scope_of_catalog:
  assumes "(key, spec) \<in> set TOOL_CATALOG" and "action q = ts_action spec"
  shows "action_in_scope (dump_request q) \<longleftrightarrow> rego_contains (dict_get (token_claims q) ''scope'') (ts_required_scope spec) \<or>
     JStr (ts_required_scope spec) \<in> set (elements (dict_get (token_claims q) ''scopes''))"
  using catalog_in_policy(1) [OF assms(1)] assms(2) by (simp add: action_in_scope_def required_scope_def)

text \<open>
  C12: The tool registry and the Rego policy agree on the catalog: they ask for the same scope for every tool, and the
  tools marked destructive are the destructive actions of the policy. With the granted scopes as an array in the
  claims, the policy finds a tool in scope exactly if the registry offers it; with the scopes joined in the scope
  string, it finds every offered tool in scope. But the string is searched for a part: a scope that only begins with
  the required one, like \<open>cloud:s3:read-metadata\<close>, lets the action pass the policy's check, where the registry refuses
  the tool.
\<close>
theorem registry_and_policy_agree_on_scopes:
  assumes tool: "(key, spec) \<in> set TOOL_CATALOG" and act: "action q = ts_action spec"
  shows "(ts_destructive spec \<longleftrightarrow> action q \<in> set destructive_actions) \<and>
    (dict_get (token_claims q) ''scope'' = None \<longrightarrow> dict_get (token_claims q) ''scopes'' = Some (strs granted) \<longrightarrow>
       (registry_get (registry_init granted) key = Inr spec \<longleftrightarrow> action_in_scope (dump_request q))) \<and>
    (dict_get (token_claims q) ''scope'' = Some (JStr (str_join '' '' granted)) \<longrightarrow>
       registry_get (registry_init granted) key = Inr spec \<longrightarrow> action_in_scope (dump_request q)) \<and>
    (\<forall>rest. rest \<noteq> [] \<longrightarrow> dict_get (token_claims q) ''scope'' = Some (JStr (ts_required_scope spec @ rest)) \<longrightarrow>
       action_in_scope (dump_request q) \<and> isl (registry_get (registry_init [ts_required_scope spec @ rest]) key))"
  unfolding registry_grants [OF tool] scope_of_catalog [OF tool act]
proof (intro conjI allI impI)
  show "ts_destructive spec \<longleftrightarrow> action q \<in> set destructive_actions" using catalog_in_policy(2) [OF tool] act by simp
next
  assume "dict_get (token_claims q) ''scope'' = None" "dict_get (token_claims q) ''scopes'' = Some (strs granted)"
  then show "ts_required_scope spec \<in> set granted \<longleftrightarrow> rego_contains (dict_get (token_claims q) ''scope'') (ts_required_scope spec) \<or>
      JStr (ts_required_scope spec) \<in> set (elements (dict_get (token_claims q) ''scopes''))"
    by (auto simp: rego_contains_def elements_def strs_def)
next
  assume "dict_get (token_claims q) ''scope'' = Some (JStr (str_join '' '' granted))" "ts_required_scope spec \<in> set granted"
  then show "rego_contains (dict_get (token_claims q) ''scope'') (ts_required_scope spec) \<or>
      JStr (ts_required_scope spec) \<in> set (elements (dict_get (token_claims q) ''scopes''))"
    using str_contains_join by (simp add: rego_contains_def)
next
  fix rest :: string
  assume "rest \<noteq> []"
  then show "isl (registry_get (registry_init [ts_required_scope spec @ rest]) key)" using registry_refuses [OF tool] by simp
  assume "dict_get (token_claims q) ''scope'' = Some (JStr (ts_required_scope spec @ rest))"
  then show "rego_contains (dict_get (token_claims q) ''scope'') (ts_required_scope spec) \<or>
      JStr (ts_required_scope spec) \<in> set (elements (dict_get (token_claims q) ''scopes''))"
    by (simp add: rego_contains_def str_contains_iff)
qed

theorem registry_and_policy_agree_on_scopes_witness:
  "action_in_scope (dump_request (demo_delete\<lparr>action := ''s3:GetObject'', token_claims := [(''scope'', JStr ''cloud:s3:read-metadata'')]\<rparr>)) \<and>
   isl (registry_get (registry_init [''cloud:s3:read-metadata'']) ''s3_get_object'')"
proof -
  let ?spec = "tool ''Get S3 Object'' ''s3:GetObject'' ''cloud:s3:read'' LOW False"
  let ?q = "demo_delete\<lparr>action := ''s3:GetObject'', token_claims := [(''scope'', JStr ''cloud:s3:read-metadata'')]\<rparr>"
  have t: "(''s3_get_object'', ?spec) \<in> set TOOL_CATALOG" by (simp add: TOOL_CATALOG_def)
  have a: "action ?q = ts_action ?spec" by (simp add: tool_def)
  have "dict_get (token_claims ?q) ''scope'' = Some (JStr (ts_required_scope ?spec @ ''-metadata''))"
    by (simp add: dict_get_def tool_def)
  with registry_and_policy_agree_on_scopes [OF t a, of "[]", THEN conjunct2, THEN conjunct2, THEN conjunct2, rule_format, of "''-metadata''"]
  show ?thesis by (simp add: tool_def)
qed

section \<open>What the manifest grants, and what it does not\<close>

text \<open>
  Further: The shipped manifest validates, to the record with its values; the scopes it grants make exactly four
  tools of the catalog available, none of them destructive, and InfraAgent has a handler for each.
\<close>
theorem shipped_manifest_grants_four_tools:
  assumes "plain_reader Y"
  shows "validate_manifest Y SHIPPED_MANIFEST = Some shipped_manifest \<and> manifest_ok shipped_manifest \<and>
    available_tools (registry_init (is_scopes (mf_spec shipped_manifest))) =
      [''s3_list_buckets'', ''s3_get_object'', ''ec2_describe_instances'', ''ec2_describe_security_groups''] \<and>
    (\<forall>key. key \<in> set (available_tools (registry_init (is_scopes (mf_spec shipped_manifest)))) \<longleftrightarrow>
       dict_get (infra_handlers B) key \<noteq> None) \<and>
    list_all (\<lambda>(key, spec). \<not> ts_destructive spec) (registry_init (is_scopes (mf_spec shipped_manifest)))"
proof -
  have v: "validate_manifest Y SHIPPED_MANIFEST = Some shipped_manifest" by (rule shipped_manifest_validates [OF assms])
  have tools: "available_tools (registry_init (is_scopes (mf_spec shipped_manifest))) =
      [''s3_list_buckets'', ''s3_get_object'', ''ec2_describe_instances'', ''ec2_describe_security_groups'']" by code_simp
  have safe: "list_all (\<lambda>(key, spec). \<not> ts_destructive spec) (registry_init (is_scopes (mf_spec shipped_manifest)))" by code_simp
  have handlers: "key \<in> set [''s3_list_buckets'', ''s3_get_object'', ''ec2_describe_instances'', ''ec2_describe_security_groups''] \<longleftrightarrow>
      dict_get (infra_handlers B) key \<noteq> None" for key
    unfolding dict_get_def map_of_eq_None_iff infra_handlers_def by auto
  show ?thesis unfolding tools by (intro conjI allI v validate_manifest_ok [OF v] refl handlers safe)
qed

theorem shipped_manifest_grants_four_tools_witness:
  "validate_manifest demo_pyd SHIPPED_MANIFEST = Some shipped_manifest"
  by (rule shipped_manifest_grants_four_tools [THEN conjunct1]) (simp add: plain_reader_def demo_pyd_def)

text \<open>
  C38: What the manifest says about environments, times, networks, rates, resources, approvals and rotation has no
  effect: two manifests with the same name, agent type, owner team, lifetime and scopes are provisioned with the same
  requests and give the same identity record, whatever their restrictions are.
\<close>
theorem restrictions_do_not_reach_the_identity:
  assumes load: "pv_load_yaml E path h = (Inr v, h1)" "pv_load_yaml E path' h = (Inr v', h1)"
    and valid: "validate_manifest (pv_pyd E) v = Some m" "validate_manifest (pv_pyd E) v' = Some m'"
    and same: "im_name (mf_metadata m') = im_name (mf_metadata m)"
      "is_agent_type (mf_spec m') = is_agent_type (mf_spec m)" "is_owner_team (mf_spec m') = is_owner_team (mf_spec m)"
      "is_credential_ttl_days (mf_spec m') = is_credential_ttl_days (mf_spec m)" "is_scopes (mf_spec m') = is_scopes (mf_spec m)"
  shows "provision E p path' h = provision E p path h"
proof -
  have "identity_record_of m' now = identity_record_of m now" for now by (simp add: identity_record_of_def same)
  moreover have "load_manifest E path h = (Inr m, h1)" "load_manifest E path' h = (Inr m', h1)"
    using load valid by (simp_all add: load_manifest_def seq_def)
  ultimately show ?thesis by (simp add: provision_def seq_def [of "load_manifest E _"] same)
qed

text \<open>The shipped manifest without its restrictions, for production.\<close>

definition OPEN_MANIFEST :: json where
  "OPEN_MANIFEST = JObj
     [(''kind'', JStr ''AgentIdentity''),
      (''metadata'', JObj [(''name'', JStr ''agent-infra-001''), (''namespace'', JStr ''x'')]),
      (''spec'', JObj [(''agent_type'', JStr ''InfraAgent''), (''owner_team'', JStr ''platform-engineering''),
         (''owner_contact'', JStr ''x''), (''scopes'', strs [''cloud:ec2:describe'', ''cloud:s3:list'', ''cloud:s3:read'']),
         (''context_bindings'', JObj [(''environments'', strs [''production''])])])]"

definition demo_two_manifests :: "nat provisioning" where
  "demo_two_manifests = (demo_provisioning 201)\<lparr>pv_load_yaml :=
     (\<lambda>path h. (Inr (if path = ''open.yaml'' then OPEN_MANIFEST else SHIPPED_MANIFEST), h))\<rparr>"

theorem restrictions_do_not_reach_the_identity_witness:
  "provision demo_two_manifests demo_provisioner ''open.yaml'' 0 =
   provision demo_two_manifests demo_provisioner ''agent-infra-001.yaml'' 0"
proof -
  have plain: "plain_reader demo_pyd" by (simp add: plain_reader_def demo_pyd_def)
  have "validate_manifest demo_pyd OPEN_MANIFEST \<noteq> None" by code_simp
  then obtain m' where m': "validate_manifest demo_pyd OPEN_MANIFEST = Some m'" by blast
  have "im_name (mf_metadata (the (validate_manifest demo_pyd OPEN_MANIFEST))) = ''agent-infra-001''"
    "is_agent_type (mf_spec (the (validate_manifest demo_pyd OPEN_MANIFEST))) = INFRA"
    "is_owner_team (mf_spec (the (validate_manifest demo_pyd OPEN_MANIFEST))) = ''platform-engineering''"
    "is_credential_ttl_days (mf_spec (the (validate_manifest demo_pyd OPEN_MANIFEST))) = 90"
    "is_scopes (mf_spec (the (validate_manifest demo_pyd OPEN_MANIFEST))) = [''cloud:ec2:describe'', ''cloud:s3:list'', ''cloud:s3:read'']"
    by code_simp+
  then have same: "im_name (mf_metadata m') = im_name (mf_metadata shipped_manifest)"
    "is_agent_type (mf_spec m') = is_agent_type (mf_spec shipped_manifest)"
    "is_owner_team (mf_spec m') = is_owner_team (mf_spec shipped_manifest)"
    "is_credential_ttl_days (mf_spec m') = is_credential_ttl_days (mf_spec shipped_manifest)"
    "is_scopes (mf_spec m') = is_scopes (mf_spec shipped_manifest)"
    by (simp_all add: m' shipped_manifest_def)
  have p: "pv_pyd demo_two_manifests = demo_pyd" by (simp add: demo_two_manifests_def demo_provisioning_def)
  show ?thesis
    by (rule restrictions_do_not_reach_the_identity [where h = 0, OF _ _ shipped_manifest_validates [OF plain, folded p] m' [folded p] same])
      (simp_all add: demo_two_manifests_def)
qed

section \<open>The shipped role templates\<close>

definition trust_document :: "string \<Rightarrow> json" where
  "trust_document service = JObj [(''Version'', JStr ''2012-10-17''),
     (''Statement'', JList [JObj [(''Effect'', JStr ''Allow''), (''Principal'', JObj [(''Service'', JStr service)]),
        (''Action'', JStr ''sts:AssumeRole'')]])]"

definition SHIPPED_TEMPLATES :: "(string \<times> pydict) list" where
  "SHIPPED_TEMPLATES =
     [(''ec2-readonly'',
        [(''description'', JStr ''EC2 read-only access for monitoring agents''),
         (''assume_role_policy_document'', trust_document ''ec2.amazonaws.com''),
         (''managed_policy_arns'', strs [''arn:aws:iam::aws:policy/AmazonEC2ReadOnlyAccess'']), (''risk_level'', JStr ''low'')]),
      (''s3-readonly-internal'',
        [(''description'', JStr ''S3 read access restricted to internal-tagged buckets''),
         (''assume_role_policy_document'', trust_document ''lambda.amazonaws.com''),
         (''inline_policy'', JObj [(''Version'', JStr ''2012-10-17''),
            (''Statement'', JList [JObj [(''Effect'', JStr ''Allow''), (''Action'', strs [''s3:GetObject'', ''s3:ListBucket'']),
               (''Resource'', JStr ''*''), (''Condition'', JObj [(''StringEquals'',
                  JObj [(''s3:ExistingObjectTag/DataClassification'', JStr ''internal'')])])]])]),
         (''risk_level'', JStr ''low'')]),
      (''data-pipeline-writer'',
        [(''description'', JStr ''S3 write access for data pipeline stages (internal buckets only)''),
         (''assume_role_policy_document'', trust_document ''lambda.amazonaws.com''),
         (''inline_policy'', JObj [(''Version'', JStr ''2012-10-17''),
            (''Statement'', JList [JObj [(''Effect'', JStr ''Allow''), (''Action'', strs [''s3:PutObject'', ''s3:GetObject'']),
               (''Resource'', JStr ''arn:aws:s3:::nhi-data-internal-*/*'')]])]),
         (''risk_level'', JStr ''medium'')])]"

definition SHIPPED_TEMPLATE_FILE :: json where
  "SHIPPED_TEMPLATE_FILE = JObj [(''templates'', JObj (map (\<lambda>(k, t). (k, JObj t)) SHIPPED_TEMPLATES))]"

lemma shipped_templates_load:
  "\<exists>v. load_templates True (Inr SHIPPED_TEMPLATE_FILE) = Inr v \<and> template_table v = Some SHIPPED_TEMPLATES"
  "load_templates False yaml = Inr (JObj [])" "template_table (JObj []) = Some []"
  by (simp_all add: load_templates_def rbind_def template_table_def SHIPPED_TEMPLATE_FILE_def SHIPPED_TEMPLATES_def dict_get_def)

text \<open>What the handler reads of a template.\<close>

definition trust_only :: "pydict \<Rightarrow> pydict" where
  "trust_only t = filter (\<lambda>(k, v). k = ''assume_role_policy_document'') t"

lemma trust_only_policy: "role_policy (trust_only t) = role_policy t"
proof -
  have "dict_get (trust_only t) ''assume_role_policy_document'' = dict_get t ''assume_role_policy_document''"
    unfolding trust_only_def dict_get_def by (induction t) auto
  then show ?thesis by (simp add: role_policy_def)
qed

lemma trust_only_template:
  "template_of (map (\<lambda>(n, t). (n, trust_only t)) ts) v =
     (case template_of ts v of Inl e \<Rightarrow> Inl e | Inr o1 \<Rightarrow> Inr (map_option trust_only o1))"
proof -
  have "dict_get (map (\<lambda>(n, t). (n, trust_only t)) ts) s = map_option trust_only (dict_get ts s)" for s
    unfolding dict_get_def by (induction ts) auto
  then show ?thesis by (cases v) (simp_all add: template_of_def)
qed

text \<open>
  Further: A created role has no permissions: the handler behaves the same, towards the cloud and the caller, when
  everything but the trust policy is taken out of the templates, and each shipped template has an inline policy or
  managed policies.
\<close>
theorem template_permissions_are_ignored:
  "provisioner_handle_create_role (map (\<lambda>(n, t). (n, trust_only t)) templates) B st =
     provisioner_handle_create_role templates B st \<and>
   list_all (\<lambda>(n, t). dict_get t ''inline_policy'' \<noteq> None \<or> dict_get t ''managed_policy_arns'' \<noteq> None) SHIPPED_TEMPLATES"
proof
  have names: "map (\<lambda>x. JStr (fst x)) (map (\<lambda>(n, t). (n, trust_only t)) templates) = map (\<lambda>x. JStr (fst x)) templates"
    by (simp add: split_beta)
  have args: "create_role_args ctx name (trust_only t) = create_role_args ctx name t" for ctx name t
    by (simp add: create_role_args_def trust_only_policy)
  define name where "name = (case dict_get (st_context st) ''template_name'' of Some v \<Rightarrow> v | None \<Rightarrow> JNull)"
  show "provisioner_handle_create_role (map (\<lambda>(n, t). (n, trust_only t)) templates) B st =
     provisioner_handle_create_role templates B st"
  proof (cases "template_of templates name")
    case (Inl e)
    then show ?thesis unfolding provisioner_handle_create_role_def name_def [symmetric] Let_def trust_only_template
      by (simp add: seq_def lift_result_def)
  next
    case (Inr found)
    then show ?thesis unfolding provisioner_handle_create_role_def name_def [symmetric] Let_def trust_only_template names
      by (cases found) (simp_all add: seq_def lift_result_def args)
  qed
  show "list_all (\<lambda>(n, t). dict_get t ''inline_policy'' \<noteq> None \<or> dict_get t ''managed_policy_arns'' \<noteq> None) SHIPPED_TEMPLATES"
    by code_simp
qed

end
