(* ===== verification/Deployment.thy ===== *)
theory Deployment
  imports Shipped_Identity Anomaly_Service
begin

text \<open>
  How the parts are put together when they start: the settings cache, the key generator, the four agent classes and
  \<open>BaseAgent.__init__\<close>, the start of the audit consumer, the health endpoints and \<open>POST /score\<close>; and what
  follows for the tools the agents can run at all.
\<close>

section \<open>Settings and keys\<close>

text \<open>\<open>get_settings\<close> under \<open>lru_cache\<close>: the first settings that load are kept, an exception is not.\<close>

definition get_settings :: "exn + settings \<Rightarrow> (settings option, settings) comp" where
  "get_settings load = (\<lambda>cache. case cache of
       Some cfg \<Rightarrow> (Inr cfg, cache)
     | None \<Rightarrow> (case load of Inl e \<Rightarrow> (Inl e, None) | Inr cfg \<Rightarrow> (Inr cfg, Some cfg)))"

lemma get_settings_stable:
  "get_settings load cache = (Inr cfg, cache') \<Longrightarrow> get_settings load' cache' = (Inr cfg, cache')"
  by (auto simp: get_settings_def split: option.splits sum.splits)

text \<open>The \<open>cryptography\<close> package: a key of an exponent and a size, and its two PEM texts.\<close>

record ('key, 'h) crypto =
  cr_generate :: "int \<Rightarrow> int \<Rightarrow> 'h \<Rightarrow> 'key \<times> 'h"
  cr_private_pem :: "'key \<Rightarrow> string"
  cr_public_pem :: "'key \<Rightarrow> string"

definition generate_rsa_keypair :: "('key, 'h) crypto \<Rightarrow> 'h \<Rightarrow> (string \<times> string) \<times> 'h" where
  "generate_rsa_keypair C h = (case cr_generate C 65537 2048 h of (k, h') \<Rightarrow> ((cr_private_pem C k, cr_public_pem C k), h'))"

section \<open>The agents\<close>

text \<open>A class derived from \<open>BaseAgent\<close>: its \<open>agent_type\<close> and its \<open>_get_tool_handlers\<close>.\<close>

record 'c agent_class =
  ac_agent_type :: agent_kind
  ac_handlers :: "(string \<times> 'c handler) list"

definition data_agent :: "'c boto \<Rightarrow> 'c agent_class" where
  "data_agent B = \<lparr>ac_agent_type = DATA, ac_handlers = data_handlers B\<rparr>"

definition infra_agent :: "'c boto \<Rightarrow> 'c agent_class" where
  "infra_agent B = \<lparr>ac_agent_type = INFRA, ac_handlers = infra_handlers B\<rparr>"

definition secops_agent :: "'c boto \<Rightarrow> 'c agent_class" where
  "secops_agent B = \<lparr>ac_agent_type = SECOPS, ac_handlers = secops_handlers B\<rparr>"

text \<open>\<open>ProvisionerAgent\<close> keeps the templates \<^const>\<open>load_templates\<close> gave it, read as \<^const>\<open>template_table\<close>.\<close>

definition provisioner_agent :: "(string \<times> pydict) list \<Rightarrow> 'c boto \<Rightarrow> 'c agent_class" where
  "provisioner_agent templates B = \<lparr>ac_agent_type = PROVISIONER, ac_handlers = provisioner_handlers templates B\<rparr>"

text \<open>\<open>_get_source_ip\<close>: the name service may raise an \<open>OSError\<close>.\<close>

definition get_source_ip :: "string option \<Rightarrow> string" where
  "get_source_ip resolved = (case resolved of Some ip \<Rightarrow> ip | None \<Rightarrow> ''127.0.0.1'')"

definition agent_producer :: "producer option \<Rightarrow> bool \<Rightarrow> producer" where
  "agent_producer given kafka_up = (case given of Some p \<Rightarrow> p | None \<Rightarrow> producer_init kafka_up)"

definition agent_init ::
  "'c agent_class \<Rightarrow> string \<Rightarrow> 'h token_services \<Rightarrow> tool_registry \<Rightarrow> 'r pep \<Rightarrow> string option \<Rightarrow>
     (audit_event \<Rightarrow> string) \<Rightarrow> 'k send \<Rightarrow> (string \<times> instant) \<times> (string \<times> instant) \<Rightarrow> ('r, 'k, 'h, 'c) base_agent" where
  "agent_init C ident tokens registry pep resolved dump send ids =
     \<lparr>ba_agent_id = ident, ba_agent_type = ac_agent_type C, ba_registry = registry, ba_pep = pep, ba_tokens = tokens,
      ba_source_ip = get_source_ip resolved, ba_dump = dump, ba_send = send, ba_handlers = ac_handlers C,
      ba_decision_event_id = fst (fst ids), ba_decision_time = snd (fst ids),
      ba_result_event_id = fst (snd ids), ba_result_time = snd (snd ids)\<rparr>"

section \<open>The services\<close>

text \<open>
  \<open>run_consumer\<close> from its first line: the database connection, then the Kafka consumer, then the loop whose
  \<open>finally\<close> closes both. The flags of \<^typ>\<open>'d consumer_state\<close> say whether each is closed, or not opened yet.
\<close>

definition start_consumer ::
  "exn option \<Rightarrow> exn option \<Rightarrow> (string \<Rightarrow> audit_event option) \<Rightarrow> 'd insert \<Rightarrow> (exn + string list list) list \<Rightarrow> ('d consumer_state, unit) comp" where
  "start_consumer connect_error kafka_error validate ins polls = (\<lambda>s. case connect_error of
       Some e \<Rightarrow> (Inl e, s)
     | None \<Rightarrow> (case kafka_error of
           Some e \<Rightarrow> (Inl e, s\<lparr>cs_connection_closed := False\<rparr>)
         | None \<Rightarrow> run_consumer validate ins polls (s\<lparr>cs_connection_closed := False, cs_consumer_closed := False\<rparr>)))"

text \<open>\<open>POST /score\<close> validates the event itself.\<close>

definition score_endpoint ::
  "'m forest \<Rightarrow> ('x \<Rightarrow> audit_event option) \<Rightarrow> 'x \<Rightarrow> ('m anomaly_state, score_reply) comp" where
  "score_endpoint F validate req = (case validate req of
       None \<Rightarrow> throw (ValidationError ''AuditEvent'')
     | Some e \<Rightarrow> score_event F e)"

definition health_reply :: "string option \<Rightarrow> pydict" where
  "health_reply service = (''status'', JStr ''ok'') # (case service of None \<Rightarrow> [] | Some s \<Rightarrow> [(''service'', JStr s)])"

definition anomaly_health :: pydict where "anomaly_health = health_reply (Some ''nhi-anomaly'')"

definition audit_health :: pydict where "audit_health = health_reply (Some ''nhi-audit-api'')"

definition identity_health :: pydict where "identity_health = health_reply (Some ''nhi-identity'')"

definition approval_health :: pydict where "approval_health = health_reply None"

text \<open>A consumer that returns or fails in its loop has closed everything; only a failing Kafka client leaves the connection open.\<close>

lemma start_consumer_closes:
  assumes "start_consumer connect_error kafka_error validate ins polls s = (x, s')"
    and "cs_connection_closed s" "cs_consumer_closed s"
  shows "cs_consumer_closed s' \<and> (cs_connection_closed s' \<longleftrightarrow> \<not> (connect_error = None \<and> kafka_error \<noteq> None))"
  using assms run_consumer_run [of validate ins polls "s\<lparr>cs_connection_closed := False, cs_consumer_closed := False\<rparr>"]
  by (auto simp: start_consumer_def split: option.splits)

section \<open>Tools without a handler\<close>

definition no_handler :: "string \<Rightarrow> string" where
  "no_handler key = ''No handler registered for tool '' @ [CHR 0x27] @ key @ [CHR 0x27]"

lemma execute_unhandled:
  assumes "dict_get (ba_handlers A) (st_tool_key st) = None" and "node_execute_tool A (st, w) = (x, (st', w'))"
  shows "w' = w" "st' = st\<lparr>st_error := Some (no_handler (st_tool_key st))\<rparr>"
proof -
  have "node_execute_tool A (st, w) = (Inr (), (st\<lparr>st_error := Some (no_handler (st_tool_key st))\<rparr>, w))"
    using assms(1) by (simp add: node_execute_tool_def no_handler_def)
  with assms(2) show "w' = w" "st' = st\<lparr>st_error := Some (no_handler (st_tool_key st))\<rparr>" by simp_all
qed

lemma unhandled_run:
  assumes none: "dict_get (ba_handlers A) tool_key = None"
    and run: "run_agent A tool_key arn task env tags ctx w = (x, (st, w'))"
  shows "aw_cloud w' = aw_cloud w \<and> (st_decision st = Some ''ALLOW'' \<longrightarrow> st_error st = Some (no_handler tool_key))"
  using run unfolding run_agent_def
proof (cases rule: run_cases)
  case (no_token e)
  then show ?thesis using only_tokens_simps [OF fetch_token_keeps(1) [OF no_token(1)]]
    fetch_token_keeps(2) [OF no_token(1)] by (auto simp: initial_state_def)
next
  case (bad_claims spec e st1)
  from run [unfolded run_agent_def invoke_fetch [OF bad_claims(1)]]
  have "st = st1" using bad_claims(2,3) by (simp add: invoke.simps [of A Policy_Check] node_policy_check_def)
  then show ?thesis using only_tokens_simps [OF fetch_token_keeps(1) [OF bad_claims(1)]]
    fetch_token_keeps(2) [OF bad_claims(1)] by (auto simp: initial_state_def)
next
  case (blocked st1 w1 st2 w2)
  have "aw_cloud w2 = aw_cloud w1" using blocked(2) by (rule policy_check_state)
  with blocked show ?thesis using only_tokens_simps [OF fetch_token_keeps(1) [OF blocked(1)]] by (simp add: noted_def)
next
  case (allowed st1 w1 st2 w2 w3)
  obtain c n r where st2: "st2 = st1\<lparr>st_context := c, st_decision := Some n, st_error := r\<rparr>" "aw_cloud w2 = aw_cloud w1"
    using allowed(2) by (rule policy_check_state)
  obtain c1 where "st1 = (initial_state tool_key arn task env tags ctx)\<lparr>st_context := c1\<rparr>"
    using fetch_token_keeps(2) [OF allowed(1)] by (elim exE)
  with st2(1) have key: "st_tool_key (noted A st2) = tool_key" by (simp add: noted_def initial_state_def)
  with none have "dict_get (ba_handlers A) (st_tool_key (noted A st2)) = None" by simp
  note ended = execute_unhandled [OF this allowed(4)]
  have "aw_cloud w' = aw_cloud w2" unfolding allowed(6) ended(1) by simp
  moreover have "st_error st = Some (no_handler tool_key)" unfolding ended(2) key by simp
  ultimately show ?thesis using st2(2) only_tokens_simps [OF fetch_token_keeps(1) [OF allowed(1)]] by simp
qed

lemma shipped_handlers:
  assumes "C \<in> {data_agent B, infra_agent B, secops_agent B, provisioner_agent templates B}"
  shows "map fst (ac_handlers C) \<in> {[''s3_list_buckets'', ''s3_get_object'', ''s3_put_object''],
     [''ec2_describe_instances'', ''ec2_describe_security_groups'', ''s3_list_buckets'', ''s3_get_object''],
     [''securityhub_get_findings'', ''ec2_describe_security_groups'', ''iam_list_roles''], [''iam_create_role'', ''iam_list_roles'']}"
  using assms
  by (auto simp: data_agent_def infra_agent_def secops_agent_def provisioner_agent_def data_handlers_def
      infra_handlers_def secops_handlers_def provisioner_handlers_def)

lemma destructive_tools_unhandled:
  assumes "C \<in> {data_agent B, infra_agent B, secops_agent B, provisioner_agent templates B}"
    and "(key, spec) \<in> set TOOL_CATALOG" "ts_destructive spec"
  shows "dict_get (ac_handlers C) key = None"
proof -
  have "list_all (\<lambda>(k, s). ts_destructive s \<longrightarrow> k \<notin> set [''s3_list_buckets'', ''s3_get_object'', ''s3_put_object'',
     ''ec2_describe_instances'', ''ec2_describe_security_groups'', ''securityhub_get_findings'', ''iam_list_roles'', ''iam_create_role''])
     TOOL_CATALOG" by code_simp
  with assms(2,3) have "key \<notin> set [''s3_list_buckets'', ''s3_get_object'', ''s3_put_object'',
     ''ec2_describe_instances'', ''ec2_describe_security_groups'', ''securityhub_get_findings'', ''iam_list_roles'', ''iam_create_role'']"
    unfolding list_all_iff by blast
  with shipped_handlers [OF assms(1)] have "key \<notin> set (map fst (ac_handlers C))" by auto
  then show ?thesis unfolding dict_get_def map_of_eq_None_iff by simp
qed

text \<open>
  C35: None of the four agents can destroy anything: whatever its scopes, its token, the policy and Cedar say, and
  however the run ends, running a tool the catalog marks as destructive leaves the cloud as it was, because no
  agent class has a handler for one. A permitted run ends with the error that no handler is registered.
\<close>
theorem destructive_tools_never_reach_the_cloud:
  assumes C: "C \<in> {data_agent B, infra_agent B, secops_agent B, provisioner_agent templates B}"
    and A: "A = agent_init C ident tokens registry pep resolved dump send ids"
    and tool: "(key, spec) \<in> set TOOL_CATALOG" "ts_destructive spec"
    and run: "run_agent A key arn task env tags ctx w = (x, (st, w'))"
  shows "aw_cloud w' = aw_cloud w \<and> (st_decision st = Some ''ALLOW'' \<longrightarrow> st_error st = Some (no_handler key))"
proof (rule unhandled_run [OF _ run])
  show "dict_get (ba_handlers A) key = None"
    using destructive_tools_unhandled [OF C tool] by (simp add: A agent_init_def)
qed

theorem destructive_tools_never_reach_the_cloud_witness:
  "\<exists>x st w'. run_agent (agent_init (data_agent demo_buckets) ''agent-data-001'' demo_tokens (registry_init [''cloud:s3:delete''])
       (demo_pep demo_allow) None demo_event_dump (demo_send True) ((''e1'', 0), (''e2'', 1)))
     ''s3_delete_bucket'' ''arn:aws:s3:::b'' ''t1'' ''staging'' None None (demo_agent_world Map.empty) = (x, (st, w')) \<and> aw_cloud w' = 4"
proof -
  let ?A = "agent_init (data_agent demo_buckets) ''agent-data-001'' demo_tokens (registry_init [''cloud:s3:delete''])
       (demo_pep demo_allow) None demo_event_dump (demo_send True) ((''e1'', 0), (''e2'', 1))"
  obtain x st w' where run: "run_agent ?A ''s3_delete_bucket'' ''arn:aws:s3:::b'' ''t1'' ''staging'' None None
     (demo_agent_world Map.empty) = (x, (st, w'))" by (metis prod_cases3)
  have tool: "(''s3_delete_bucket'', tool ''Delete S3 Bucket'' ''s3:DeleteBucket'' ''cloud:s3:delete'' HIGH True) \<in> set TOOL_CATALOG"
    "ts_destructive (tool ''Delete S3 Bucket'' ''s3:DeleteBucket'' ''cloud:s3:delete'' HIGH True)"
    by (simp_all add: TOOL_CATALOG_def tool_def)
  have "data_agent demo_buckets \<in> {data_agent demo_buckets, infra_agent demo_buckets, secops_agent demo_buckets,
     provisioner_agent [] demo_buckets}" by simp
  from destructive_tools_never_reach_the_cloud [OF this refl tool run] have "aw_cloud w' = 4" by (simp add: demo_agent_world_def)
  with run show ?thesis by (intro exI conjI)
qed

end
