(* ===== verification/Spec2Isabelle.thy ===== *)
theory Spec2Isabelle
  imports System_Composition Credential_Properties Handler_Properties Policy_Properties Seed_Properties
    Audit_Pipeline Rego_First_Policy Deployment
begin

text \<open>
  NHI-Sentinel governs the actions of autonomous agents in a cloud: an agent gets a token, asks the Policy
  Enforcement Point (PEP) before every tool, and leaves a hash-chained audit trail, which a detector reads to
  suspend identities. This development models the Python code of the repository as functions on explicit
  state, one definition per operation, and proves what its parts promise and how they fit together.

  \<^bold>\<open>Conventions.\<close> A computation \<open>('s, 'a) comp\<close> takes the state \<open>'s\<close> and gives \<open>Inl\<close> of the exception or \<open>Inr\<close>
  of the value, with the state after it; \<open>seq\<close>, \<open>try_except\<close>, \<open>ret\<close> and \<open>throw\<close> are the sequencing, the handlers,
  the returns and the raises of the source. What is not in the repository is a parameter: the Redis client
  (a record of its commands, any of which may fail before or after it took effect), OPA and the
  cedar binary, Keycloak and Vault (functions from an HTTP request to a response or an error), Kafka,
  PostgreSQL, pydantic's readers and writers, JWT signing, boto3, scikit-learn, the clock, \<open>uuid4\<close> and the random
  generator. What a proof relies on is a locale, interpreted on a concrete implementation (\<open>mem\<close> is a Redis in
  memory), and the witnesses run on those. \<open>json\<close>, \<open>datetime\<close>, \<open>hashlib\<close> and the string methods are defined.

  \<^bold>\<open>Theories and code.\<close>
  \<^item> Sentinel_Prelude, Redis_Client, Py_Datetime, Py_Json, Py_Hashlib, Http_Client: the vocabulary: Python
    strings and dictionaries, exceptions, the store of a Redis, calendar and \<open>isoformat\<close>, \<open>json.dumps\<close> with a
    reader for it, SHA-256, HTTP and \<open>identity/config.py\<close>.
  \<^item> Interfaces: the locales between components: the gate of the PEP, the audit chain, the topic, codecs.
  \<^item> Cedar_Evaluator, Pep: \<open>pep/cedar_evaluator.py\<close>, \<open>pep/models.py\<close>, \<open>pep/exceptions.py\<close>, \<open>pep/client.py\<close>. \<open>enforce\<close>
    is the IP binding, the suspension check, the rate counter, OPA, Cedar, and the approval entry, in this order.
  \<^item> Approval: \<open>approval/models.py\<close>, \<open>queue.py\<close>, \<open>api.py\<close>. \<open>resolve\<close> is split where another client can interleave,
    and the workflow is a step relation over those halves.
  \<^item> Audit_Log: \<open>audit/schema.py\<close>, \<open>producer.py\<close>, \<open>consumer.py\<close>, \<open>api.py\<close>. Audit_Pipeline joins them to the way of an event
    from \<open>publish\<close> to the answer of \<open>GET /chain/verify\<close>.
  \<^item> Identity_Api, Token_Manager, Identity_Manifest, Identity_Provisioner: \<open>identity/api.py\<close>, \<open>token_manager.py\<close>,
    \<open>manifest_schema.py\<close>, \<open>vault_client.py\<close>, \<open>provisioner.py\<close>.
  \<^item> Anomaly, Anomaly_Service, Anomaly_Baseline: \<open>anomaly/scorer.py\<close>, \<open>service.py\<close>, \<open>baseline.py\<close>. \<open>process_event\<close> is the
    handler of a message; Anomaly_Service splits it at its \<open>await\<close> and interleaves it with scoring requests.
  \<^item> Tool_Registry, Base_Agent, Agent_Runs, Agent_Handlers: \<open>agents/base/tool_registry.py\<close>, \<open>agents/base/agent.py\<close> and the
    four agents. The LangGraph graph is \<open>next_node\<close>; \<open>agent_step\<close> is one step of a run and \<open>invoke\<close> the whole run.
  \<^item> Rego_Policy, Cedar_Policies: \<open>policy/rego/nhi/*.rego\<close> and \<open>policy/cedar/*.cedar\<close>, the policies OPA and the cedar binary
    are started with: the rules as functions of the request, with what the languages do when a value is
    undefined, a complete rule has two values, or an operand has the wrong type. Rego_First_Policy is
    \<open>policy/rego/authorization.rego\<close>, the first version of the package \<open>main.rego\<close> declares again.
  \<^item> Shipped_Identity: \<open>identity/manifests/agent-infra-001.yaml\<close> and \<open>policy/templates/iam_role_templates.yaml\<close> as values.
  \<^item> Cloud_Seed: \<open>cloud_sim/bootstrap.py\<close>, and the contract of the S3 account it fills and DataAgent lists.
  \<^item> Deployment: what runs before the operations above: \<open>get_settings\<close>, \<open>generate_rsa_keypair\<close>, the four agent classes
    with \<open>BaseAgent.__init__\<close>, the opening and closing of the audit consumer, the health endpoints.
  \<^item> System_Composition and this theory: the components on one Redis and one topic.

  \<^bold>\<open>What is shown.\<close> The theories named \<open>..._Properties\<close> hold the properties and their witnesses.
  \<^item> PEP: no tool runs without OPA's ALLOW, an address that fits and, where Cedar governs, its verdict; suspended
    and replayed identities are refused; failures of OPA are denials; and what the code does against its intention.
  \<^item> Approval: in every reachable state an approved request was approved by someone else, which is anyone
    but the requesting agent itself; one resolution in sequence is final, two at once are not; expiry.
  \<^item> Audit: equal last hashes mean equal histories up to a SHA-256 collision; what verifies, and what verifies
    although it should not; the consumer is idempotent; no value gets into the SQL text; a history without
    execution results that was delivered, with increasing times, is reported valid, a gap in it is reported as
    tampering, and one stored execution result makes the answer 503 (Audit_Pipeline).
  \<^item> Identity: the API refines a set of suspended agents; manifests, tokens and provisioning.
  \<^item> Detector: normalised scores, the state after any events; in every interleaving of the service one request per
    agent, and the eleventh mention of an agent suspends it.
  \<^item> Agents: every run ends; a tool runs only after an audited permission; what a run publishes.
  \<^item> Policies: the answer of the Rego policy for every request, what its ALLOW needs, and that the PEP can read none of its
    answers; which governed action the PEP permits with
    the Cedar policies; that approval is a flag the caller sets.
    The second version of the policy only restricts the first (Rego_First_Policy).
  \<^item> Configuration: the registry and the policy agree on the catalog; the limits of a manifest reach nothing
    (Shipped_Identity); no agent has a handler for a destructive tool (Deployment).
  \<^item> Environment: the seeded buckets, and the two of them that DataAgent shows.
  \<^item> Composition: a burst seen by the detector blocks the agent at the PEP; the detector and the approval
    queue do not recognise what the agents and the PEP write.

  \<^bold>\<open>Bounds and fuel.\<close> A run of an agent has at most six steps, by a rank of the nodes that every edge lowers; the
  graph library stops at 25. Histories keep 500 events. The JSON reader has fuel, the length of its text, which the
  round trip shows to be enough for what is written. All other recursion is structural. Python's integers are \<open>int\<close>; the words of
  SHA-256 are \<open>32 word\<close>; floats of the detectors are \<open>rat\<close>, so rounding of binary floats is not modelled.

  \<^bold>\<open>Not modelled.\<close> The protocols of the connections and subscriptions (the audit consumer is the list of what it polled
  before its signal, the detector's consumer the list of messages or failures its stream gave, or the messages among
  the inputs of the running service), logging, environment variables and \<open>.env\<close> (their defaults are the model's
  constants or its parameters), the Isolation Forest itself, and threads: FastAPI runs \<open>POST /score\<close> in a worker thread, and
  the model takes each of its calls, and each stretch of the consumer task between two awaits, as one step. How YAML
  text becomes a value is the business of its reader. Of Rego, the order of two arrays or objects and the order of
  evaluation inside an object are parameters. SQL, dashboards and the user interface are not Python.
\<close>


section \<open>From the detector to the tool\<close>

text \<open>
  C4: When the anomaly service, the identity API and the PEP use the same Redis and it answers, an agent of
  which eleven events were processed since the service started cannot act any more: whatever it
  runs, with whatever token, policy answer and tool, the cloud stays as it was and no decision is ALLOW.
\<close>
theorem burst_blocks_agent:
  fixes F :: "'m forest"
  assumes redis: "redis_service R view el" "redis_reliable R view"
    and registry: "no_str (view (iw_server w0)) IDENTITY_SUSPENDED_KEY"
    and events: "process_events F (identity_post R now t) es (anomaly_init, w0) = (s', w1)"
    and many: "10 < events_of (ba_agent_id A) es"
    and same: "pp_redis (ba_pep A) = R" "view (aw_server w) = view (iw_server w1)"
    and run: "run_agent A tool_key arn task env tags ctx w = (x, (st, w'))"
  shows "aw_cloud w' = aw_cloud w \<and> st_decision st \<noteq> Some ''ALLOW''"
proof -
  let ?a = "ba_agent_id A"
  have "?a \<in> an_suspended s'"
  proof (rule ccontr)
    assume "?a \<notin> an_suspended s'"
    from process_events_counter [OF events this, of 0] many show False
      by (simp add: anomaly_init_def burst_init_def)
  qed
  moreover from process_events_calls [OF events] obtain calls where calls: "w1 = ask (identity_post R now t) calls w0"
    "set (map fst calls) = an_suspended s' - an_suspended (anomaly_init :: 'm anomaly_state)" by (elim exE conjE)
  ultimately have "?a \<in> fst ` set calls" by (simp add: anomaly_init_def)
  then have "?a \<in> suspended_ids (view (iw_server w1))"
    unfolding calls(1) ask_suspends [OF redis registry] by blast
  then have "?a \<in> set_at (view (aw_server w)) SUSPENDED_KEY"
    unfolding same(2) suspended_ids_def keys_agree .
  then show ?thesis by (rule suspended_agent_run [OF redis [folded same(1)] _ run])
qed

theorem burst_blocks_agent_witness:
  "\<exists>w1 x st w'. snd (process_events demo_forest (identity_post mem_redis 0 ''t'') demo_burst
       (anomaly_init, \<lparr>iw_server = Map.empty, iw_suspensions_total = 0, iw_unsuspensions_total = 0\<rparr>)) = w1 \<and>
     run_agent (demo_agent demo_allow) ''s3_list_buckets'' ''arn:aws:s3:::*'' ''t1'' ''staging'' None None
       (demo_agent_world (iw_server w1)) = (x, (st, w')) \<and> aw_cloud w' = 4"
proof -
  let ?w0 = "\<lparr>iw_server = Map.empty, iw_suspensions_total = 0, iw_unsuspensions_total = 0\<rparr> :: mem identity_world"
  obtain s' w1 where events: "process_events demo_forest (identity_post mem_redis 0 ''t'') demo_burst (anomaly_init, ?w0) = (s', w1)"
    by fastforce
  obtain x st w' where run: "run_agent (demo_agent demo_allow) ''s3_list_buckets'' ''arn:aws:s3:::*'' ''t1'' ''staging'' None None
       (demo_agent_world (iw_server w1)) = (x, (st, w'))" by (metis prod_cases3)
  have key: "no_str (mem_view (iw_server ?w0)) IDENTITY_SUSPENDED_KEY" by (simp add: no_str_def str_at_mem)
  have many: "10 < events_of (ba_agent_id (demo_agent demo_allow)) demo_burst"
    using demo_burst_events by (simp add: demo_agent_def)
  have same: "pp_redis (ba_pep (demo_agent demo_allow)) = mem_redis"
    "mem_view (aw_server (demo_agent_world (iw_server w1))) = mem_view (iw_server w1)"
    by (simp_all add: demo_agent_def demo_pep_def demo_agent_world_def)
  have "aw_cloud w' = aw_cloud (demo_agent_world (iw_server w1))"
    by (rule burst_blocks_agent [OF mem.redis_service_axioms mem_reliable key events many same run, THEN conjunct1])
  then have "aw_cloud w' = 4" by (simp add: demo_agent_world_def)
  with events run show ?thesis by (intro exI [of _ w1] exI [of _ x] exI [of _ st] exI [of _ w'] conjI) simp_all
qed

section \<open>From the agent to the detector\<close>

text \<open>
  C19: A refusal of the PEP reaches the audit log as the name of a Python exception, not as DENY, under the
  key of the tool, not the policy action. So to the detector the event is no denial (feature 1) and of no known
  service (feature 4), and no value of the \<open>decision\<close> filter of the query API, which is put in upper case,
  selects it.
\<close>
theorem pep_denials_are_not_denials_to_the_detector:
  assumes registry: "ba_registry A = registry_init scopes" "registry_get (registry_init scopes) tool_key = Inr spec"
    and run: "run_agent A tool_key arn task env tags ctx w = (Inr (), (st, w'))" "st_decision st \<noteq> Some ''ALLOW''"
  shows "\<exists>d out. publish_all (ba_dump A) (ba_send A) [d] (aw_producer w, aw_topic w) = (out, (aw_producer w', aw_topic w')) \<and>
     st_decision st = Some (ae_decision d) \<and> extract_features d ! 1 = 0 \<and> extract_features d ! 4 = 1 \<and>
     ae_decision d \<noteq> str_upper filter_value"
proof -
  have reg: "registry_get (ba_registry A) tool_key = Inr spec" using registry by simp
  from run(1) obtain st2 w2 n where c: "checked A (initial_state tool_key arn task env tags ctx, w) = (Inr (), (st2, w2))"
    "st_decision st2 = Some n" "n \<noteq> []" "st_action st2 = tool_key"
    "aw_producer w2 = aw_producer w" "aw_topic w2 = aw_topic w"
    and rest: "if n = ''ALLOW'' then \<exists>w3. node_execute_tool A (noted A st2, publish_event A (decision_event A st2) w2) = (Inr (), (st, w3)) \<and>
        w' = publish_event A (result_event A st) w3
     else st = noted A st2 \<and> w' = publish_event A (decision_event A st2) w2" by (rule run_audit)
  have n: "n \<noteq> ''ALLOW''"
  proof
    assume n: "n = ''ALLOW''"
    with rest obtain w3 where "node_execute_tool A (noted A st2, publish_event A (decision_event A st2) w2) = (Inr (), (st, w3))"
      unfolding if_P [OF n] by (elim exE conjE)
    from execute_tool_keeps(3) [OF this] c(2) n run(2) show False by (simp add: noted_decision)
  qed
  with rest have st: "st = noted A st2" and w': "w' = publish_event A (decision_event A st2) w2" by simp_all
  have pep: "n \<in> set pep_errors" using available_tool_decision [OF reg c(1)] n c(2) by simp
  let ?d = "decision_event A st2"
  have d: "ae_decision ?d = n" "ae_action ?d = tool_key"
    using c(2-4) by (simp_all add: decision_event_def new_event_def)
  have "ae_decision ?d \<noteq> ''DENY''" "CHR '':'' \<notin> set (ae_action ?d)"
    using pep_errors_not_allow [OF pep] registry_key_plain [OF registry(2)] unfolding d by blast+
  note features = plain_event_features [OF this]
  have "st_decision st = Some (ae_decision ?d)" unfolding d by (simp add: st noted_decision c(2))
  moreover from publish_event_all [of A ?d w2] obtain out where
    "publish_all (ba_dump A) (ba_send A) [?d] (aw_producer w, aw_topic w) = (out, (aw_producer w', aw_topic w'))"
    unfolding w' c(5,6) by (elim exE)
  moreover have "ae_decision ?d \<noteq> str_upper filter_value" unfolding d by (rule pep_errors_not_upper [OF pep])
  ultimately show ?thesis using features by (intro exI conjI)
qed

theorem pep_denials_are_not_denials_to_the_detector_witness:
  "\<exists>st w' d. run_agent (demo_agent demo_deny) ''s3_list_buckets'' ''arn:aws:s3:::*'' ''t1'' ''staging'' None None
       (demo_agent_world Map.empty) = (Inr (), (st, w')) \<and> st_decision st = Some (ae_decision d) \<and> extract_features d ! 1 = 0"
proof -
  obtain st w where c: "checked (demo_agent demo_deny) (demo_start, demo_agent_world Map.empty) = (Inr (), (st, w))"
    "st_decision st = Some ''PolicyDenialError''" "aw_cloud w = 4" by (rule demo_denied)
  have "st_decision st \<noteq> Some ''ALLOW''" unfolding c(2) by simp
  note run = run_after_check [OF c(1) [unfolded demo_start_def] this]
  have registry: "ba_registry (demo_agent demo_deny) = registry_init [''cloud:s3:list'']" by (simp add: demo_agent_def)
  have get: "registry_get (registry_init [''cloud:s3:list'']) ''s3_list_buckets'' =
      Inr (tool ''List S3 Buckets'' ''s3:ListBuckets'' ''cloud:s3:list'' risk_level.LOW False)" by code_simp
  have "st_decision (noted (demo_agent demo_deny) st) \<noteq> Some ''ALLOW''" unfolding noted_decision c(2) by simp
  from pep_denials_are_not_denials_to_the_detector [OF registry get run this, of "[]"] obtain d where
    "st_decision (noted (demo_agent demo_deny) st) = Some (ae_decision d)" "extract_features d ! 1 = 0" by (elim exE conjE)
  with run show ?thesis by (intro exI conjI)
qed

section \<open>From the PEP to the approval queue\<close>

text \<open>
  C18: The entry \<open>enforce\<close> writes for an action that needs approval is \<open>str\<close> of a dict, which is not
  JSON. So when the approval queue on the same Redis is asked to resolve the request that was raised, with
  whatever approver and decision, it changes nothing and answers with a validation error or a failure of
  Redis: no such request can be approved or denied.
\<close>
theorem pep_approval_cannot_be_resolved:
  assumes redis: "redis_service (pp_redis P) view el" "q_redis Q = pp_redis P"
    and json: "\<forall>t. json_read t = None \<longrightarrow> q_validate Q t = None"
    and raised: "enforce P w = (Inl (ApprovalRequiredError a arn rid), w')"
    and resolving: "resolve Q now res (pw_server w') = (x, s')" "rs_request_id res = rid"
  shows "view s' = view (pw_server w') \<and>
     (x = Inl (ValidationError ''ApprovalRequest'') \<or> (\<exists>m. x = Inl (OtherError ''RedisError'' m)))"
proof -
  from enforce_approval [OF raised] obtain q d s where
    "r_setex (pp_redis P) (''approval:'' @ rid) (pp_ttl P) (py_repr (approval_data P q d)) s = (Inr (), pw_server w')"
    by (elim exE conjE) simp
  from redis_service.setex_ok [OF redis(1) this]
  have "str_at (view (pw_server w')) (approval_key (rs_request_id res)) = Some (py_repr (approval_data P q d))"
    by (simp add: resolving(2) approval_key_def KEY_PREFIX_def)
  moreover have "q_validate Q (py_repr (approval_data P q d)) = None" using json approval_entry_not_json(1) by blast
  ultimately show ?thesis
    using unreadable_entry_resolve [OF redis(1) [folded redis(2)] _ approval_entry_not_json(2) _ resolving(1)] by blast
qed

definition ops_approval :: approval_resolution where
  "ops_approval = \<lparr>rs_request_id = ''u1'', rs_action = ''approve'', rs_approver_identity = ''ops-lead'', rs_reason = None\<rparr>"

theorem pep_approval_cannot_be_resolved_witness:
  "\<exists>e w' x s'. enforce (demo_pep (demo_reply ''REQUIRE_APPROVAL'' (JStr ''t''))) (demo_world Map.empty demo_request) = (Inl e, w') \<and>
     resolve demo_queue 0 ops_approval (pw_server w') = (x, s') \<and> mem_view s' = mem_view (pw_server w')"
proof -
  let ?P = "demo_pep (demo_reply ''REQUIRE_APPROVAL'' (JStr ''t''))"
  let ?w = "demo_world Map.empty demo_request"
  let ?e = "ApprovalRequiredError ''ec2:DescribeInstances'' ''arn:aws:ec2:us-east-1:*:instance/*'' ''u1''"
  have "fst (enforce ?P ?w) = Inl ?e" by code_simp
  then obtain w' where raised: "enforce ?P ?w = (Inl ?e, w')" by (metis prod.collapse)
  obtain x s' where run: "resolve demo_queue 0 ops_approval (pw_server w') = (x, s')" by fastforce
  have redis: "redis_service (pp_redis ?P) mem_view mem_elapse" "q_redis demo_queue = pp_redis ?P"
    by (simp_all add: demo_pep_def demo_queue_def mem.redis_service_axioms)
  have json: "\<forall>t. json_read t = None \<longrightarrow> q_validate demo_queue t = None" by (simp add: demo_queue_def demo_validate_def)
  have "rs_request_id ops_approval = ''u1''" by (simp add: ops_approval_def)
  from pep_approval_cannot_be_resolved [OF redis json raised run this, THEN conjunct1] raised run
  show ?thesis by (intro exI conjI)
qed

end
